(* ===== verification/Prelude.thy ===== *)
theory Prelude
  imports Main "HOL-Library.AList"
begin

text \<open>
  Shared vocabulary of the development: the collections of simplification rules the
  component theories add to, and the small part of the JavaScript language and library
  that every component uses: string trimming, truthiness of strings, plain objects as
  association lists in insertion order, the \<open>in\<close> operator, and thrown values as the
  left summand of a sum.

  Strings are Isabelle strings: one \<open>char\<close> stands for one UTF-16 code unit, so the
  model covers the code units below 256 (Latin-1). The characters of the source that lie
  beyond (the ellipsis, the curly quotes, the long dash) are transliterated to ASCII
  where a literal holds one.
\<close>

named_theorems handler_defs \<open>definitions of event handlers, unfolded to run them\<close>
named_theorems view_defs \<open>definitions of rendering functions, unfolded to inspect a page\<close>
named_theorems request_defs \<open>definitions of the request builders of src/api\<close>

section \<open>Strings\<close>

text \<open>White space and line terminators as \<open>String.prototype.trim\<close> strips them, among
  the code units below 256: tab, line feed, vertical tab, form feed, carriage return,
  space and the no-break space.\<close>

definition js_space :: "char \<Rightarrow> bool" where
  "js_space c \<longleftrightarrow> (of_char c :: int) \<in> {9, 10, 11, 12, 13, 32, 160}"

definition trim_start :: "string \<Rightarrow> string" where
  "trim_start s = dropWhile js_space s"

definition trim :: "string \<Rightarrow> string" where
  "trim s = rev (dropWhile js_space (rev (trim_start s)))"

lemma trim_Nil [simp]: "trim [] = []"
  by (simp add: trim_def trim_start_def)

lemma dropWhile_all_iff: "(\<forall>x \<in> set (dropWhile P xs). P x) \<longleftrightarrow> (\<forall>x \<in> set xs. P x)"
  by (induction xs) auto

lemma trim_eq_Nil_iff: "trim s = [] \<longleftrightarrow> (\<forall>c \<in> set s. js_space c)"
  by (simp add: trim_def trim_start_def dropWhile_all_iff)

lemma trim_ends:
  assumes "trim s \<noteq> []"
  shows "\<not> js_space (hd (trim s))" and "\<not> js_space (last (trim s))"
proof -
  let ?t = "trim_start s"
  have ne: "dropWhile js_space (rev ?t) \<noteq> []"
    using assms by (simp add: trim_def)
  then have "\<not> js_space (hd (dropWhile js_space (rev ?t)))"
    by (rule hd_dropWhile)
  then show "\<not> js_space (last (trim s))"
    using ne by (simp add: trim_def last_rev)
  have "?t \<noteq> []" using ne by auto
  then have hd_t: "\<not> js_space (hd ?t)"
    by (metis trim_start_def hd_dropWhile)
  have "?t = trim s @ rev (takeWhile js_space (rev ?t))"
    by (metis trim_def rev_append rev_rev_ident takeWhile_dropWhile_id)
  then have "hd ?t = hd (trim s)"
    using assms by (metis hd_append2)
  then show "\<not> js_space (hd (trim s))" using hd_t by simp
qed

lemma dropWhile_hd_id: "xs = [] \<or> \<not> P (hd xs) \<Longrightarrow> dropWhile P xs = xs"
  by (cases xs) auto

lemma trim_id: "s = [] \<or> \<not> js_space (hd s) \<and> \<not> js_space (last s) \<Longrightarrow> trim s = s"
  by (cases "s = []") (simp_all add: trim_def trim_start_def dropWhile_hd_id hd_rev)

lemma trim_trim [simp]: "trim (trim s) = trim s"
  using trim_ends by (intro trim_id) blast

lemma length_trim_le: "length (trim s) \<le> length s"
  using length_dropWhile_le [of js_space "rev (trim_start s)"]
    length_dropWhile_le [of js_space s]
  by (simp add: trim_def trim_start_def)

text \<open>The falsy test \<open>!s\<close> on a string holds of the empty string alone, so
  \<open>a || b\<close> on strings is a choice by emptiness, and \<open>a ?? b\<close> a choice by presence.\<close>

definition or_undefined :: "string \<Rightarrow> string option" where
  "or_undefined s = (if s = [] then None else Some s)"

lemma or_undefined_simps [simp]:
  "or_undefined [] = None" "s \<noteq> [] \<Longrightarrow> or_undefined s = Some s"
  by (simp_all add: or_undefined_def)

text \<open>\<open>Array.prototype.join\<close>.\<close>

fun join_with :: "string \<Rightarrow> string list \<Rightarrow> string" where
  "join_with sep [] = []"
| "join_with sep [s] = s"
| "join_with sep (s # ss) = s @ sep @ join_with sep ss"

section \<open>Plain objects\<close>

text \<open>An object literal or a \<open>Record<string, T>\<close> keeps its keys in insertion order;
  assigning to a present key keeps its place, which is what \<^const>\<open>AList.update\<close> does.
  \<open>Object.keys(o).length > 0\<close> is \<open>o \<noteq> []\<close>.\<close>

type_synonym 'v js_object = "(string \<times> 'v) list"

abbreviation get_prop :: "'v js_object \<Rightarrow> string \<Rightarrow> 'v option" where
  "get_prop ob k \<equiv> map_of ob k"

abbreviation set_prop :: "string \<Rightarrow> 'v \<Rightarrow> 'v js_object \<Rightarrow> 'v js_object" where
  "set_prop \<equiv> AList.update"

lemma update_ne_Nil [simp]: "AList.update k v ob \<noteq> []"
  by (cases ob) auto

text \<open>The \<open>in\<close> operator also finds the properties an object inherits from
  \<open>Object.prototype\<close>.\<close>

definition object_prototype_props :: "string list" where
  "object_prototype_props =
     [''constructor'', ''__defineGetter__'', ''__defineSetter__'', ''hasOwnProperty'',
      ''__lookupGetter__'', ''__lookupSetter__'', ''isPrototypeOf'', ''propertyIsEnumerable'',
      ''toString'', ''valueOf'', ''__proto__'', ''toLocaleString'']"

definition js_in :: "string \<Rightarrow> 'v js_object \<Rightarrow> bool" where
  "js_in k ob \<longleftrightarrow> k \<in> set (map fst ob) \<or> k \<in> set object_prototype_props"

section \<open>Conditional rendering and thrown values\<close>

text \<open>\<open>{cond && <X/>}\<close> contributes its element or nothing to a list of children.\<close>

definition only_if :: "bool \<Rightarrow> 'a list \<Rightarrow> 'a list" where
  "only_if b xs = (if b then xs else [])"

lemma only_if_simps [simp]: "only_if True xs = xs" "only_if False xs = []"
  by (simp_all add: only_if_def)

lemma set_only_if [simp]: "x \<in> set (only_if b xs) \<longleftrightarrow> b \<and> x \<in> set xs"
  by (simp add: only_if_def)

text \<open>An awaited call either returns or throws. A \<open>try\<close> block around a sequence of
  awaited calls is a bind chain, its \<open>catch\<close> a case on \<^const>\<open>Inl\<close>.\<close>

definition await :: "'e + 'a \<Rightarrow> ('a \<Rightarrow> 'e + 'b) \<Rightarrow> 'e + 'b" where
  "await r k = (case r of Inl e \<Rightarrow> Inl e | Inr a \<Rightarrow> k a)"

lemma await_simps [simp]: "await (Inl e) k = Inl e" "await (Inr a) k = k a"
  by (simp_all add: await_def)

end
