(* ===== verification/Api_Errors.thy ===== *)
theory Api_Errors
  imports Prelude
begin

text \<open>
  The error path every page shares: the API's error envelope and \<open>ApiError\<close>
  (\<open>src/api/errors.ts\<close>), the values a rejected promise can carry, \<open>toFormErrors\<close>
  (\<open>src/lib/formErrors.ts\<close>) and \<open>getErrorMessage\<close>
  (\<open>src/components/QueryState.tsx\<close>).
\<close>

record api_error_envelope =
  env_code :: string
  env_message :: string
  env_fields :: "string list js_object option"

record api_error =
  err_status :: nat
  err_code :: string
  err_message :: string
  err_fields :: "string list js_object option"

definition new_ApiError :: "nat \<Rightarrow> api_error_envelope \<Rightarrow> api_error" where
  "new_ApiError status envelope =
     \<lparr>err_status = status, err_code = env_code envelope, err_message = env_message envelope,
      err_fields = env_fields envelope\<rparr>"

text \<open>What a promise rejects with: an \<open>ApiError\<close>, any other \<open>Error\<close> (a
  \<open>TypeError\<close> of \<open>fetch\<close>, a \<open>SyntaxError\<close> of \<open>response.json()\<close>) with its
  message, or a value that is no \<open>Error\<close>.\<close>

datatype js_exn = ApiError api_error | JsError string | NotAnError

record form_errors =
  error_fields :: "string js_object"
  formMessage :: "string option"

definition generic_message :: string where
  "generic_message = ''Something went wrong. Please try again.''"

text \<open>The loop over \<open>Object.entries(error.fields)\<close>.\<close>

fun first_messages :: "string list js_object \<Rightarrow> string js_object \<Rightarrow> string js_object" where
  "first_messages [] fs = fs"
| "first_messages ((field, messages) # rest) fs =
     first_messages rest (case messages of [] \<Rightarrow> fs | m # _ \<Rightarrow> set_prop field m fs)"

fun toFormErrors :: "js_exn \<Rightarrow> form_errors" where
  "toFormErrors (ApiError e) =
     (let fs = (case err_fields e of None \<Rightarrow> [] | Some ob \<Rightarrow> first_messages ob [])
      in \<lparr>error_fields = fs, formMessage = (if fs \<noteq> [] then None else Some (err_message e))\<rparr>)"
| "toFormErrors _ = \<lparr>error_fields = [], formMessage = Some generic_message\<rparr>"

fun getErrorMessage :: "js_exn \<Rightarrow> string" where
  "getErrorMessage (ApiError e) = err_message e"
| "getErrorMessage (JsError m) = m"
| "getErrorMessage NotAnError = generic_message"

lemma map_of_first_messages:
  assumes "distinct (map fst ob)"
  shows "map_of (first_messages ob fs) k =
    (case map_of ob k of Some (m # _) \<Rightarrow> Some m | _ \<Rightarrow> map_of fs k)"
  using assms
proof (induction ob fs rule: first_messages.induct)
  case (1 fs)
  then show ?case by simp
next
  case (2 field messages rest fs)
  then have "field \<notin> fst ` set rest" by simp
  then have "map_of rest field = None" by (simp add: map_of_eq_None_iff)
  then show ?case
    using 2 by (auto simp: update_conv split: list.splits option.splits)
qed

text \<open>Some message always reaches the form: an error of the API or any other one gives
  either a message for the whole form or a message for at least one field, never both.\<close>

lemma toFormErrors_exclusive: "formMessage (toFormErrors e) = None \<longleftrightarrow> error_fields (toFormErrors e) \<noteq> []"
  by (cases e) (simp_all add: Let_def)

text \<open>The messages the API sent for a field of the request; none for a rejection that is no
  \<open>ApiError\<close> or an envelope without \<open>fields\<close>.\<close>

fun sent_messages :: "js_exn \<Rightarrow> string \<Rightarrow> string list" where
  "sent_messages (ApiError e) k =
     (case err_fields e of None \<Rightarrow> [] | Some ob \<Rightarrow> (case map_of ob k of None \<Rightarrow> [] | Some ms \<Rightarrow> ms))"
| "sent_messages _ k = []"

fun well_formed_exn :: "js_exn \<Rightarrow> bool" where
  "well_formed_exn (ApiError e) = (case err_fields e of None \<Rightarrow> True | Some ob \<Rightarrow> distinct (map fst ob))"
| "well_formed_exn _ = True"

lemma fields_toFormErrors:
  assumes "well_formed_exn e"
  shows "map_of (error_fields (toFormErrors e)) k =
    (case sent_messages e k of [] \<Rightarrow> None | m # _ \<Rightarrow> Some m)"
  using assms map_of_first_messages
  by (cases e) (auto simp: Let_def split: option.splits list.splits)

lemma fields_toFormErrors_empty:
  assumes "well_formed_exn e"
  shows "error_fields (toFormErrors e) = [] \<longleftrightarrow> (\<forall>k. sent_messages e k = [])"
proof -
  have "error_fields (toFormErrors e) = [] \<longleftrightarrow> (\<forall>k. map_of (error_fields (toFormErrors e)) k = None)"
    by (metis map_of_eq_empty_iff)
  then show ?thesis
    using assms by (simp add: fields_toFormErrors split: list.splits) (metis neq_Nil_conv)
qed

text \<open>C35: \<open>toFormErrors\<close> maps a rejected request onto a form without losing anything: a
  field is given a message exactly if the API sent at least one for it, and then the
  first; the form-level message is set exactly if no field has one, and is the API's own
  message for an \<open>ApiError\<close> and the generic one for every other rejection.\<close>

theorem to_form_errors_spec:
  assumes "well_formed_exn e"
  shows "map_of (error_fields (toFormErrors e)) k =
      (case sent_messages e k of [] \<Rightarrow> None | m # _ \<Rightarrow> Some m) \<and>
    formMessage (toFormErrors e) =
      (if \<exists>j. sent_messages e j \<noteq> [] then None
       else Some (case e of ApiError a \<Rightarrow> err_message a | _ \<Rightarrow> generic_message))"
  using fields_toFormErrors [OF assms] fields_toFormErrors_empty [OF assms]
  by (cases e) (auto simp: Let_def)

definition example_422 :: js_exn where
  "example_422 =
     ApiError (new_ApiError 422
       \<lparr>env_code = ''VALIDATION_ERROR'', env_message = ''Request validation failed.'',
        env_fields = Some [(''email'', [''Invalid email.'', ''Too long.'']), (''password'', [])]\<rparr>)"

theorem to_form_errors_spec_witness:
  "well_formed_exn example_422 \<and>
   map_of (error_fields (toFormErrors example_422)) ''email'' = Some ''Invalid email.'' \<and>
   map_of (error_fields (toFormErrors example_422)) ''password'' = None \<and>
   formMessage (toFormErrors example_422) = None"
proof -
  have wf: "well_formed_exn example_422"
    by (simp add: example_422_def new_ApiError_def)
  have ex: "sent_messages example_422 ''email'' = [''Invalid email.'', ''Too long.'']"
      "sent_messages example_422 ''password'' = []"
    by (simp_all add: example_422_def new_ApiError_def)
  then have "\<exists>j. sent_messages example_422 j \<noteq> []" by (intro exI [of _ "''email''"]) simp
  then show ?thesis
    using wf ex to_form_errors_spec [OF wf, of "''email''"] to_form_errors_spec [OF wf, of "''password''"]
    by simp
qed

end
