(* ===== verification/Js_Number.thy ===== *)
theory Js_Number
  imports Complex_Main Prelude
begin

text \<open>
  JavaScript numbers, as far as the program uses them: IEEE 754 binary64 values with
  round-to-nearest-even, \<open>Number(string)\<close>, \<open>Number.parseFloat\<close>,
  \<open>Number.isNaN\<close>, \<open>toFixed(2)\<close> and \<open>String(number)\<close>. A finite value is its
  significand and exponent, kept in canonical form (53 significant bits, or the smallest
  exponent), so equality of numbers is equality of terms. Zero is one value: nothing in
  the program tells \<open>-0\<close> from \<open>0\<close>. All arithmetic is on integers, so every
  definition evaluates.
\<close>

section \<open>Binary64\<close>

datatype js_number = NaN | Infinity bool | Dbl int int

definition js_zero :: js_number where "js_zero = Dbl 0 (-1074)"

text \<open>\<open>round_div n d\<close> is the integer nearest to \<open>n / d\<close>, ties to even.\<close>

definition round_div :: "int \<Rightarrow> int \<Rightarrow> int" where
  "round_div n d =
     (let q = n div d; r = n mod d in
      if 2 * r < d then q else if d < 2 * r then q + 1 else if even q then q else q + 1)"

text \<open>\<open>scaled n d e\<close> is \<open>n / d / 2^e\<close> rounded.\<close>

definition scaled :: "int \<Rightarrow> int \<Rightarrow> int \<Rightarrow> int" where
  "scaled n d e = (if 0 \<le> e then round_div n (d * 2 ^ nat e) else round_div (n * 2 ^ nat (- e)) d)"

definition floor_scaled :: "int \<Rightarrow> int \<Rightarrow> int \<Rightarrow> int" where
  "floor_scaled n d e = (if 0 \<le> e then n div (d * 2 ^ nat e) else n * 2 ^ nat (- e) div d)"

text \<open>The number of binary digits of a positive integer.\<close>

function bits :: "int \<Rightarrow> int" where
  "bits n = (if n \<le> 0 then 0 else 1 + bits (n div 2))"
  by pat_completeness auto
termination
  by (relation "measure nat") auto

declare bits.simps [simp del]

text \<open>The exponent of the last place of \<open>n / d\<close> (both positive): the one that leaves 53
  bits in front of the point, or the smallest exponent of the format.\<close>

definition ulp_exponent :: "int \<Rightarrow> int \<Rightarrow> int" where
  "ulp_exponent n d =
     (let e = bits n - bits d - 53;
          e' = (if floor_scaled n d e < 2 ^ 53 then e else e + 1)
      in max (-1074) e')"

text \<open>Rounding a positive rational \<open>n / d\<close> to binary64.\<close>

definition round_pos :: "int \<Rightarrow> int \<Rightarrow> js_number" where
  "round_pos n d =
     (let e = ulp_exponent n d; m = scaled n d e;
          (m', e') = (if m = 2 ^ 53 then (2 ^ 52, e + 1) else (m, e))
      in if m' = 0 then js_zero else if 971 < e' then Infinity False else Dbl m' e')"

fun negate :: "js_number \<Rightarrow> js_number" where
  "negate NaN = NaN"
| "negate (Infinity s) = Infinity (\<not> s)"
| "negate (Dbl m e) = Dbl (- m) e"

text \<open>The number a decimal literal \<open>n * 10^k\<close> denotes.\<close>

definition of_decimal :: "int \<Rightarrow> int \<Rightarrow> js_number" where
  "of_decimal n k =
     (if n = 0 then js_zero
      else if 0 \<le> k then round_pos (n * 10 ^ nat k) 1
      else round_pos n (10 ^ nat (- k)))"

definition of_int_num :: "int \<Rightarrow> js_number" where
  "of_int_num i =
     (if i = 0 then js_zero else if 0 < i then round_pos i 1 else negate (round_pos (- i) 1))"

section \<open>Numeric literals\<close>

definition digit :: "char \<Rightarrow> bool" where
  "digit c \<longleftrightarrow> 48 \<le> (of_char c :: int) \<and> (of_char c :: int) \<le> 57"

definition digit_val :: "char \<Rightarrow> int" where
  "digit_val c = of_char c - 48"

definition digit_char :: "int \<Rightarrow> char" where
  "digit_char d = char_of (48 + d)"

definition int_of_digits :: "string \<Rightarrow> int" where
  "int_of_digits s = foldl (\<lambda>n c. 10 * n + digit_val c) 0 s"

text \<open>The decimal digits of a natural number.\<close>

function digits_of :: "int \<Rightarrow> string" where
  "digits_of n = (if n < 10 then [digit_char n] else digits_of (n div 10) @ [digit_char (n mod 10)])"
  by pat_completeness auto
termination
  by (relation "measure nat") auto

declare digits_of.simps [simp del]

text \<open>An exponent part is consumed only when a digit follows the \<open>e\<close> and its sign.\<close>

definition strip_sign :: "string \<Rightarrow> bool \<times> string" where
  "strip_sign s =
     (case s of
        c # r \<Rightarrow> if c = CHR ''-'' then (True, r) else if c = CHR ''+'' then (False, r) else (False, s)
      | [] \<Rightarrow> (False, []))"

definition scan_exponent :: "string \<Rightarrow> int \<times> string" where
  "scan_exponent s =
     (case s of
        c # r \<Rightarrow>
          if c = CHR ''e'' \<or> c = CHR ''E'' then
            (let (neg, r') = strip_sign r; ds = takeWhile digit r'; v = int_of_digits ds
             in if ds = [] then (0, s) else (if neg then - v else v, dropWhile digit r'))
          else (0, s)
      | [] \<Rightarrow> (0, []))"

definition fraction_digits :: "string \<Rightarrow> string \<times> string" where
  "fraction_digits s =
     (case s of
        c # r \<Rightarrow> if c = CHR ''.'' then (takeWhile digit r, dropWhile digit r) else ([], s)
      | [] \<Rightarrow> ([], []))"

text \<open>The longest unsigned decimal literal at the start of the text: significand, power of
  ten and what is left. A lone point is no literal.\<close>

definition scan_decimal :: "string \<Rightarrow> (int \<times> int \<times> string) option" where
  "scan_decimal s =
     (let ds = takeWhile digit s; (fs, r) = fraction_digits (dropWhile digit s)
      in if ds = [] \<and> fs = [] then None
         else let (k, r') = scan_exponent r
              in Some (int_of_digits (ds @ fs), k - int (length fs), r'))"

definition signed :: "bool \<Rightarrow> js_number \<Rightarrow> js_number" where
  "signed neg x = (if neg then negate x else x)"

text \<open>A signed literal or \<open>Infinity\<close>, with what follows it.\<close>

definition scan_number :: "string \<Rightarrow> (js_number \<times> string) option" where
  "scan_number s =
     (let (neg, r) = strip_sign s in
      if take 8 r = ''Infinity'' then Some (Infinity neg, drop 8 r)
      else map_option (\<lambda>(n, k, r'). (signed neg (of_decimal n k), r')) (scan_decimal r))"

definition parse_float :: "string \<Rightarrow> js_number" where
  "parse_float s = (case scan_number (trim_start s) of None \<Rightarrow> NaN | Some (x, _) \<Rightarrow> x)"

definition hex_val :: "char \<Rightarrow> int" where
  "hex_val c =
     (let k = of_char c in
      if 48 \<le> k \<and> k \<le> 57 then k - 48
      else if 97 \<le> k \<and> k \<le> 102 then k - 87
      else if 65 \<le> k \<and> k \<le> 70 then k - 55 else 16)"

definition radix_literal :: "int \<Rightarrow> string \<Rightarrow> js_number" where
  "radix_literal b ds =
     (if ds \<noteq> [] \<and> (\<forall>c \<in> set ds. hex_val c < b)
      then of_int_num (foldl (\<lambda>n c. b * n + hex_val c) 0 ds) else NaN)"

text \<open>\<open>Number(s)\<close>: blank text is 0, otherwise the whole trimmed text is one literal.\<close>

definition js_Number :: "string \<Rightarrow> js_number" where
  "js_Number s =
     (let t = trim s in
      if t = [] then js_zero
      else if take 2 t \<in> {''0x'', ''0X''} then radix_literal 16 (drop 2 t)
      else if take 2 t \<in> {''0o'', ''0O''} then radix_literal 8 (drop 2 t)
      else if take 2 t \<in> {''0b'', ''0B''} then radix_literal 2 (drop 2 t)
      else case scan_number t of Some (x, []) \<Rightarrow> x | _ \<Rightarrow> NaN)"

definition isNaN :: "js_number \<Rightarrow> bool" where
  "isNaN x \<longleftrightarrow> x = NaN"

text \<open>The comparison \<open>x <= 0\<close>, false of NaN.\<close>

fun le_zero :: "js_number \<Rightarrow> bool" where
  "le_zero NaN = False"
| "le_zero (Infinity neg) = neg"
| "le_zero (Dbl m e) = (m \<le> 0)"

section \<open>Printing\<close>

text \<open>\<open>toFixed(2)\<close>: the integer number of hundredths nearest to the exact binary value,
  the larger one on a tie, printed with two decimals; magnitudes from \<open>1e21\<close> on
  print as \<open>String\<close> does.\<close>

definition hundredths :: "int \<Rightarrow> int \<Rightarrow> int" where
  "hundredths m e =
     (if 0 \<le> e then 100 * m * 2 ^ nat e
      else (2 * 100 * m + 2 ^ nat (- e)) div (2 * 2 ^ nat (- e)))"

definition fixed2_digits :: "int \<Rightarrow> string" where
  "fixed2_digits h =
     digits_of (h div 100) @ ''.'' @ [digit_char (h mod 100 div 10), digit_char (h mod 10)]"

text \<open>\<open>String(x)\<close>: the fewest significant digits \<open>s\<close> with a power \<open>10^k\<close> that read
  back as \<open>x\<close>, the closer of two candidates. \<open>decimal_point m e\<close> is the number of
  digits before the point.\<close>

definition decimal_point :: "int \<Rightarrow> int \<Rightarrow> int" where
  "decimal_point m e =
     (if 0 \<le> e then int (length (digits_of (m * 2 ^ nat e)))
      else let w = m div 2 ^ nat (- e) in
        if 0 < w then int (length (digits_of w))
        else let t = 10 ^ 330 * m div 2 ^ nat (- e) in int (length (digits_of t)) - 330)"

definition shortest_at :: "int \<Rightarrow> int \<Rightarrow> int \<Rightarrow> (int \<times> int) option" where
  "shortest_at m e k =
     (let num = (if 0 \<le> e then m * 2 ^ nat e else m);
          den = (if 0 \<le> e then 1 else 2 ^ nat (- e));
          num' = (if 0 \<le> k then num else num * 10 ^ nat (- k));
          den' = (if 0 \<le> k then den * 10 ^ nat k else den);
          lo = num' div den';
          near = (if 2 * (num' mod den') < den' then lo else lo + 1);
          far = (if near = lo then lo + 1 else lo)
      in if of_decimal near k = Dbl m e then Some (near, k)
         else if of_decimal far k = Dbl m e then Some (far, k) else None)"

fun shortest_from :: "nat \<Rightarrow> int \<Rightarrow> int \<Rightarrow> int \<Rightarrow> (int \<times> int) option" where
  "shortest_from 0 m e k = None"
| "shortest_from (Suc fuel) m e k =
     (case shortest_at m e k of Some r \<Rightarrow> Some r | None \<Rightarrow> shortest_from fuel m e (k - 1))"

definition layout_digits :: "string \<Rightarrow> int \<Rightarrow> string" where
  "layout_digits ds n =
     (let k = int (length ds) in
      if k \<le> n \<and> n \<le> 21 then ds @ replicate (nat (n - k)) CHR ''0''
      else if 0 < n \<and> n \<le> 21 then take (nat n) ds @ ''.'' @ drop (nat n) ds
      else if -6 < n \<and> n \<le> 0 then ''0.'' @ replicate (nat (- n)) CHR ''0'' @ ds
      else let x = n - 1;
               ex = ''e'' @ (if x < 0 then ''-'' else ''+'') @ digits_of \<bar>x\<bar>
           in take 1 ds @ (if k = 1 then [] else ''.'' @ drop 1 ds) @ ex)"

fun js_String :: "js_number \<Rightarrow> string" where
  "js_String NaN = ''NaN''"
| "js_String (Infinity neg) = (if neg then ''-Infinity'' else ''Infinity'')"
| "js_String (Dbl m e) =
     (if m = 0 then ''0''
      else (if m < 0 then ''-'' else []) @
        (case shortest_from 17 \<bar>m\<bar> e (decimal_point \<bar>m\<bar> e - 1) of
           None \<Rightarrow> []
         | Some (s, k) \<Rightarrow>
             (let ds = digits_of s; z = length (takeWhile (\<lambda>c. c = CHR ''0'') (rev ds));
                  ds' = take (length ds - z) ds
              in layout_digits ds' (int (length ds) + k))))"

fun to_fixed2 :: "js_number \<Rightarrow> string" where
  "to_fixed2 NaN = ''NaN''"
| "to_fixed2 (Infinity neg) = (if neg then ''-Infinity'' else ''Infinity'')"
| "to_fixed2 (Dbl m e) =
     (let h = hundredths \<bar>m\<bar> e in
      if 10 ^ 23 \<le> h then js_String (Dbl m e)
      else (if m < 0 then ''-'' else []) @ fixed2_digits h)"

section \<open>Digits\<close>

lemma digit_digit_char [simp]: "0 \<le> d \<Longrightarrow> d < 10 \<Longrightarrow> digit (digit_char d)"
  by (simp add: digit_def digit_char_def)

lemma digit_val_digit_char [simp]: "0 \<le> d \<Longrightarrow> d < 10 \<Longrightarrow> digit_val (digit_char d) = d"
  by (simp add: digit_val_def digit_char_def)

lemma digit_special [simp]: "\<not> digit CHR ''.''" "\<not> digit CHR ''-''" "\<not> digit CHR ''+''"
    "\<not> digit CHR ''I''" "\<not> digit CHR ''$''"
  by (simp_all add: digit_def)

lemma digit_not_space: "digit c \<Longrightarrow> \<not> js_space c"
  by (auto simp: digit_def js_space_def)

lemma digits_of_ne_Nil [simp]: "digits_of n \<noteq> []"
  by (subst digits_of.simps) simp

lemma digit_digits_of: "0 \<le> n \<Longrightarrow> c \<in> set (digits_of n) \<Longrightarrow> digit c"
proof (induction n rule: digits_of.induct)
  case (1 n)
  show ?case
  proof (cases "n < 10")
    case True
    with 1 show ?thesis by (simp add: digits_of.simps [of n])
  next
    case False
    with 1 show ?thesis by (auto simp: digits_of.simps [of n])
  qed
qed

lemma int_of_digits_Nil [simp]: "int_of_digits [] = 0"
  by (simp add: int_of_digits_def)

lemma int_of_digits_snoc [simp]: "int_of_digits (s @ [c]) = 10 * int_of_digits s + digit_val c"
  by (simp add: int_of_digits_def)

lemma int_of_digits_digits_of [simp]: "0 \<le> n \<Longrightarrow> int_of_digits (digits_of n) = n"
proof (induction n rule: digits_of.induct)
  case (1 n)
  show ?case
  proof (cases "n < 10")
    case True
    with 1 show ?thesis
      using int_of_digits_snoc [of "[]"] by (simp add: digits_of.simps [of n])
  next
    case False
    with 1 show ?thesis by (simp add: digits_of.simps [of n])
  qed
qed

lemma takeWhile_digit [simp]:
  assumes "\<And>c. c \<in> set ds \<Longrightarrow> digit c" and "r = [] \<or> \<not> digit (hd r)"
  shows "takeWhile digit (ds @ r) = ds" "dropWhile digit (ds @ r) = r"
  using assms by (cases r; simp add: takeWhile_append dropWhile_append)+

text \<open>A price with two decimals, as the database column prints it, reads as its hundredths.\<close>

lemma hd_digits_of: "0 \<le> n \<Longrightarrow> digit (hd (digits_of n))"
  by (rule digit_digits_of) auto

lemma strip_sign_digit: "digit (hd s) \<Longrightarrow> strip_sign s = (False, s)"
  by (cases s) (auto simp: strip_sign_def)

lemma scan_decimal_fixed:
  assumes "\<And>c. c \<in> set w \<Longrightarrow> digit c" and "\<And>c. c \<in> set f \<Longrightarrow> digit c" and "w \<noteq> []"
  shows "scan_decimal (w @ CHR ''.'' # f) = Some (int_of_digits (w @ f), - int (length f), [])"
proof -
  have "fraction_digits (CHR ''.'' # f) = (f, [])"
    using takeWhile_digit [of f "[]"] assms(2) by (simp add: fraction_digits_def)
  moreover have "takeWhile digit (w @ CHR ''.'' # f) = w" "dropWhile digit (w @ CHR ''.'' # f) = CHR ''.'' # f"
    using takeWhile_digit [of w "CHR ''.'' # f"] assms(1) by simp_all
  ultimately show ?thesis
    using assms(3) by (simp add: scan_decimal_def scan_exponent_def)
qed

lemma int_of_digits_fixed2:
  assumes "0 \<le> h"
  shows "int_of_digits (digits_of (h div 100) @ [digit_char (h mod 100 div 10), digit_char (h mod 10)]) = h"
proof -
  have "int_of_digits ((digits_of (h div 100) @ [digit_char (h mod 100 div 10)]) @ [digit_char (h mod 10)]) =
    10 * (10 * (h div 100) + h mod 100 div 10) + h mod 10"
    using assms by (simp del: append_assoc add: pos_imp_zdiv_nonneg_iff)
  also have "\<dots> = h"
  proof -
    have shift: "10 * (10 * a + b) + c = 100 * a + (10 * b + c)" for a b c :: int
      by simp
    have "h mod 10 = h mod 100 mod 10" by (simp add: mod_mod_cancel)
    then have "10 * (h mod 100 div 10) + h mod 10 = h mod 100"
      using mult_div_mod_eq [of 10 "h mod 100"] by simp
    then have "10 * (10 * (h div 100) + h mod 100 div 10) + h mod 10 = 100 * (h div 100) + h mod 100"
      by (simp only: shift)
    then show ?thesis by simp
  qed
  finally show ?thesis by simp
qed

lemma scan_number_fixed2:
  assumes "0 \<le> h"
  shows "scan_number (fixed2_digits h) = Some (of_decimal h (-2), [])"
proof -
  let ?w = "digits_of (h div 100)"
  let ?f = "[digit_char (h mod 100 div 10), digit_char (h mod 10)]"
  have w: "\<And>c. c \<in> set ?w \<Longrightarrow> digit c" "digit (hd ?w)"
    using assms digit_digits_of [of "h div 100"] hd_digits_of [of "h div 100"]
    by (simp_all add: pos_imp_zdiv_nonneg_iff)
  have "strip_sign (fixed2_digits h) = (False, fixed2_digits h)"
    using w(2) by (intro strip_sign_digit) (simp add: fixed2_digits_def)
  moreover have "take 8 (fixed2_digits h) \<noteq> ''Infinity''"
    using w(2) by (cases ?w) (auto simp: fixed2_digits_def)
  moreover have "scan_decimal (fixed2_digits h) = Some (h, -2, [])"
  proof -
    have f: "\<And>c. c \<in> set ?f \<Longrightarrow> digit c" by auto
    show ?thesis
      using scan_decimal_fixed [of ?w ?f, OF w(1) f] int_of_digits_fixed2 [OF assms]
      by (simp add: fixed2_digits_def)
  qed
  ultimately show ?thesis
    by (simp add: scan_number_def signed_def)
qed


section \<open>Rounding\<close>

lemma round_div_error:
  assumes "0 < d"
  shows "\<bar>2 * d * round_div n d - 2 * n\<bar> \<le> d"
proof -
  have n2: "n * 2 = 2 * (n mod d) + d * (2 * (n div d))"
  proof -
    have "2 * (d * (n div d) + n mod d) = 2 * (n mod d) + d * (2 * (n div d))"
      by (simp only: algebra_simps)
    then show ?thesis by (simp add: mult.commute)
  qed
  have r: "0 \<le> n mod d" "n mod d < d" using assms by simp_all
  have low: "2 * d * (n div d) - 2 * n = - 2 * (n mod d)"
    and high: "2 * d * (n div d + 1) - 2 * n = 2 * d - 2 * (n mod d)"
    by (simp_all add: algebra_simps n2)
  show ?thesis
  proof (cases "round_div n d = n div d")
    case True
    then have "2 * (n mod d) \<le> d" by (auto simp: round_div_def Let_def split: if_splits)
    then show ?thesis using True low r by simp
  next
    case False
    then have "round_div n d = n div d + 1" "d \<le> 2 * (n mod d)"
      by (auto simp: round_div_def Let_def split: if_splits)
    then show ?thesis using high r by simp
  qed
qed

lemma bits_le: "n < 2 ^ k \<Longrightarrow> bits n \<le> int k"
proof (induction k arbitrary: n)
  case 0
  then show ?case by (simp add: bits.simps [of n])
next
  case (Suc k)
  then have "n div 2 < 2 ^ k" by (simp add: div_less_iff_less_mult)
  from Suc.IH [OF this] show ?case by (simp add: bits.simps [of n])
qed

lemma bits_100: "bits 100 = 7"
  by code_simp

text \<open>Reading hundredths and printing them with two decimals is exact as long as the
  significand has room to spare: the error of the rounding is far below half a hundredth.\<close>

lemma hundredths_exact:
  assumes "7 \<le> k" and "\<bar>200 * m - 2 * h * 2 ^ k\<bar> \<le> 100"
  shows "hundredths m (- int k) = h"
proof -
  let ?p = "2 ^ k :: int"
  have "(2::int) ^ 7 \<le> ?p" using assms(1) by (intro power_increasing) auto
  then have p: "128 \<le> ?p" by simp
  have "h = (200 * m + ?p) div (2 * ?p)"
  proof (rule sym, rule int_div_pos_eq [where r = "200 * m + ?p - 2 * ?p * h"])
    show "0 \<le> 200 * m + ?p - 2 * ?p * h" "200 * m + ?p - 2 * ?p * h < 2 * ?p"
      using assms(2) p by (auto simp: abs_le_iff algebra_simps)
  qed simp
  then show ?thesis
    using assms(1) by (simp add: hundredths_def)
qed

lemma to_fixed2_of_hundredths:
  assumes "0 \<le> h" and "h < 2 ^ 51"
  shows "to_fixed2 (of_decimal h (-2)) = fixed2_digits h"
proof (cases "h = 0")
  case True
  then show ?thesis by (simp add: of_decimal_def js_zero_def hundredths_def)
next
  case False
  with assms have h: "0 < h" by simp
  define e where "e = ulp_exponent h 100"
  have "bits h \<le> 51" using bits_le [of h 51] assms(2) by simp
  then have e: "e \<le> -8" "-1074 \<le> e"
    by (auto simp: e_def ulp_exponent_def Let_def bits_100)
  define k where "k = nat (- e)"
  have ek: "e = - int k" and k: "8 \<le> k" using e by (simp_all add: k_def)
  define m where "m = round_div (h * 2 ^ k) 100"
  have m: "\<bar>200 * m - 2 * h * 2 ^ k\<bar> \<le> 100"
    using round_div_error [of 100 "h * 2 ^ k"] by (simp add: m_def mult.assoc)
  have "(2::int) ^ 8 \<le> 2 ^ k" using k by (intro power_increasing) auto
  then have "256 \<le> h * 2 ^ k" using h mult_mono [of 1 h 256 "2 ^ k"] by simp
  then have mpos: "0 < m" using m by (auto simp: abs_le_iff)
  have lim: "\<not> 10 ^ 23 \<le> h" using assms(2) by simp
  have exact: "hundredths m (- int k) = h"
    using hundredths_exact [OF _ m] k by simp
  have sc: "scaled h 100 e = m" using k by (simp add: scaled_def ek m_def)
  show ?thesis
  proof (cases "m = 2 ^ 53")
    case True
    define k' where "k' = k - 1"
    have k': "k = Suc k'" "7 \<le> k'" using k by (simp_all add: k'_def)
    have "hundredths (2 ^ 52) (- int k') = h"
    proof (rule hundredths_exact [OF k'(2)])
      show "\<bar>200 * 2 ^ 52 - 2 * h * 2 ^ k'\<bar> \<le> 100"
        using m by (simp add: True k'(1) abs_le_iff)
    qed
    moreover have "of_decimal h (-2) = Dbl (2 ^ 52) (- int k')"
      using h True sc k' by (simp add: of_decimal_def round_pos_def e_def [symmetric] ek)
    ultimately show ?thesis using lim by simp
  next
    case False
    then have "of_decimal h (-2) = Dbl m (- int k)"
      using h sc mpos by (simp add: of_decimal_def round_pos_def e_def [symmetric] ek)
    then show ?thesis using exact lim mpos by simp
  qed
qed

end
