(* ===== verification/Js_Url.thy ===== *)
theory Js_Url
  imports Js_Number
begin

text \<open>
  URLs as the client builds and reads them: \<open>encodeURIComponent\<close> (HomePage), the
  \<open>application/x-www-form-urlencoded\<close> serializer and parser behind
  \<open>URLSearchParams\<close> (BrowsePage, buildUrl), and \<open>buildUrl\<close> of
  \<open>src/api/client.ts\<close>. Text is UTF-8 encoded before it is percent-encoded; a byte is
  an integer from 0 to 255, and bytes that decode to a code unit above 255 are outside the
  model (\<^const>\<open>None\<close>).
\<close>

section \<open>UTF-8\<close>

definition code :: "char \<Rightarrow> int" where
  "code c = of_char c"

definition utf8 :: "char \<Rightarrow> int list" where
  "utf8 c = (if code c < 128 then [code c] else [192 + code c div 64, 128 + code c mod 64])"

fun utf8_decode :: "int list \<Rightarrow> string option" where
  "utf8_decode [] = Some []"
| "utf8_decode (b # bs) =
     (if b < 128 then map_option ((#) (char_of b)) (utf8_decode bs)
      else if b = 194 \<or> b = 195 then
        (case bs of
           c # bs' \<Rightarrow> if 128 \<le> c \<and> c < 192
             then map_option ((#) (char_of ((b - 192) * 64 + (c - 128)))) (utf8_decode bs')
             else None
         | [] \<Rightarrow> None)
      else None)"

section \<open>Percent-encoding\<close>

definition alnum :: "char \<Rightarrow> bool" where
  "alnum c \<longleftrightarrow> 48 \<le> code c \<and> code c \<le> 57 \<or> 65 \<le> code c \<and> code c \<le> 90 \<or> 97 \<le> code c \<and> code c \<le> 122"

definition uri_unreserved :: "char \<Rightarrow> bool" where
  "uri_unreserved c \<longleftrightarrow> alnum c \<or> c \<in> set ''-_.!~*()'' \<or> code c = 39"

definition form_unreserved :: "char \<Rightarrow> bool" where
  "form_unreserved c \<longleftrightarrow> alnum c \<or> c \<in> set ''*-._''"

definition hex_char :: "int \<Rightarrow> char" where
  "hex_char d = (if d < 10 then char_of (48 + d) else char_of (55 + d))"

definition percent :: "int \<Rightarrow> string" where
  "percent b = [CHR ''%'', hex_char (b div 16), hex_char (b mod 16)]"

definition encodeURIComponent :: "string \<Rightarrow> string" where
  "encodeURIComponent s =
     concat (map (\<lambda>c. if uri_unreserved c then [c] else concat (map percent (utf8 c))) s)"

definition form_encode :: "string \<Rightarrow> string" where
  "form_encode s =
     concat (map (\<lambda>c. if c = CHR '' '' then ''+''
       else if form_unreserved c then [c] else concat (map percent (utf8 c))) s)"

fun percent_decode :: "string \<Rightarrow> int list" where
  "percent_decode [] = []"
| "percent_decode (c # r) =
     (if c = CHR ''%'' then
        (case r of
           h # l # r' \<Rightarrow>
             if hex_val h < 16 \<and> hex_val l < 16
             then (16 * hex_val h + hex_val l) # percent_decode r' else 37 # percent_decode r
         | _ \<Rightarrow> 37 # percent_decode r)
      else utf8 c @ percent_decode r)"

definition form_decode :: "string \<Rightarrow> string option" where
  "form_decode s = utf8_decode (percent_decode (map (\<lambda>c. if c = CHR ''+'' then CHR '' '' else c) s))"

section \<open>URLSearchParams\<close>

type_synonym search_params = "(string \<times> string) list"

definition serialize_params :: "search_params \<Rightarrow> string" where
  "serialize_params ps =
     join_with ''&'' (map (\<lambda>(k, v). form_encode k @ ''='' @ form_encode v) ps)"

fun split_on :: "char \<Rightarrow> string \<Rightarrow> string list" where
  "split_on d [] = [[]]"
| "split_on d (c # s) =
     (if c = d then [] # split_on d s
      else case split_on d s of p # ps \<Rightarrow> (c # p) # ps | [] \<Rightarrow> [[c]])"

definition decode_pair :: "string \<Rightarrow> (string \<times> string) option" where
  "decode_pair s =
     (let k = takeWhile (\<lambda>c. c \<noteq> CHR ''='') s; v = drop 1 (dropWhile (\<lambda>c. c \<noteq> CHR ''='') s)
      in case (form_decode k, form_decode v) of (Some k', Some v') \<Rightarrow> Some (k', v') | _ \<Rightarrow> None)"

fun option_list :: "'a option list \<Rightarrow> 'a list option" where
  "option_list [] = Some []"
| "option_list (x # xs) =
     (case x of None \<Rightarrow> None | Some a \<Rightarrow> map_option ((#) a) (option_list xs))"

definition parse_params :: "string \<Rightarrow> search_params option" where
  "parse_params s = option_list (map decode_pair (filter (\<lambda>p. p \<noteq> []) (split_on CHR ''&'' s)))"

definition params_get :: "search_params \<Rightarrow> string \<Rightarrow> string option" where
  "params_get ps k = map_of ps k"

section \<open>buildUrl\<close>

datatype query_value = QString string | QNumber js_number | QBool bool | QNull | QUndefined

fun string_of_query_value :: "query_value \<Rightarrow> string option" where
  "string_of_query_value (QString s) = Some s"
| "string_of_query_value (QNumber x) = Some (js_String x)"
| "string_of_query_value (QBool b) = Some (if b then ''true'' else ''false'')"
| "string_of_query_value QNull = None"
| "string_of_query_value QUndefined = None"

fun set_query_params :: "query_value js_object \<Rightarrow> search_params \<Rightarrow> search_params" where
  "set_query_params [] ps = ps"
| "set_query_params ((k, v) # q) ps =
     set_query_params q (case string_of_query_value v of None \<Rightarrow> ps | Some s \<Rightarrow> AList.update k s ps)"

text \<open>\<open>base\<close> is \<open>API_BASE_URL\<close>. \<open>new URL\<close> leaves a normalised path as it is;
  setting no parameter leaves no question mark.\<close>

definition buildUrl :: "string \<Rightarrow> string \<Rightarrow> query_value js_object option \<Rightarrow> string" where
  "buildUrl base path query =
     (let ps = (case query of None \<Rightarrow> [] | Some q \<Rightarrow> set_query_params q [])
      in base @ path @ (if ps = [] then [] else ''?'' @ serialize_params ps))"


section \<open>Round trips\<close>

lemma code_bounds: "0 \<le> code c" "code c < 256"
proof -
  have "code c mod 256 = code c" by (simp add: code_def)
  then show "0 \<le> code c" "code c < 256"
    by (metis pos_mod_sign zero_less_numeral, metis pos_mod_bound zero_less_numeral)
qed

lemma code_eq_iff [simp]: "code c = code d \<longleftrightarrow> c = d"
  by (simp add: code_def)

lemma char_of_code [simp]: "char_of (code c) = c"
  by (simp add: code_def)

lemma utf8_decode_utf8 [simp]: "utf8_decode (utf8 c @ bs) = map_option ((#) c) (utf8_decode bs)"
proof (cases "code c < 128")
  case True
  then show ?thesis by (simp add: utf8_def)
next
  case False
  then have "code c div 64 = 2 \<or> code c div 64 = 3" using code_bounds(2) [of c] by auto
  moreover have "(code c div 64) * 64 + code c mod 64 = code c" by simp
  moreover have "0 \<le> code c mod 64" "code c mod 64 < 64" by simp_all
  ultimately show ?thesis using False by (auto simp: utf8_def mult.commute)
qed

lemma utf8_byte: "b \<in> set (utf8 c) \<Longrightarrow> 0 \<le> b \<and> b < 256"
proof -
  assume b: "b \<in> set (utf8 c)"
  have "0 \<le> code c mod 64" "code c mod 64 < 64" "0 \<le> code c div 64" "code c div 64 < 4"
    using code_bounds [of c] by auto
  then show ?thesis using b code_bounds [of c] by (auto simp: utf8_def split: if_splits)
qed

lemma code_hex_char: "0 \<le> d \<Longrightarrow> d < 16 \<Longrightarrow> code (hex_char d) = (if d < 10 then 48 + d else 55 + d)"
  by (simp add: code_def hex_char_def)

lemma hex_val_hex_char [simp]: "0 \<le> d \<Longrightarrow> d < 16 \<Longrightarrow> hex_val (hex_char d) = d"
  using code_hex_char [of d] by (auto simp: hex_val_def code_def Let_def)

lemma percent_decode_percent [simp]:
  assumes "0 \<le> b" "b < 256"
  shows "percent_decode (percent b @ r) = b # percent_decode r"
proof -
  have "0 \<le> b div 16" "b div 16 < 16" "0 \<le> b mod 16" "b mod 16 < 16" using assms by auto
  then show ?thesis by (simp add: percent_def)
qed

lemma percent_decode_bytes:
  "(\<And>b. b \<in> set bs \<Longrightarrow> 0 \<le> b \<and> b < 256) \<Longrightarrow>
   percent_decode (concat (map percent bs) @ r) = bs @ percent_decode r"
  by (induction bs) simp_all

text \<open>A character is sent as itself, or as the percent-encoded bytes of its UTF-8 form. No
  encoded character holds one of the separators of a query string.\<close>

definition plus_space :: "string \<Rightarrow> string" where
  "plus_space s = map (\<lambda>c. if c = CHR ''+'' then CHR '' '' else c) s"

lemma plus_space_simps [simp]:
  "plus_space [] = []" "plus_space (s @ t) = plus_space s @ plus_space t"
  "plus_space (c # s) = (if c = CHR ''+'' then CHR '' '' else c) # plus_space s"
  by (simp_all add: plus_space_def)

lemma form_decode_alt: "form_decode s = utf8_decode (percent_decode (plus_space s))"
  by (simp add: form_decode_def plus_space_def)

definition separators :: "int list" where
  "separators = [43, 38, 61]"

lemma code_separators [simp]: "code CHR ''+'' = 43" "code CHR ''&'' = 38" "code CHR ''='' = 61"
    "code CHR ''%'' = 37" "code CHR '' '' = 32"
  by (simp_all add: code_def)

definition plain :: "char \<Rightarrow> bool" where
  "plain c \<longleftrightarrow> code c \<notin> {43, 38, 61}"

lemma plainD: "plain c \<Longrightarrow> c \<noteq> CHR ''+'' \<and> c \<noteq> CHR ''&'' \<and> c \<noteq> CHR ''=''"
  by (auto simp: plain_def)

lemma plain_hex_char: "0 \<le> d \<Longrightarrow> d < 16 \<Longrightarrow> plain (hex_char d)"
  using code_hex_char [of d] by (auto simp: plain_def split: if_splits)

lemma plain_percent:
  assumes "0 \<le> b" "b < 256" "c \<in> set (percent b)"
  shows "plain c"
proof -
  have "0 \<le> b div 16" "b div 16 < 16" "0 \<le> b mod 16" "b mod 16 < 16" using assms(1,2) by auto
  then have "plain (hex_char (b div 16))" "plain (hex_char (b mod 16))"
    by (simp_all add: plain_hex_char)
  then show ?thesis using assms(3) by (auto simp: percent_def plain_def)
qed

lemma plain_pct_char: "c \<in> set (concat (map percent (utf8 d))) \<Longrightarrow> plain c"
  using utf8_byte plain_percent by fastforce

lemma plain_alnum: "alnum c \<Longrightarrow> plain c"
  by (auto simp: alnum_def plain_def)

lemma plain_uri: "uri_unreserved c \<Longrightarrow> plain c"
  by (auto simp: uri_unreserved_def alnum_def plain_def code_def)

lemma plain_form: "form_unreserved c \<Longrightarrow> plain c"
  by (auto simp: form_unreserved_def alnum_def plain_def code_def)

lemma plus_space_plain [simp]: "(\<And>c. c \<in> set s \<Longrightarrow> plain c) \<Longrightarrow> plus_space s = s"
  by (induction s) (auto dest: plainD)

lemma unreserved_ascii: "uri_unreserved c \<Longrightarrow> code c < 128 \<and> c \<noteq> CHR ''%''"
    "form_unreserved c \<Longrightarrow> code c < 128 \<and> c \<noteq> CHR ''%''"
  by (auto simp: uri_unreserved_def form_unreserved_def alnum_def code_def)

lemma percent_decode_escaped:
  "percent_decode (plus_space (concat (map percent (utf8 c))) @ r) = utf8 c @ percent_decode r"
proof -
  have "plus_space (concat (map percent (utf8 c))) = concat (map percent (utf8 c))"
    using plain_pct_char by (intro plus_space_plain) blast
  moreover have "percent_decode (concat (map percent (utf8 c)) @ r) = utf8 c @ percent_decode r"
    using utf8_byte by (intro percent_decode_bytes) blast
  ultimately show ?thesis by simp
qed

definition encodes :: "(char \<Rightarrow> string) \<Rightarrow> bool" where
  "encodes f \<longleftrightarrow> (\<forall>c. CHR ''&'' \<notin> set (f c) \<and> CHR ''='' \<notin> set (f c) \<and>
     (\<forall>r. percent_decode (plus_space (f c) @ r) = utf8 c @ percent_decode r))"

lemma encodesD:
  assumes "encodes f"
  shows "CHR ''&'' \<notin> set (f c)" "CHR ''='' \<notin> set (f c)"
    and "percent_decode (plus_space (f c) @ r) = utf8 c @ percent_decode r"
  using assms by (simp_all add: encodes_def)

lemma form_decode_encodes:
  assumes "encodes f"
  shows "form_decode (concat (map f s)) = Some s"
proof -
  have "percent_decode (plus_space (concat (map f s))) = concat (map utf8 s)"
    by (induction s) (simp_all add: encodesD(3) [OF assms])
  moreover have "utf8_decode (concat (map utf8 s)) = Some s"
    by (induction s) simp_all
  ultimately show ?thesis by (simp add: form_decode_alt)
qed

lemma escaped_no_separator:
  "CHR ''&'' \<notin> set (concat (map percent (utf8 c)))" "CHR ''='' \<notin> set (concat (map percent (utf8 c)))"
  using plainD [OF plain_pct_char] by blast+

lemma percent_decode_unreserved:
  assumes "plain c" and "code c < 128 \<and> c \<noteq> CHR ''%''"
  shows "percent_decode (plus_space [c] @ r) = utf8 c @ percent_decode r"
  using plainD [OF assms(1)] assms(2) by simp

lemma encodes_uri: "encodes (\<lambda>c. if uri_unreserved c then [c] else concat (map percent (utf8 c)))"
  (is "encodes ?f")
  unfolding encodes_def
proof (intro allI conjI)
  fix c r
  show "CHR ''&'' \<notin> set (?f c)" "CHR ''='' \<notin> set (?f c)"
    using escaped_no_separator [of c] plainD [OF plain_uri [of c]] by auto
  show "percent_decode (plus_space (?f c) @ r) = utf8 c @ percent_decode r"
    using percent_decode_escaped [of c r] percent_decode_unreserved [OF plain_uri unreserved_ascii(1), of c r]
    by (simp split: if_splits)
qed

lemma encodes_form:
  "encodes (\<lambda>c. if c = CHR '' '' then ''+''
     else if form_unreserved c then [c] else concat (map percent (utf8 c)))"
  (is "encodes ?f")
  unfolding encodes_def
proof (intro allI conjI)
  fix c r
  show "CHR ''&'' \<notin> set (?f c)" "CHR ''='' \<notin> set (?f c)"
    using escaped_no_separator [of c] plainD [OF plain_form [of c]] by auto
  show "percent_decode (plus_space (?f c) @ r) = utf8 c @ percent_decode r"
    using percent_decode_escaped [of c r] percent_decode_unreserved [OF plain_form unreserved_ascii(2), of c r]
    by (simp split: if_splits)
qed

lemma form_decode_encodeURIComponent [simp]: "form_decode (encodeURIComponent s) = Some s"
  unfolding encodeURIComponent_def by (rule form_decode_encodes [OF encodes_uri])

lemma form_decode_form_encode [simp]: "form_decode (form_encode s) = Some s"
  unfolding form_encode_def by (rule form_decode_encodes [OF encodes_form])

lemma form_encode_no_separator [simp]:
  "CHR ''&'' \<notin> set (form_encode s)" "CHR ''='' \<notin> set (form_encode s)"
  unfolding form_encode_def using encodesD(1,2) [OF encodes_form]
  by (simp_all only: set_concat set_map UN_iff image_iff) blast+

lemma encodeURIComponent_no_separator [simp]:
  "CHR ''&'' \<notin> set (encodeURIComponent s)" "CHR ''='' \<notin> set (encodeURIComponent s)"
  unfolding encodeURIComponent_def using encodesD(1,2) [OF encodes_uri]
  by (simp_all only: set_concat set_map UN_iff image_iff) blast+

lemma takeWhile_ne_append:
  assumes "d \<notin> set s"
  shows "takeWhile (\<lambda>c. c \<noteq> d) (s @ d # t) = s" and "dropWhile (\<lambda>c. c \<noteq> d) (s @ d # t) = d # t"
  using assms by (induction s) auto

lemma decode_pair_encoded:
  assumes "CHR ''='' \<notin> set k" and "form_decode k = Some k'" and "form_decode v = Some v'"
  shows "decode_pair (k @ CHR ''='' # v) = Some (k', v')"
  using assms(2,3) by (simp add: decode_pair_def takeWhile_ne_append [OF assms(1)])

lemma split_on_no_sep: "d \<notin> set s \<Longrightarrow> split_on d s = [s]"
  by (induction s) auto

lemma split_on_append: "d \<notin> set s \<Longrightarrow> split_on d (s @ d # t) = s # split_on d t"
  by (induction s) auto

lemma split_join:
  assumes "\<forall>s \<in> set ss. d \<notin> set s" and "ss \<noteq> []"
  shows "split_on d (join_with [d] ss) = ss"
  using assms
  by (induction "[d]" ss rule: join_with.induct) (simp_all add: split_on_no_sep split_on_append)

lemma option_list_Some: "option_list (map Some xs) = Some xs"
  by (induction xs) simp_all

lemma parse_serialize_params: "parse_params (serialize_params ps) = Some ps"
proof (cases "ps = []")
  case True
  then show ?thesis by (simp add: parse_params_def serialize_params_def)
next
  case False
  let ?enc = "\<lambda>(k, v). form_encode k @ ''='' @ form_encode v"
  have "split_on CHR ''&'' (serialize_params ps) = map ?enc ps"
    unfolding serialize_params_def using False by (intro split_join) auto
  moreover have "filter (\<lambda>p. p \<noteq> []) (map ?enc ps) = map ?enc ps"
    by (auto simp: filter_id_conv)
  moreover have "map decode_pair (map ?enc ps) = map Some ps"
    by (auto simp: decode_pair_encoded)
  ultimately show ?thesis
    by (simp only: parse_params_def option_list_Some)
qed

lemma parse_single_encoded:
  assumes "CHR ''&'' \<notin> set k" "CHR ''='' \<notin> set k" and "form_decode k = Some k'"
  shows "parse_params (k @ CHR ''='' # encodeURIComponent v) = Some [(k', v)]"
proof -
  have "split_on CHR ''&'' (k @ CHR ''='' # encodeURIComponent v) = [k @ CHR ''='' # encodeURIComponent v]"
    using assms(1) by (intro split_on_no_sep) auto
  then show ?thesis
    using assms by (simp add: parse_params_def decode_pair_encoded)
qed

text \<open>The entries of a query that are sent: those whose value is neither null nor
  undefined, in their order, each as \<open>String(value)\<close>.\<close>

definition present_params :: "query_value js_object \<Rightarrow> search_params" where
  "present_params q =
     List.map_filter (\<lambda>(k, v). map_option (Pair k) (string_of_query_value v)) q"

lemma present_params_simps [simp]:
  "present_params [] = []"
  "present_params ((k, v) # q) =
     (case string_of_query_value v of None \<Rightarrow> [] | Some s \<Rightarrow> [(k, s)]) @ present_params q"
  by (simp_all add: present_params_def split: option.splits)

lemma update_new_key: "k \<notin> fst ` set ps \<Longrightarrow> AList.update k v ps = ps @ [(k, v)]"
  by (induction ps) auto

lemma set_query_params_distinct:
  assumes "distinct (map fst q)" and "fst ` set ps \<inter> fst ` set q = {}"
  shows "set_query_params q ps = ps @ present_params q"
  using assms
proof (induction q arbitrary: ps)
  case Nil
  then show ?case by simp
next
  case (Cons kv q)
  obtain k v where kv: "kv = (k, v)" by (cases kv)
  show ?case
  proof (cases "string_of_query_value v")
    case None
    then show ?thesis using Cons.prems Cons.IH [of ps] by (auto simp: kv)
  next
    case (Some s)
    have "k \<notin> fst ` set ps" using Cons.prems(2) by (auto simp: kv)
    then have upd: "AList.update k s ps = ps @ [(k, s)]" by (rule update_new_key)
    have "fst ` set (ps @ [(k, s)]) \<inter> fst ` set q = {}"
      using Cons.prems by (auto simp: kv)
    then have "set_query_params q (ps @ [(k, s)]) = (ps @ [(k, s)]) @ present_params q"
      using Cons.prems(1) by (intro Cons.IH) (simp_all add: kv)
    then show ?thesis by (simp add: kv Some upd)
  qed
qed

text \<open>C25: Whatever query object a caller passes, the URL that \<open>buildUrl\<close> sends parses back
  (by the URL standard's own query parser) to exactly the entries whose value is neither
  null nor undefined, in the same order, with every key and every \<open>String(value)\<close>
  recovered unchanged: spaces, ampersands, equals signs, percent signs and non-ASCII
  text included.\<close>

theorem build_url_query_exact:
  assumes "distinct (map fst q)"
  shows "parse_params (drop (length (base @ path @ ''?'')) (buildUrl base path (Some q))) =
    Some (present_params q)"
  using set_query_params_distinct [OF assms, of "[]"] parse_serialize_params [of "present_params q"]
  by (cases "present_params q = []")
    (simp_all add: buildUrl_def parse_params_def serialize_params_def)

theorem build_url_query_exact_witness:
  "distinct (map fst [(''search'', QString ''C++ & C = 100%''), (''category'', QUndefined), (''page'', QNumber (js_Number ''2''))])
   \<and> parse_params (drop (length (''http://localhost:8000'' @ ''/api/v1/listings'' @ ''?''))
       (buildUrl ''http://localhost:8000'' ''/api/v1/listings''
         (Some [(''search'', QString ''C++ & C = 100%''), (''category'', QUndefined), (''page'', QNumber (js_Number ''2''))]))) =
     Some [(''search'', ''C++ & C = 100%''), (''page'', ''2'')]"
proof -
  let ?q = "[(''search'', QString ''C++ & C = 100%''), (''category'', QUndefined), (''page'', QNumber (js_Number ''2''))]"
  have d: "distinct (map fst ?q)" by simp
  have two: "js_String (js_Number ''2'') = ''2''" by code_simp
  show ?thesis
    using d build_url_query_exact [OF d, of "''http://localhost:8000''" "''/api/v1/listings''"]
    by (simp only: present_params_simps string_of_query_value.simps two option.case append_Nil append_Cons simp_thms)
qed

end
