(* ===== verification/Api_Client.thy ===== *)
theory Api_Client
  imports Api_Errors Js_Url
begin

text \<open>
  \<open>src/api/client.ts\<close> and \<open>src/api/tokenStore.ts\<close>: the one place every API call goes
  through. The module variables are the fields of a record; every asynchronous function is
  cut at its \<open>await\<close>s into the pieces that run without interruption, and an event runs
  one piece. Any number of calls run at once, in any interleaving of their events with
  those of the shared refresh.

  The two handlers are callbacks registered by \<open>AuthProvider\<close>; they act on the state of
  the React application, the type parameter \<open>'app\<close>, held in the field \<open>app\<close>.
  \<open>'d\<close> is the type of the data the API returns.
\<close>

section \<open>Requests and responses\<close>

datatype http_method = GET | POST | PATCH | DELETE

datatype json =
    JNull | JBool bool | JNum js_number | JStr string | JArr "json list" | JObj "(string \<times> json) list"

record js_file =
  file_name :: string
  file_size :: int
  file_type :: string

type_synonym form_data = "(string \<times> js_file) list"

record api_fetch_options =
  opt_method :: "http_method option"
  opt_json :: "json option"
  opt_body :: "form_data option"
  opt_query :: "query_value js_object option"

definition no_options :: api_fetch_options where
  "no_options = \<lparr>opt_method = None, opt_json = None, opt_body = None, opt_query = None\<rparr>"

record api_call =
  call_path :: string
  call_options :: api_fetch_options

datatype fetch_body = NoBody | JsonText json | Multipart form_data

record wire_request =
  wire_method :: http_method
  wire_url :: string
  wire_headers :: "string js_object"
  wire_body :: fetch_body

text \<open>What \<open>response.json()\<close> yields: the body of an issued access token, the API's error
  envelope, any other JSON value, or a rejection because the body is no JSON.\<close>

datatype 'd payload = TokenPayload string | ErrorPayload api_error_envelope | DataPayload 'd | NotJson

record 'd response =
  status :: nat
  payload :: "'d payload"

definition ok :: "'d response \<Rightarrow> bool" where
  "ok r \<longleftrightarrow> 200 \<le> status r \<and> status r < 300"

definition syntax_error :: js_exn where
  "syntax_error = JsError ''Unexpected token in JSON''"

definition type_error :: js_exn where
  "type_error = JsError ''Cannot read properties of undefined''"

definition NO_RETRY_PATHS :: "string list" where
  "NO_RETRY_PATHS = [''/api/v1/auth/login'', ''/api/v1/auth/register'', ''/api/v1/auth/refresh'']"

section \<open>State\<close>

text \<open>The refresh call: sent, its body being read, returned from \<open>performRefresh\<close> but
  before the \<open>finally\<close> callback, or settled. The outcome is an exception or the new
  token.\<close>

datatype 'd refresh =
    RefreshSent
  | RefreshBody "'d response"
  | RefreshReturned "js_exn + string option"
  | RefreshSettled "js_exn + string option"

text \<open>Where a call of \<open>performFetch\<close> is: awaiting the refresh that was in flight when it
  started, awaiting its own response (both with the flag \<open>allowRetry\<close>), awaiting the
  refresh a 401 made it ask for, awaiting \<open>response.json()\<close>, or settled.\<close>

datatype 'd call_state =
    AwaitStartup nat bool
  | AwaitResponse bool
  | AwaitNewToken nat "'d response"
  | AwaitBody "'d response"
  | CallSettled "js_exn + 'd payload option"

datatype wire_event = RefreshPost nat | ApiRequest nat wire_request

record ('app, 'd) client =
  accessToken :: "string option"
  refreshInFlight :: "nat option"
  refreshes :: "nat \<Rightarrow> 'd refresh option"
  nextRefresh :: nat
  calls :: "nat \<Rightarrow> (api_call \<times> 'd call_state) option"
  wire :: "wire_event list"
  sessionExpiredHandler :: "('app \<Rightarrow> 'app) option"
  passwordChangeRequiredHandler :: "('app \<Rightarrow> 'app) option"
  app :: 'app

definition initial_client :: "'app \<Rightarrow> ('app, 'd) client" where
  "initial_client a =
     \<lparr>accessToken = None, refreshInFlight = None, refreshes = (\<lambda>_. None), nextRefresh = 0,
      calls = (\<lambda>_. None), wire = [], sessionExpiredHandler = None,
      passwordChangeRequiredHandler = None, app = a\<rparr>"

definition setAccessToken :: "string option \<Rightarrow> ('app, 'd) client \<Rightarrow> ('app, 'd) client" where
  "setAccessToken t c = c\<lparr>accessToken := t\<rparr>"

definition getAccessToken :: "('app, 'd) client \<Rightarrow> string option" where
  "getAccessToken c = accessToken c"

definition setSessionExpiredHandler :: "('app \<Rightarrow> 'app) option \<Rightarrow> ('app, 'd) client \<Rightarrow> ('app, 'd) client" where
  "setSessionExpiredHandler h c = c\<lparr>sessionExpiredHandler := h\<rparr>"

definition setPasswordChangeRequiredHandler :: "('app \<Rightarrow> 'app) option \<Rightarrow> ('app, 'd) client \<Rightarrow> ('app, 'd) client" where
  "setPasswordChangeRequiredHandler h c = c\<lparr>passwordChangeRequiredHandler := h\<rparr>"

definition call_handler :: "('app \<Rightarrow> 'app) option \<Rightarrow> ('app, 'd) client \<Rightarrow> ('app, 'd) client" where
  "call_handler h c = (case h of None \<Rightarrow> c | Some f \<Rightarrow> c\<lparr>app := f (app c)\<rparr>)"

text \<open>A token is truthy if it is neither null nor the empty string.\<close>

definition truthy :: "string option \<Rightarrow> bool" where
  "truthy t \<longleftrightarrow> (\<exists>s. t = Some s \<and> s \<noteq> [])"

lemma truthy_simps [simp]: "\<not> truthy None" "truthy (Some s) \<longleftrightarrow> s \<noteq> []"
  by (simp_all add: truthy_def)

section \<open>The shared refresh\<close>

text \<open>\<open>refreshAccessToken\<close> up to its first \<open>await\<close>: join the refresh in flight, or call
  \<open>performRefresh\<close>, which posts to the API. The result is the promise to await.\<close>

definition refreshAccessToken :: "('app, 'd) client \<Rightarrow> ('app, 'd) client \<times> nat" where
  "refreshAccessToken c =
     (case refreshInFlight c of
        Some k \<Rightarrow> (c, k)
      | None \<Rightarrow>
          let k = nextRefresh c in
          (c\<lparr>refreshInFlight := Some k, nextRefresh := Suc k,
             refreshes := (refreshes c)(k \<mapsto> RefreshSent), wire := wire c @ [RefreshPost k]\<rparr>, k))"

definition put_refresh :: "nat \<Rightarrow> 'd refresh \<Rightarrow> ('app, 'd) client \<Rightarrow> ('app, 'd) client" where
  "put_refresh k r c = c\<lparr>refreshes := (refreshes c)(k \<mapsto> r)\<rparr>"

definition refresh_response :: "nat \<Rightarrow> 'd response \<Rightarrow> ('app, 'd) client \<Rightarrow> ('app, 'd) client" where
  "refresh_response k r c =
     (if \<not> ok r then put_refresh k (RefreshReturned (Inr None)) (setAccessToken None c)
      else put_refresh k (RefreshBody r) c)"

definition refresh_body :: "nat \<Rightarrow> 'd response \<Rightarrow> ('app, 'd) client \<Rightarrow> ('app, 'd) client" where
  "refresh_body k r c =
     (case payload r of
        NotJson \<Rightarrow> put_refresh k (RefreshReturned (Inl syntax_error)) c
      | TokenPayload t \<Rightarrow> put_refresh k (RefreshReturned (Inr (Some t))) (setAccessToken (Some t) c)
      | _ \<Rightarrow> put_refresh k (RefreshReturned (Inr None)) (setAccessToken None c))"

definition refresh_finally :: "nat \<Rightarrow> js_exn + string option \<Rightarrow> ('app, 'd) client \<Rightarrow> ('app, 'd) client" where
  "refresh_finally k out c = put_refresh k (RefreshSettled out) (c\<lparr>refreshInFlight := None\<rparr>)"

section \<open>One call\<close>

definition put_call :: "nat \<Rightarrow> api_call \<Rightarrow> 'd call_state \<Rightarrow> ('app, 'd) client \<Rightarrow> ('app, 'd) client" where
  "put_call i a s c = c\<lparr>calls := (calls c)(i \<mapsto> (a, s))\<rparr>"

definition request_headers :: "string option \<Rightarrow> api_fetch_options \<Rightarrow> string js_object" where
  "request_headers token opts =
     (case token of Some t \<Rightarrow> only_if (t \<noteq> []) [(''Authorization'', ''Bearer '' @ t)] | None \<Rightarrow> [])
     @ only_if (opt_json opts \<noteq> None) [(''Content-Type'', ''application/json'')]"

definition request_body :: "api_fetch_options \<Rightarrow> fetch_body" where
  "request_body opts =
     (case opt_json opts of
        Some j \<Rightarrow> JsonText j
      | None \<Rightarrow> (case opt_body opts of Some fd \<Rightarrow> Multipart fd | None \<Rightarrow> NoBody))"

definition build_request :: "string \<Rightarrow> string option \<Rightarrow> api_call \<Rightarrow> wire_request" where
  "build_request base token a =
     \<lparr>wire_method = (case opt_method (call_options a) of Some m \<Rightarrow> m | None \<Rightarrow> GET),
      wire_url = buildUrl base (call_path a) (opt_query (call_options a)),
      wire_headers = request_headers token (call_options a),
      wire_body = request_body (call_options a)\<rparr>"

text \<open>From the read of the token to the \<open>fetch\<close>.\<close>

definition send_request :: "string \<Rightarrow> nat \<Rightarrow> api_call \<Rightarrow> bool \<Rightarrow> ('app, 'd) client \<Rightarrow> ('app, 'd) client" where
  "send_request base i a allowRetry c =
     put_call i a (AwaitResponse allowRetry)
       (c\<lparr>wire := wire c @ [ApiRequest i (build_request base (getAccessToken c) a)]\<rparr>)"

definition performFetch :: "string \<Rightarrow> nat \<Rightarrow> api_call \<Rightarrow> bool \<Rightarrow> ('app, 'd) client \<Rightarrow> ('app, 'd) client" where
  "performFetch base i a allowRetry c =
     (case refreshInFlight c of
        Some k \<Rightarrow> put_call i a (AwaitStartup k allowRetry) c
      | None \<Rightarrow> send_request base i a allowRetry c)"

definition apiFetch :: "string \<Rightarrow> nat \<Rightarrow> api_call \<Rightarrow> ('app, 'd) client \<Rightarrow> ('app, 'd) client" where
  "apiFetch base i a c = performFetch base i a True c"

text \<open>The 204 test, and the start of reading the body that both branches after it have.\<close>

definition finish :: "nat \<Rightarrow> api_call \<Rightarrow> 'd response \<Rightarrow> ('app, 'd) client \<Rightarrow> ('app, 'd) client" where
  "finish i a r c =
     (if status r = 204 then put_call i a (CallSettled (Inr None)) c
      else put_call i a (AwaitBody r) c)"

text \<open>From the body to the end: the value returned or the exception thrown, and the password-change
  handler.\<close>

definition on_body :: "nat \<Rightarrow> api_call \<Rightarrow> 'd response \<Rightarrow> ('app, 'd) client \<Rightarrow> ('app, 'd) client" where
  "on_body i a r c =
     (if \<not> ok r then
        (case payload r of
           NotJson \<Rightarrow> put_call i a (CallSettled (Inl syntax_error)) c
         | ErrorPayload env \<Rightarrow>
             put_call i a (CallSettled (Inl (ApiError (new_ApiError (status r) env))))
               (if env_code env = ''PASSWORD_CHANGE_REQUIRED''
                then call_handler (passwordChangeRequiredHandler c) c else c)
         | _ \<Rightarrow> put_call i a (CallSettled (Inl type_error)) c)
      else
        (case payload r of
           NotJson \<Rightarrow> put_call i a (CallSettled (Inl syntax_error)) c
         | p \<Rightarrow> put_call i a (CallSettled (Inr (Some p))) c))"

definition on_response :: "nat \<Rightarrow> api_call \<Rightarrow> bool \<Rightarrow> 'd response \<Rightarrow> ('app, 'd) client \<Rightarrow> ('app, 'd) client" where
  "on_response i a allowRetry r c =
     (if status r = 401 \<and> allowRetry \<and> call_path a \<notin> set NO_RETRY_PATHS
      then let (c', k) = refreshAccessToken c in put_call i a (AwaitNewToken k r) c'
      else finish i a r c)"

definition on_startup_settled ::
    "string \<Rightarrow> nat \<Rightarrow> api_call \<Rightarrow> bool \<Rightarrow> js_exn + string option \<Rightarrow> ('app, 'd) client \<Rightarrow> ('app, 'd) client" where
  "on_startup_settled base i a allowRetry out c =
     (case out of
        Inl e \<Rightarrow> put_call i a (CallSettled (Inl e)) c
      | Inr _ \<Rightarrow> send_request base i a allowRetry c)"

definition on_new_token ::
    "string \<Rightarrow> nat \<Rightarrow> api_call \<Rightarrow> 'd response \<Rightarrow> js_exn + string option \<Rightarrow> ('app, 'd) client \<Rightarrow> ('app, 'd) client" where
  "on_new_token base i a r out c =
     (case out of
        Inl e \<Rightarrow> put_call i a (CallSettled (Inl e)) c
      | Inr t \<Rightarrow> if truthy t then performFetch base i a False c
                else finish i a r (call_handler (sessionExpiredHandler c) c))"

section \<open>Events\<close>

datatype 'd event =
    Call nat api_call
  | RestoreSession
  | Resume nat
  | Response nat "'d response"
  | ReadBody nat
  | NetworkError nat
  | RefreshResponse "'d response"
  | RefreshJson
  | RefreshNetworkError
  | RefreshFinally
  | SetToken "string option"

definition fetch_failed :: js_exn where
  "fetch_failed = JsError ''Failed to fetch''"

definition resume :: "string \<Rightarrow> nat \<Rightarrow> ('app, 'd) client \<Rightarrow> ('app, 'd) client option" where
  "resume base i c =
     (case calls c i of
        Some (a, AwaitStartup k allowRetry) \<Rightarrow>
          (case refreshes c k of
             Some (RefreshSettled out) \<Rightarrow> Some (on_startup_settled base i a allowRetry out c)
           | _ \<Rightarrow> None)
      | Some (a, AwaitNewToken k r) \<Rightarrow>
          (case refreshes c k of
             Some (RefreshSettled out) \<Rightarrow> Some (on_new_token base i a r out c)
           | _ \<Rightarrow> None)
      | _ \<Rightarrow> None)"

definition on_refresh ::
    "('app, 'd) client \<Rightarrow> (nat \<Rightarrow> 'd refresh \<Rightarrow> ('app, 'd) client option) \<Rightarrow> ('app, 'd) client option" where
  "on_refresh c f =
     (case refreshInFlight c of
        None \<Rightarrow> None
      | Some k \<Rightarrow> (case refreshes c k of None \<Rightarrow> None | Some r \<Rightarrow> f k r))"

text \<open>One uninterrupted piece of work, if the event can happen.\<close>

fun step :: "string \<Rightarrow> 'd event \<Rightarrow> ('app, 'd) client \<Rightarrow> ('app, 'd) client option" where
  "step base (Call i a) c = (if calls c i = None then Some (apiFetch base i a c) else None)"
| "step base RestoreSession c = Some (fst (refreshAccessToken c))"
| "step base (Resume i) c = resume base i c"
| "step base (Response i r) c =
     (case calls c i of Some (a, AwaitResponse b) \<Rightarrow> Some (on_response i a b r c) | _ \<Rightarrow> None)"
| "step base (ReadBody i) c =
     (case calls c i of Some (a, AwaitBody r) \<Rightarrow> Some (on_body i a r c) | _ \<Rightarrow> None)"
| "step base (NetworkError i) c =
     (case calls c i of
        Some (a, AwaitResponse b) \<Rightarrow> Some (put_call i a (CallSettled (Inl fetch_failed)) c)
      | Some (a, AwaitBody r) \<Rightarrow> Some (put_call i a (CallSettled (Inl fetch_failed)) c)
      | _ \<Rightarrow> None)"
| "step base (RefreshResponse r) c =
     on_refresh c (\<lambda>k x. case x of RefreshSent \<Rightarrow> Some (refresh_response k r c) | _ \<Rightarrow> None)"
| "step base RefreshJson c =
     on_refresh c (\<lambda>k x. case x of RefreshBody r \<Rightarrow> Some (refresh_body k r c) | _ \<Rightarrow> None)"
| "step base RefreshNetworkError c =
     on_refresh c (\<lambda>k x. case x of
       RefreshSent \<Rightarrow> Some (put_refresh k (RefreshReturned (Inl fetch_failed)) c)
     | RefreshBody r \<Rightarrow> Some (put_refresh k (RefreshReturned (Inl fetch_failed)) c)
     | _ \<Rightarrow> None)"
| "step base RefreshFinally c =
     on_refresh c (\<lambda>k x. case x of RefreshReturned out \<Rightarrow> Some (refresh_finally k out c) | _ \<Rightarrow> None)"
| "step base (SetToken t) c = Some (setAccessToken t c)"

fun run :: "string \<Rightarrow> 'd event list \<Rightarrow> ('app, 'd) client \<Rightarrow> ('app, 'd) client option" where
  "run base [] c = Some c"
| "run base (e # es) c = (case step base e c of None \<Rightarrow> None | Some c' \<Rightarrow> run base es c')"

end
