(* ===== verification/Listing_Labels.thy ===== *)
theory Listing_Labels
  imports Api_Client
begin

text \<open>
  The API's data types (\<open>src/api/schema.ts\<close>, re-exported by \<open>src/api/types.ts\<close>) and the
  labels, the price format and the condition scale of \<open>src/lib/listingLabels.ts\<close>.
  A price is the decimal string of the backend's \<open>numeric(10,2)\<close>. Dates stay ISO strings;
  \<open>formatDay\<close> and \<open>formatMonth\<close> depend on the browser's time zone and locale data and are
  arguments of the pages that show a date.
\<close>

section \<open>Data\<close>

datatype listing_category =
    Fiction | Non_fiction | Academic_textbook | Children | Comics_graphic_novels | Other

datatype listing_condition = New | Like_new | Good | Fair | Poor

datatype listing_status = Available | Sold | Deleted

datatype role = User | Admin

text \<open>The strings the enumerations are on the wire.\<close>

fun category_value :: "listing_category \<Rightarrow> string" where
  "category_value Fiction = ''fiction''"
| "category_value Non_fiction = ''non_fiction''"
| "category_value Academic_textbook = ''academic_textbook''"
| "category_value Children = ''children''"
| "category_value Comics_graphic_novels = ''comics_graphic_novels''"
| "category_value Other = ''other''"

fun condition_value :: "listing_condition \<Rightarrow> string" where
  "condition_value New = ''new''"
| "condition_value Like_new = ''like_new''"
| "condition_value Good = ''good''"
| "condition_value Fair = ''fair''"
| "condition_value Poor = ''poor''"

fun status_value :: "listing_status \<Rightarrow> string" where
  "status_value Available = ''available''"
| "status_value Sold = ''sold''"
| "status_value Deleted = ''deleted''"

record listing_image =
  image_id :: string
  image_url :: string
  image_position :: int

record listing_public =
  listing_id :: string
  owner_id :: string
  seller_display_name :: string
  listing_title :: string
  listing_author :: string
  listing_description :: string
  listing_category :: listing_category
  listing_condition :: listing_condition
  listing_price :: string
  listing_status :: listing_status
  sold_at :: "string option"
  created_at :: string
  updated_at :: string
  listing_images :: "listing_image list"
  seller_member_since :: "string option"
  seller_active_listings_count :: "int option"

text \<open>The detail endpoint adds a preview of other listings, which carry no preview themselves.\<close>

record listing_detail = listing_public +
  seller_other_listings :: "listing_public list option"

record listing_page =
  page_items :: "listing_public list"
  page_total :: int
  page_number :: int
  page_page_size :: int

record user_public =
  user_id :: string
  user_email :: string
  user_display_name :: string
  user_role :: role
  user_created :: string

record admin_user_public =
  admin_user_id :: string
  admin_user_email :: string
  admin_user_name :: string
  admin_user_created :: string
  is_active :: bool

record admin_user_page =
  user_items :: "admin_user_public list"
  user_total :: int
  user_page_number :: int
  user_page_size :: int

record listing_status_summary =
  count_available :: int
  count_sold :: int
  count_deleted :: int

text \<open>A listing on which properties are tried.\<close>

definition sample_listing :: listing_public where
  "sample_listing =
     \<lparr>listing_id = ''l1'', owner_id = ''u1'', seller_display_name = ''Alice'', listing_title = ''Emma'',
      listing_author = ''Austen'', listing_description = ''Worn'', listing_category = Fiction,
      listing_condition = Good, listing_price = ''4.00'', listing_status = Available, sold_at = None,
      created_at = [], updated_at = [], listing_images = [], seller_member_since = None,
      seller_active_listings_count = None\<rparr>"

section \<open>Labels\<close>

definition CATEGORY_LABELS :: "string js_object" where
  "CATEGORY_LABELS =
     [(''fiction'', ''Fiction''), (''non_fiction'', ''Non-fiction''),
      (''academic_textbook'', ''Academic textbook''), (''children'', ''Children's''),
      (''comics_graphic_novels'', ''Comics & graphic novels''), (''other'', ''Other'')]"

definition CONDITION_LABELS :: "string js_object" where
  "CONDITION_LABELS =
     [(''new'', ''New''), (''like_new'', ''Like new''), (''good'', ''Good''), (''fair'', ''Fair''),
      (''poor'', ''Poor'')]"

definition CONDITION_DESCRIPTIONS :: "string js_object" where
  "CONDITION_DESCRIPTIONS =
     [(''new'', ''Unread. No marks, wear, or damage.''),
      (''like_new'', ''Read, but shows almost no wear.''),
      (''good'', ''Normal signs of reading, like a creased spine or shelf wear. Complete and clean.''),
      (''fair'', ''Heavily read: worn cover, markings, or yellowed pages. Complete and readable.''),
      (''poor'', ''Significant wear or damage. Check the description before buying.'')]"

definition STATUS_LABELS :: "string js_object" where
  "STATUS_LABELS = [(''available'', ''Available''), (''sold'', ''Sold''), (''deleted'', ''Removed'')]"

datatype badge_tone = Neutral | Success | Danger

fun STATUS_TONES :: "listing_status \<Rightarrow> badge_tone" where
  "STATUS_TONES Available = Success"
| "STATUS_TONES Sold = Neutral"
| "STATUS_TONES Deleted = Danger"

text \<open>Indexing a table by a key; the text of \<open>undefined\<close> is nothing.\<close>

definition label_of :: "string js_object \<Rightarrow> string \<Rightarrow> string" where
  "label_of labels k = (case get_prop labels k of Some s \<Rightarrow> s | None \<Rightarrow> [])"

abbreviation category_label :: "listing_category \<Rightarrow> string" where
  "category_label c \<equiv> label_of CATEGORY_LABELS (category_value c)"

abbreviation condition_label :: "listing_condition \<Rightarrow> string" where
  "condition_label c \<equiv> label_of CONDITION_LABELS (condition_value c)"

abbreviation status_label :: "listing_status \<Rightarrow> string" where
  "status_label s \<equiv> label_of STATUS_LABELS (status_value s)"

section \<open>Prices\<close>

definition formatPrice :: "string \<Rightarrow> string" where
  "formatPrice p = (let amount = parse_float p in if isNaN amount then p else ''$'' @ to_fixed2 amount)"

section \<open>Conditions\<close>

fun CONDITION_SCORE :: "listing_condition \<Rightarrow> int" where
  "CONDITION_SCORE New = 5"
| "CONDITION_SCORE Like_new = 4"
| "CONDITION_SCORE Good = 3"
| "CONDITION_SCORE Fair = 2"
| "CONDITION_SCORE Poor = 1"

definition CONDITIONS_BEST_FIRST :: "listing_condition list" where
  "CONDITIONS_BEST_FIRST = [New, Like_new, Good, Fair, Poor]"

text \<open>The formats of dates. \<open>localeDate\<close> is \<open>Date.prototype.toLocaleDateString\<close> on the date that a string
  denotes, which depends on the browser's time zone; the pages take the two functions as arguments.\<close>

definition formatDay :: "(string \<Rightarrow> string \<Rightarrow> (string \<times> string) list \<Rightarrow> string) \<Rightarrow> string \<Rightarrow> string" where
  "formatDay localeDate d = localeDate d ''en-GB'' [(''day'', ''numeric''), (''month'', ''short''), (''year'', ''numeric'')]"

definition formatMonth :: "(string \<Rightarrow> string \<Rightarrow> (string \<times> string) list \<Rightarrow> string) \<Rightarrow> string \<Rightarrow> string" where
  "formatMonth localeDate d = localeDate d ''en-GB'' [(''month'', ''long''), (''year'', ''numeric'')]"

definition isSubstantiveNote :: "string \<Rightarrow> bool" where
  "isSubstantiveNote s \<longleftrightarrow> 28 \<le> length (trim s)"

text \<open>The conditions are ordered by their score, which makes the library's sorting apply.\<close>

lemma CONDITION_SCORE_inj: "CONDITION_SCORE x = CONDITION_SCORE y \<longleftrightarrow> x = y"
  by (cases x; cases y) simp_all

instantiation listing_condition :: linorder
begin

definition less_eq_listing_condition :: "listing_condition \<Rightarrow> listing_condition \<Rightarrow> bool" where
  "less_eq_listing_condition x y \<longleftrightarrow> CONDITION_SCORE x \<le> CONDITION_SCORE y"

definition less_listing_condition :: "listing_condition \<Rightarrow> listing_condition \<Rightarrow> bool" where
  "less_listing_condition x y \<longleftrightarrow> CONDITION_SCORE x < CONDITION_SCORE y"

instance
  by intro_classes
    (auto simp: less_eq_listing_condition_def less_listing_condition_def CONDITION_SCORE_inj [symmetric])

end

lemma category_value_inj [simp]: "category_value x = category_value y \<longleftrightarrow> x = y"
  by (cases x; cases y) simp_all

lemma condition_value_inj [simp]: "condition_value x = condition_value y \<longleftrightarrow> x = y"
  by (cases x; cases y) simp_all

lemma category_keys: "k \<in> set (map fst CATEGORY_LABELS) \<longleftrightarrow> (\<exists>c. k = category_value c)"
proof
  assume "k \<in> set (map fst CATEGORY_LABELS)"
  then have "k \<in> category_value ` {Fiction, Non_fiction, Academic_textbook, Children, Comics_graphic_novels, Other}"
    by (simp add: CATEGORY_LABELS_def)
  then show "\<exists>c. k = category_value c" by blast
next
  assume "\<exists>c. k = category_value c"
  then obtain c where "k = category_value c" by blast
  then show "k \<in> set (map fst CATEGORY_LABELS)" by (cases c) (simp_all add: CATEGORY_LABELS_def)
qed

lemma condition_keys: "k \<in> set (map fst CONDITION_LABELS) \<longleftrightarrow> (\<exists>c. k = condition_value c)"
proof
  assume "k \<in> set (map fst CONDITION_LABELS)"
  then have "k \<in> condition_value ` {New, Like_new, Good, Fair, Poor}"
    by (simp add: CONDITION_LABELS_def)
  then show "\<exists>c. k = condition_value c" by blast
next
  assume "\<exists>c. k = condition_value c"
  then obtain c where "k = condition_value c" by blast
  then show "k \<in> set (map fst CONDITION_LABELS)" by (cases c) (simp_all add: CONDITION_LABELS_def)
qed

text \<open>A decimal string of the backend: dollars, a point and two digits of cents.\<close>

lemma parse_float_fixed2:
  assumes "0 \<le> n"
  shows "parse_float (fixed2_digits n) = of_decimal n (-2)"
proof -
  have "digit (hd (fixed2_digits n))"
    using assms hd_digits_of [of "n div 100"] digits_of_ne_Nil [of "n div 100"] by (simp add: fixed2_digits_def)
  then have "trim_start (fixed2_digits n) = fixed2_digits n"
    by (simp add: trim_start_def dropWhile_hd_id digit_not_space)
  then show ?thesis
    using assms scan_number_fixed2 by (simp add: parse_float_def)
qed

lemma of_decimal_not_NaN: "of_decimal m e \<noteq> NaN"
  by (simp add: of_decimal_def round_pos_def js_zero_def Let_def)

text \<open>C40: A price is shown as it is stored. For every amount of \<open>n\<close> cents below \<open>2^51\<close>, far
  beyond the backend's \<open>numeric(10,2)\<close>, \<open>formatPrice\<close> of its decimal string is that string
  behind a dollar sign: reading it as a binary floating-point number and rounding that to two digits
  again loses nothing.\<close>

theorem format_price_exact:
  assumes "0 \<le> n" and "n < 2 ^ 51"
  shows "formatPrice (fixed2_digits n) = ''$'' @ fixed2_digits n"
  using assms by (simp add: formatPrice_def parse_float_fixed2 isNaN_def of_decimal_not_NaN to_fixed2_of_hundredths)

theorem format_price_exact_witness: "formatPrice ''12.05'' = ''$12.05''"
proof -
  have "fixed2_digits 1205 = ''12.05''" by code_simp
  then show ?thesis using format_price_exact [of 1205] by simp
qed

lemma conditions_best_first:
  "sorted (rev CONDITIONS_BEST_FIRST) \<and> distinct CONDITIONS_BEST_FIRST \<and> set CONDITIONS_BEST_FIRST = UNIV"
proof -
  have "x \<in> set CONDITIONS_BEST_FIRST" for x by (cases x) (simp_all add: CONDITIONS_BEST_FIRST_def)
  then show ?thesis by (auto simp: CONDITIONS_BEST_FIRST_def less_eq_listing_condition_def)
qed

end
