(* ===== verification/Endpoints.thy ===== *)
theory Endpoints
  imports Listing_Labels
begin

text \<open>
  The request builders of \<open>src/api/auth.ts\<close>, \<open>users.ts\<close>, \<open>listings.ts\<close> and
  \<open>admin.ts\<close>: the arguments each of them passes to \<open>apiFetch\<close>. An entry of a query whose
  value is \<open>undefined\<close> stays an entry; \<open>buildUrl\<close> drops it.
\<close>

definition endpoint :: "http_method option \<Rightarrow> string \<Rightarrow> api_call" where
  "endpoint m path = \<lparr>call_path = path, call_options = no_options\<lparr>opt_method := m\<rparr>\<rparr>"

definition json_endpoint :: "http_method \<Rightarrow> string \<Rightarrow> json \<Rightarrow> api_call" where
  "json_endpoint m path j =
     \<lparr>call_path = path, call_options = no_options\<lparr>opt_method := Some m, opt_json := Some j\<rparr>\<rparr>"

definition query_endpoint :: "http_method option \<Rightarrow> string \<Rightarrow> query_value js_object \<Rightarrow> api_call" where
  "query_endpoint m path q =
     \<lparr>call_path = path, call_options = no_options\<lparr>opt_method := m, opt_query := Some q\<rparr>\<rparr>"

section \<open>Accounts\<close>

record login_request =
  login_email :: string
  login_password :: string

record register_request =
  reg_email :: string
  reg_password :: string
  reg_display_name :: string

record password_change_request =
  current_password :: string
  new_password :: string

definition register_call :: "register_request \<Rightarrow> api_call" where [request_defs]:
  "register_call body = json_endpoint POST ''/api/v1/auth/register''
     (JObj [(''email'', JStr (reg_email body)), (''password'', JStr (reg_password body)),
            (''display_name'', JStr (reg_display_name body))])"

definition login_call :: "login_request \<Rightarrow> api_call" where [request_defs]:
  "login_call body = json_endpoint POST ''/api/v1/auth/login''
     (JObj [(''email'', JStr (login_email body)), (''password'', JStr (login_password body))])"

definition logout_call :: api_call where [request_defs]:
  "logout_call = endpoint (Some POST) ''/api/v1/auth/logout''"

definition getOwnProfile :: api_call where [request_defs]:
  "getOwnProfile = endpoint None ''/api/v1/users/me''"

definition updateOwnProfile :: "string \<Rightarrow> api_call" where [request_defs]:
  "updateOwnProfile display_name =
     json_endpoint PATCH ''/api/v1/users/me'' (JObj [(''display_name'', JStr display_name)])"

definition changeOwnPassword :: "password_change_request \<Rightarrow> api_call" where [request_defs]:
  "changeOwnPassword body = json_endpoint POST ''/api/v1/users/me/password''
     (JObj [(''current_password'', JStr (current_password body)), (''new_password'', JStr (new_password body))])"

definition getOwnListingsSummary :: api_call where [request_defs]:
  "getOwnListingsSummary = endpoint None ''/api/v1/users/me/listings/summary''"

section \<open>Listings\<close>

record browse_filters =
  f_search :: "string option"
  f_category :: "string option"
  f_condition :: "string option"
  f_minPrice :: "js_number option"
  f_maxPrice :: "js_number option"
  f_page :: "int option"
  f_pageSize :: "int option"

definition no_filters :: browse_filters where
  "no_filters = \<lparr>f_search = None, f_category = None, f_condition = None, f_minPrice = None,
     f_maxPrice = None, f_page = None, f_pageSize = None\<rparr>"

definition str_value :: "string option \<Rightarrow> query_value" where
  "str_value v = (case v of None \<Rightarrow> QUndefined | Some s \<Rightarrow> QString s)"

definition num_value :: "js_number option \<Rightarrow> query_value" where
  "num_value v = (case v of None \<Rightarrow> QUndefined | Some n \<Rightarrow> QNumber n)"

definition int_value :: "int option \<Rightarrow> query_value" where
  "int_value v = (case v of None \<Rightarrow> QUndefined | Some n \<Rightarrow> QNumber (of_int_num n))"

definition browse_query :: "browse_filters \<Rightarrow> query_value js_object" where
  "browse_query f =
     [(''search'', str_value (f_search f)), (''category'', str_value (f_category f)),
      (''condition'', str_value (f_condition f)), (''min_price'', num_value (f_minPrice f)),
      (''max_price'', num_value (f_maxPrice f)), (''page'', int_value (f_page f)),
      (''page_size'', int_value (f_pageSize f))]"

definition browseListings :: "browse_filters \<Rightarrow> api_call" where [request_defs]:
  "browseListings f = query_endpoint None ''/api/v1/listings'' (browse_query f)"

definition getListing :: "string \<Rightarrow> api_call" where [request_defs]:
  "getListing lid = endpoint None (''/api/v1/listings/'' @ lid)"

record listing_create =
  new_title :: string
  new_author :: string
  new_description :: string
  new_category :: string
  new_condition :: string
  new_price :: js_number

definition listing_json :: "listing_create \<Rightarrow> json" where
  "listing_json b = JObj [(''title'', JStr (new_title b)), (''author'', JStr (new_author b)),
     (''description'', JStr (new_description b)), (''category'', JStr (new_category b)),
     (''condition'', JStr (new_condition b)), (''price'', JNum (new_price b))]"

definition createListing :: "listing_create \<Rightarrow> api_call" where [request_defs]:
  "createListing b = json_endpoint POST ''/api/v1/listings'' (listing_json b)"

definition updateListing :: "string \<Rightarrow> listing_create \<Rightarrow> api_call" where [request_defs]:
  "updateListing lid b = json_endpoint PATCH (''/api/v1/listings/'' @ lid) (listing_json b)"

definition deleteListing :: "string \<Rightarrow> api_call" where [request_defs]:
  "deleteListing lid = endpoint (Some DELETE) (''/api/v1/listings/'' @ lid)"

definition markListingSold :: "string \<Rightarrow> api_call" where [request_defs]:
  "markListingSold lid = endpoint (Some POST) (''/api/v1/listings/'' @ lid @ ''/sold'')"

definition uploadListingImages :: "string \<Rightarrow> js_file list \<Rightarrow> api_call" where [request_defs]:
  "uploadListingImages lid files =
     \<lparr>call_path = ''/api/v1/listings/'' @ lid @ ''/images'',
      call_options = no_options\<lparr>opt_method := Some POST, opt_body := Some (map (\<lambda>f. (''images'', f)) files)\<rparr>\<rparr>"

definition getMyListings :: api_call where [request_defs]:
  "getMyListings = endpoint None ''/api/v1/users/me/listings''"

section \<open>Administration\<close>

record page_params =
  pp_page :: "int option"
  pp_pageSize :: "int option"

definition listUsers :: "page_params \<Rightarrow> api_call" where [request_defs]:
  "listUsers p = query_endpoint None ''/api/v1/admin/users''
     [(''page'', int_value (pp_page p)), (''page_size'', int_value (pp_pageSize p))]"

definition suspendUser :: "string \<Rightarrow> string \<Rightarrow> api_call" where [request_defs]:
  "suspendUser userId reasonCode = json_endpoint POST (''/api/v1/admin/users/'' @ userId @ ''/suspend'')
     (JObj [(''reason_code'', JStr reasonCode)])"

definition reinstateUser :: "string \<Rightarrow> api_call" where [request_defs]:
  "reinstateUser userId = endpoint (Some POST) (''/api/v1/admin/users/'' @ userId @ ''/reinstate'')"

definition resetUserPassword :: "string \<Rightarrow> api_call" where [request_defs]:
  "resetUserPassword userId = endpoint (Some POST) (''/api/v1/admin/users/'' @ userId @ ''/reset-password'')"

definition listAdminListings :: "string option \<Rightarrow> page_params \<Rightarrow> api_call" where [request_defs]:
  "listAdminListings st p = query_endpoint None ''/api/v1/admin/listings''
     [(''status'', str_value st), (''page'', int_value (pp_page p)), (''page_size'', int_value (pp_pageSize p))]"

definition removeListing :: "string \<Rightarrow> string \<Rightarrow> api_call" where [request_defs]:
  "removeListing listingId reasonCode =
     query_endpoint (Some DELETE) (''/api/v1/admin/listings/'' @ listingId) [(''reason_code'', QString reasonCode)]"

end
