(* ===== verification/Api_Client_Safety.thy ===== *)
theory Api_Client_Safety
  imports Api_Client
begin

text \<open>
  What \<open>src/api/client.ts\<close> guarantees in every run. The refresh and the calls are
  verified apart: an invariant of the shared refresh; a protocol automaton for a single call that
  every event of the client refines; the link between the token in memory and the outcome of the
  latest refresh. The properties at the end are their consequences for runs that start as the
  module loads.
\<close>

section \<open>Invariant\<close>

fun refresh_open :: "'d refresh \<Rightarrow> bool" where
  "refresh_open (RefreshSettled _) = False"
| "refresh_open _ = True"

fun awaits :: "'d call_state \<Rightarrow> nat option" where
  "awaits (AwaitStartup k _) = Some k"
| "awaits (AwaitNewToken k _) = Some k"
| "awaits _ = None"

definition refresh_posts :: "wire_event list \<Rightarrow> nat list" where
  "refresh_posts w = List.map_filter (\<lambda>e. case e of RefreshPost k \<Rightarrow> Some k | ApiRequest _ _ \<Rightarrow> None) w"

definition requests_of :: "nat \<Rightarrow> wire_event list \<Rightarrow> wire_request list" where
  "requests_of i w =
     List.map_filter (\<lambda>e. case e of ApiRequest j r \<Rightarrow> if j = i then Some r else None | RefreshPost _ \<Rightarrow> None) w"

lemma wire_simps [simp]:
  "refresh_posts [] = []" "refresh_posts (w @ [RefreshPost k]) = refresh_posts w @ [k]"
  "refresh_posts (w @ [ApiRequest j r]) = refresh_posts w"
  "requests_of i [] = []" "requests_of i (w @ [RefreshPost k]) = requests_of i w"
  "requests_of i (w @ [ApiRequest j r]) = requests_of i w @ (if j = i then [r] else [])"
  by (simp_all add: refresh_posts_def requests_of_def map_filter_def)

definition refresh_inv :: "('app, 'd) client \<Rightarrow> bool" where
  "refresh_inv c \<longleftrightarrow>
     (\<forall>k. refreshInFlight c = Some k \<longleftrightarrow> (\<exists>x. refreshes c k = Some x \<and> refresh_open x)) \<and>
     (\<forall>k. refreshInFlight c = Some k \<longrightarrow> nextRefresh c = Suc k) \<and>
     (\<forall>k. refreshes c k \<noteq> None \<longleftrightarrow> k < nextRefresh c) \<and>
     (\<forall>i a s k. calls c i = Some (a, s) \<longrightarrow> awaits s = Some k \<longrightarrow> k < nextRefresh c) \<and>
     refresh_posts (wire c) = [0..<nextRefresh c]"

text \<open>Frame rules: what the pieces leave alone.\<close>

lemma refresh_inv_frame [simp]:
  "refresh_inv (c\<lparr>accessToken := t\<rparr>) = refresh_inv c"
  "refresh_inv (c\<lparr>app := x\<rparr>) = refresh_inv c"
  "refresh_inv (c\<lparr>sessionExpiredHandler := h\<rparr>) = refresh_inv c"
  "refresh_inv (c\<lparr>passwordChangeRequiredHandler := h\<rparr>) = refresh_inv c"
  "refresh_inv (setAccessToken t c) = refresh_inv c"
  "refresh_inv (c\<lparr>wire := wire c @ [ApiRequest i r]\<rparr>) = refresh_inv c"
  by (simp_all add: refresh_inv_def setAccessToken_def)

lemma refresh_inv_call_handler [simp]: "refresh_inv (call_handler h c) = refresh_inv c"
  by (simp add: call_handler_def split: option.splits)

lemma call_handler_frame [simp]:
  "refreshInFlight (call_handler h c) = refreshInFlight c" "refreshes (call_handler h c) = refreshes c"
  "nextRefresh (call_handler h c) = nextRefresh c" "calls (call_handler h c) = calls c"
  "wire (call_handler h c) = wire c" "accessToken (call_handler h c) = accessToken c"
  by (simp_all add: call_handler_def split: option.splits)

lemma put_call_frame [simp]:
  "refreshInFlight (put_call i a s c) = refreshInFlight c" "refreshes (put_call i a s c) = refreshes c"
  "nextRefresh (put_call i a s c) = nextRefresh c" "accessToken (put_call i a s c) = accessToken c"
  "wire (put_call i a s c) = wire c" "calls (put_call i a s c) = (calls c)(i \<mapsto> (a, s))"
  by (simp_all add: put_call_def)

lemma put_refresh_frame [simp]:
  "refreshInFlight (put_refresh k x c) = refreshInFlight c"
  "nextRefresh (put_refresh k x c) = nextRefresh c" "accessToken (put_refresh k x c) = accessToken c"
  "wire (put_refresh k x c) = wire c" "calls (put_refresh k x c) = calls c"
  "refreshes (put_refresh k x c) = (refreshes c)(k \<mapsto> x)"
  by (simp_all add: put_refresh_def)

lemma setAccessToken_frame [simp]:
  "refreshInFlight (setAccessToken t c) = refreshInFlight c" "refreshes (setAccessToken t c) = refreshes c"
  "nextRefresh (setAccessToken t c) = nextRefresh c" "calls (setAccessToken t c) = calls c"
  "wire (setAccessToken t c) = wire c" "accessToken (setAccessToken t c) = t"
  by (simp_all add: setAccessToken_def)

text \<open>Each piece keeps the invariant.\<close>

lemma refresh_inv_put_call:
  assumes "refresh_inv c" and "\<And>k. awaits s = Some k \<Longrightarrow> k < nextRefresh c"
  shows "refresh_inv (put_call i a s c)"
  using assms by (auto simp: refresh_inv_def)

lemma refresh_inv_settled [simp]: "refresh_inv c \<Longrightarrow> refresh_inv (put_call i a (CallSettled out) c)"
  by (rule refresh_inv_put_call) simp_all

lemma refresh_inv_put_refresh:
  assumes "refresh_inv c" and "refreshInFlight c = Some k" and "refresh_open x"
  shows "refresh_inv (put_refresh k x c)"
  using assms unfolding refresh_inv_def by (auto split: if_splits)

lemma refreshAccessToken_inv:
  assumes "refresh_inv c" and "refreshAccessToken c = (c', k)"
  shows "refresh_inv c'" and "refreshInFlight c' = Some k" and "k < nextRefresh c'"
proof -
  have "refresh_inv c' \<and> refreshInFlight c' = Some k \<and> k < nextRefresh c'"
  proof (cases "refreshInFlight c")
    case None
    then have "\<And>j x. refreshes c j = Some x \<Longrightarrow> \<not> refresh_open x"
      using assms(1) by (auto simp: refresh_inv_def)
    moreover have "c' = c\<lparr>refreshInFlight := Some (nextRefresh c), nextRefresh := Suc (nextRefresh c),
        refreshes := (refreshes c)(nextRefresh c \<mapsto> RefreshSent), wire := wire c @ [RefreshPost (nextRefresh c)]\<rparr>"
      and "k = nextRefresh c"
      using None assms(2) by (auto simp: refreshAccessToken_def Let_def)
    ultimately show ?thesis
      using assms(1) unfolding refresh_inv_def by (auto split: if_splits intro: less_SucI)
  next
    case (Some j)
    then show ?thesis
      using assms by (auto simp: refreshAccessToken_def refresh_inv_def)
  qed
  then show "refresh_inv c'" and "refreshInFlight c' = Some k" and "k < nextRefresh c'" by simp_all
qed

lemma refresh_inv_send [simp]: "refresh_inv c \<Longrightarrow> refresh_inv (send_request base i a b c)"
  unfolding send_request_def by (rule refresh_inv_put_call) simp_all

lemma in_flight_less: "refresh_inv c \<Longrightarrow> refreshInFlight c = Some k \<Longrightarrow> k < nextRefresh c"
  by (auto simp: refresh_inv_def)

lemma refresh_inv_performFetch: "refresh_inv c \<Longrightarrow> refresh_inv (performFetch base i a b c)"
  by (auto simp: performFetch_def in_flight_less intro!: refresh_inv_put_call split: option.splits)

lemma refresh_inv_finish: "refresh_inv c \<Longrightarrow> refresh_inv (finish i a r c)"
  by (auto simp: finish_def intro!: refresh_inv_put_call)

lemma refresh_inv_on_body: "refresh_inv c \<Longrightarrow> refresh_inv (on_body i a r c)"
  by (auto simp: on_body_def intro!: refresh_inv_put_call split: payload.splits)

lemma refresh_inv_on_response: "refresh_inv c \<Longrightarrow> refresh_inv (on_response i a b r c)"
proof -
  assume inv: "refresh_inv c"
  obtain c' k where rt: "refreshAccessToken c = (c', k)" by fastforce
  from refreshAccessToken_inv [OF inv rt] have "refresh_inv (put_call i a (AwaitNewToken k r) c')"
    by (intro refresh_inv_put_call) simp_all
  with inv rt show ?thesis
    by (simp add: on_response_def refresh_inv_finish)
qed

lemma refresh_inv_on_startup_settled: "refresh_inv c \<Longrightarrow> refresh_inv (on_startup_settled base i a b out c)"
  by (cases out) (simp_all add: on_startup_settled_def refresh_inv_put_call)

lemma refresh_inv_on_new_token: "refresh_inv c \<Longrightarrow> refresh_inv (on_new_token base i a r out c)"
  by (cases out) (simp_all add: on_new_token_def refresh_inv_put_call refresh_inv_performFetch refresh_inv_finish)

lemma resume_Some:
  "resume base i c = Some c' \<longleftrightarrow>
     (\<exists>a k out. refreshes c k = Some (RefreshSettled out) \<and>
        ((\<exists>b. calls c i = Some (a, AwaitStartup k b) \<and> c' = on_startup_settled base i a b out c) \<or>
         (\<exists>r. calls c i = Some (a, AwaitNewToken k r) \<and> c' = on_new_token base i a r out c)))"
  by (auto simp: resume_def split: option.split call_state.split refresh.split)

lemma refresh_inv_resume: "refresh_inv c \<Longrightarrow> resume base i c = Some c' \<Longrightarrow> refresh_inv c'"
  using resume_Some refresh_inv_on_startup_settled refresh_inv_on_new_token by metis

lemma step_refresh_cases:
  "step base (RefreshResponse r) c = Some c' \<longleftrightarrow>
     (\<exists>k. refreshInFlight c = Some k \<and> refreshes c k = Some RefreshSent \<and> c' = refresh_response k r c)"
  "step base RefreshJson c = Some c' \<longleftrightarrow>
     (\<exists>k r. refreshInFlight c = Some k \<and> refreshes c k = Some (RefreshBody r) \<and> c' = refresh_body k r c)"
  "step base RefreshNetworkError c = Some c' \<longleftrightarrow>
     (\<exists>k. refreshInFlight c = Some k \<and>
        (refreshes c k = Some RefreshSent \<or> (\<exists>r. refreshes c k = Some (RefreshBody r))) \<and>
        c' = put_refresh k (RefreshReturned (Inl fetch_failed)) c)"
  "step base RefreshFinally c = Some c' \<longleftrightarrow>
     (\<exists>k out. refreshInFlight c = Some k \<and> refreshes c k = Some (RefreshReturned out) \<and>
        c' = refresh_finally k out c)"
  by (cases "refreshInFlight c"; cases "refreshes c (the (refreshInFlight c))";
      cases "the (refreshes c (the (refreshInFlight c)))"; auto simp: on_refresh_def)+

lemma refresh_inv_settle:
  assumes "refresh_inv c" and "refreshInFlight c = Some k"
  shows "refresh_inv (refresh_finally k out c)"
  using assms unfolding refresh_inv_def refresh_finally_def by (auto split: if_splits)

lemma refresh_inv_refresh_response:
  assumes "refresh_inv c" and "refreshInFlight c = Some k"
  shows "refresh_inv (refresh_response k r c)"
  using assms by (auto simp: refresh_response_def intro!: refresh_inv_put_refresh)

lemma refresh_inv_refresh_body:
  assumes "refresh_inv c" and "refreshInFlight c = Some k"
  shows "refresh_inv (refresh_body k r c)"
  using assms by (auto simp: refresh_body_def intro!: refresh_inv_put_refresh split: payload.splits)

lemma step_refresh_inv:
  assumes "refresh_inv c" and "step base e c = Some c'"
  shows "refresh_inv c'"
proof (cases e)
  case (Call i a)
  then show ?thesis using assms by (auto simp: apiFetch_def refresh_inv_performFetch split: if_splits)
next
  case RestoreSession
  obtain c2 k where "refreshAccessToken c = (c2, k)" by fastforce
  then show ?thesis using RestoreSession assms refreshAccessToken_inv(1) by fastforce
next
  case (Resume i)
  then show ?thesis using assms refresh_inv_resume by auto
next
  case (Response i r)
  then show ?thesis
    using assms by (auto simp: refresh_inv_on_response split: option.splits prod.splits call_state.splits)
next
  case (ReadBody i)
  then show ?thesis
    using assms by (auto simp: refresh_inv_on_body split: option.splits prod.splits call_state.splits)
next
  case (NetworkError i)
  then show ?thesis
    using assms by (auto intro!: refresh_inv_put_call split: option.splits prod.splits call_state.splits)
next
  case (RefreshResponse r)
  then show ?thesis using assms step_refresh_cases(1) refresh_inv_refresh_response by metis
next
  case RefreshJson
  then show ?thesis using assms step_refresh_cases(2) refresh_inv_refresh_body by metis
next
  case RefreshNetworkError
  then show ?thesis using assms step_refresh_cases(3) refresh_inv_put_refresh refresh_open.simps by metis
next
  case RefreshFinally
  then show ?thesis using assms step_refresh_cases(4) refresh_inv_settle by metis
next
  case (SetToken t)
  then show ?thesis using assms by auto
qed

section \<open>The protocol of one call\<close>

text \<open>What the code promises for a single call, seen from outside: the steps its state and the
  requests it has sent may take, whatever the other calls and the refresh do. The
  arguments are the base URL and the call.\<close>

inductive call_step ::
    "string \<Rightarrow> api_call \<Rightarrow> 'd call_state option \<times> wire_request list \<Rightarrow> 'd call_state option \<times> wire_request list \<Rightarrow> bool"
  for base :: string and a :: api_call where
  start_wait: "call_step base a (None, rs) (Some (AwaitStartup k True), rs)"
| start_send: "call_step base a (None, rs) (Some (AwaitResponse True), rs @ [build_request base t a])"
| startup_send: "call_step base a (Some (AwaitStartup k b), rs) (Some (AwaitResponse b), rs @ [build_request base t a])"
| startup_throws: "call_step base a (Some (AwaitStartup k b), rs) (Some (CallSettled out), rs)"
| ask_new_token: "call_path a \<notin> set NO_RETRY_PATHS \<Longrightarrow>
    call_step base a (Some (AwaitResponse True), rs) (Some (AwaitNewToken k r), rs)"
| answered: "call_step base a (Some (AwaitResponse b), rs) (Some (AwaitBody r), rs)"
| no_content: "call_step base a (Some (AwaitResponse b), rs) (Some (CallSettled out), rs)"
| body_read: "call_step base a (Some (AwaitBody r), rs) (Some (CallSettled out), rs)"
| retry_wait: "call_step base a (Some (AwaitNewToken k r), rs) (Some (AwaitStartup k' False), rs)"
| retry_send: "call_step base a (Some (AwaitNewToken k r), rs) (Some (AwaitResponse False), rs @ [build_request base t a])"
| no_new_token: "call_step base a (Some (AwaitNewToken k r), rs) (Some (AwaitBody r), rs)"
| refresh_throws: "call_step base a (Some (AwaitNewToken k r), rs) (Some (CallSettled out), rs)"

inductive_cases call_step_settledE: "call_step base a (Some (CallSettled out), rs) y"
inductive_simps call_step_startup: "call_step base a (Some (AwaitStartup k b), rs) y"
inductive_simps call_step_response: "call_step base a (Some (AwaitResponse b), rs) y"
inductive_simps call_step_new_token: "call_step base a (Some (AwaitNewToken k r), rs) y"
inductive_simps call_step_body: "call_step base a (Some (AwaitBody r), rs) y"
inductive_simps call_step_start: "call_step base a (None, rs) y"

fun call_of :: "'d event \<Rightarrow> nat option" where
  "call_of (Call i a) = Some i"
| "call_of (Resume i) = Some i"
| "call_of (Response i r) = Some i"
| "call_of (ReadBody i) = Some i"
| "call_of (NetworkError i) = Some i"
| "call_of _ = None"

definition view_of :: "nat \<Rightarrow> ('app, 'd) client \<Rightarrow> 'd call_state option \<times> wire_request list" where
  "view_of i c = (map_option snd (calls c i), requests_of i (wire c))"

lemma view_of_simps [simp]:
  "view_of i (setAccessToken t c) = view_of i c"
  "view_of i (call_handler h c) = view_of i c"
  "view_of i (put_refresh k x c) = view_of i c"
  "view_of i (c\<lparr>refreshInFlight := f\<rparr>) = view_of i c"
  "view_of i (put_call j a s c) = (if i = j then (Some s, requests_of i (wire c)) else view_of i c)"
  "view_of i (fst (refreshAccessToken c)) = view_of i c"
  by (simp_all add: view_of_def refreshAccessToken_def Let_def split: option.splits)

lemma send_request_view [simp]:
  "view_of i (send_request base j a b c) =
     (if i = j then (Some (AwaitResponse b), requests_of i (wire c) @ [build_request base (accessToken c) a])
      else view_of i c)"
  by (simp add: send_request_def view_of_def getAccessToken_def)

lemma performFetch_view:
  "view_of i (performFetch base j a b c) =
     (if i \<noteq> j then view_of i c
      else case refreshInFlight c of
        Some k \<Rightarrow> (Some (AwaitStartup k b), requests_of i (wire c))
      | None \<Rightarrow> (Some (AwaitResponse b), requests_of i (wire c) @ [build_request base (accessToken c) a]))"
  by (simp add: performFetch_def split: option.split)

lemma finish_view:
  "view_of i (finish j a r c) =
     (if i = j then (Some (if status r = 204 then CallSettled (Inr None) else AwaitBody r), requests_of i (wire c))
      else view_of i c)"
  by (simp add: finish_def)

lemma on_body_settles:
  "\<exists>out. view_of i (on_body j a r c) = (if i = j then (Some (CallSettled out), requests_of i (wire c)) else view_of i c)"
  by (simp add: on_body_def split: payload.split)

lemma refreshAccessToken_requests [simp]:
  "requests_of i (wire (fst (refreshAccessToken c))) = requests_of i (wire c)"
  "calls (fst (refreshAccessToken c)) = calls c"
  by (simp_all add: refreshAccessToken_def Let_def split: option.splits)

lemma on_body_view_other: "i \<noteq> j \<Longrightarrow> view_of i (on_body j a r c) = view_of i c"
  using on_body_settles [of i j a r c] by auto

lemma on_response_view_other: "i \<noteq> j \<Longrightarrow> view_of i (on_response j a b r c) = view_of i c"
  using view_of_simps(6) [of i c]
  by (cases "refreshAccessToken c") (auto simp: on_response_def finish_view)

lemma on_startup_view_other: "i \<noteq> j \<Longrightarrow> view_of i (on_startup_settled base j a b out c) = view_of i c"
  by (simp add: on_startup_settled_def split: sum.split)

lemma on_new_token_view_other: "i \<noteq> j \<Longrightarrow> view_of i (on_new_token base j a r out c) = view_of i c"
  by (simp add: on_new_token_def finish_view performFetch_view split: sum.split)

lemma refresh_pieces_view [simp]:
  "view_of i (refresh_response k r c) = view_of i c" "view_of i (refresh_body k r c) = view_of i c"
  "view_of i (refresh_finally k out c) = view_of i c"
  by (simp_all add: refresh_response_def refresh_body_def refresh_finally_def split: payload.split)

lemma step_call_cases:
  "step base (Response i r) c = Some c' \<longleftrightarrow>
     (\<exists>a b. calls c i = Some (a, AwaitResponse b) \<and> c' = on_response i a b r c)"
  "step base (ReadBody i) c = Some c' \<longleftrightarrow> (\<exists>a r. calls c i = Some (a, AwaitBody r) \<and> c' = on_body i a r c)"
  "step base (NetworkError i) c = Some c' \<longleftrightarrow>
     (\<exists>a s. calls c i = Some (a, s) \<and> ((\<exists>b. s = AwaitResponse b) \<or> (\<exists>r. s = AwaitBody r)) \<and>
        c' = put_call i a (CallSettled (Inl fetch_failed)) c)"
  "step base (Call i a) c = Some c' \<longleftrightarrow> calls c i = None \<and> c' = performFetch base i a True c"
  by (auto simp: apiFetch_def split: option.splits call_state.splits)

lemma step_view_other:
  assumes "step base e c = Some c'" and "call_of e \<noteq> Some i"
  shows "view_of i c' = view_of i c"
proof (cases e)
  case (Resume j)
  then show ?thesis
    using assms by (auto simp: resume_Some on_startup_view_other on_new_token_view_other)
next
  case (Response j r)
  then show ?thesis using assms by (auto simp: step_call_cases on_response_view_other simp del: step.simps)
next
  case (ReadBody j)
  then show ?thesis using assms by (auto simp: step_call_cases on_body_view_other simp del: step.simps)
qed (use assms in \<open>auto simp: step_call_cases step_refresh_cases performFetch_view simp del: step.simps(1,4-10)\<close>)

lemma call_step_apiFetch:
  "calls c i = None \<Longrightarrow> call_step base a (view_of i c) (view_of i (performFetch base i a True c))"
  using view_of_def [of i c] by (simp add: performFetch_view call_step.intros split: option.split)

lemma call_step_finish:
  assumes "calls c i = Some (a', s)" and "(\<exists>b. s = AwaitResponse b) \<or> (\<exists>k. s = AwaitNewToken k r)"
  shows "call_step base a (view_of i c) (view_of i (finish i a' r c))"
  using assms by (auto simp: finish_view) (auto simp: view_of_def intro: call_step.intros)

lemma call_step_on_body:
  assumes "calls c i = Some (a', AwaitBody r)"
  shows "call_step base a (view_of i c) (view_of i (on_body i a' r c))"
proof -
  obtain out where "view_of i (on_body i a' r c) = (Some (CallSettled out), requests_of i (wire c))"
    using on_body_settles [of i i a' r c] by auto
  then show ?thesis
    using assms by (auto simp: view_of_def intro: call_step.intros)
qed

lemma call_step_on_response:
  assumes "calls c i = Some (a, AwaitResponse b)"
  shows "call_step base a (view_of i c) (view_of i (on_response i a b r c))"
proof (cases "status r = 401 \<and> b \<and> call_path a \<notin> set NO_RETRY_PATHS")
  case True
  obtain c' k where rt: "refreshAccessToken c = (c', k)" by fastforce
  then have "requests_of i (wire c') = requests_of i (wire c)"
    using refreshAccessToken_requests(1) [of i c] by simp
  then show ?thesis
    using True rt assms by (simp add: on_response_def view_of_def ask_new_token)
next
  case False
  then show ?thesis
    using assms call_step_finish [of c i a] by (auto simp: on_response_def)
qed

lemma call_step_on_startup:
  "calls c i = Some (a, AwaitStartup k b) \<Longrightarrow>
   call_step base a (view_of i c) (view_of i (on_startup_settled base i a b out c))"
  by (cases out) (simp_all add: on_startup_settled_def view_of_def send_request_def call_step.intros getAccessToken_def)

lemma call_step_on_new_token:
  assumes "calls c i = Some (a, AwaitNewToken k r)"
  shows "call_step base a (view_of i c) (view_of i (on_new_token base i a r out c))"
proof (cases out)
  case (Inl e)
  then show ?thesis using assms by (simp add: on_new_token_def view_of_def refresh_throws)
next
  case (Inr t)
  have "call_step base a (view_of i c) (view_of i (performFetch base i a False c))"
    using assms view_of_def [of i c] by (simp add: performFetch_view call_step.intros split: option.split)
  moreover have "call_step base a (view_of i (call_handler h c)) (view_of i (finish i a r (call_handler h c)))" for h
    using assms by (intro call_step_finish) auto
  ultimately show ?thesis using Inr by (simp add: on_new_token_def)
qed

text \<open>The call a client works on stays the same, and each event of it is a step of the protocol.\<close>

definition call_at :: "nat \<Rightarrow> ('app, 'd) client \<Rightarrow> api_call option" where
  "call_at i c = map_option fst (calls c i)"

lemma call_at_simps [simp]:
  "call_at i (put_call j a s c) = (if i = j then Some a else call_at i c)"
  "call_at i (call_handler h c) = call_at i c" "call_at i (setAccessToken t c) = call_at i c"
  "call_at i (put_refresh k x c) = call_at i c" "call_at i (fst (refreshAccessToken c)) = call_at i c"
  "call_at i (c\<lparr>refreshInFlight := f\<rparr>) = call_at i c" "call_at i (c\<lparr>wire := w\<rparr>) = call_at i c"
  by (simp_all add: call_at_def)

lemma call_at_pieces [simp]:
  "call_at i (finish j a r c) = (if i = j then Some a else call_at i c)"
  "call_at i (on_body j a r c) = (if i = j then Some a else call_at i c)"
  "call_at i (performFetch base j a b c) = (if i = j then Some a else call_at i c)"
  "call_at i (on_startup_settled base j a b out c) = (if i = j then Some a else call_at i c)"
  "call_at i (refresh_response k r c) = call_at i c" "call_at i (refresh_body k r c) = call_at i c"
  "call_at i (refresh_finally k out' c) = call_at i c"
  by (simp_all add: finish_def on_body_def performFetch_def send_request_def on_startup_settled_def refresh_response_def
      refresh_body_def refresh_finally_def split: payload.split option.split sum.split)

lemma call_at_answers [simp]:
  "call_at i (on_new_token base j a r out c) = (if i = j then Some a else call_at i c)"
  "call_at i (on_response j a b r c) = (if i = j then Some a else call_at i c)"
  using call_at_simps(5) [of i c]
  by (cases "refreshAccessToken c"; auto simp: on_new_token_def on_response_def split: sum.split)+

lemma call_at_known:
  "calls c i = None \<Longrightarrow> call_at i c = None" "calls c i = Some (a, s) \<Longrightarrow> call_at i c = Some a"
  by (simp_all add: call_at_def)

lemma step_call_at:
  assumes "step base e c = Some c'" and "call_at i c = Some a"
  shows "call_at i c' = Some a"
proof (cases e)
  case (Resume j)
  then show ?thesis using assms by (auto simp: resume_Some dest!: call_at_known)
qed (use assms in \<open>auto simp: step_call_cases step_refresh_cases simp del: step.simps(1,4-10) dest!: call_at_known\<close>)

lemma step_call_step:
  assumes "step base e c = Some c'" and "call_of e = Some i" and "call_at i c' = Some a"
  shows "call_step base a (view_of i c) (view_of i c')"
proof (cases e)
  case (Call j a')
  then show ?thesis using assms by (auto simp: step_call_cases call_step_apiFetch simp del: step.simps)
next
  case (Resume j)
  then show ?thesis
    using assms by (auto simp: resume_Some call_step_on_startup call_step_on_new_token)
next
  case (Response j r)
  then show ?thesis using assms by (auto simp: step_call_cases call_step_on_response simp del: step.simps)
next
  case (ReadBody j)
  then show ?thesis using assms by (auto simp: step_call_cases call_step_on_body simp del: step.simps)
next
  case (NetworkError j)
  then show ?thesis
    using assms by (auto simp: step_call_cases view_of_def call_step.intros simp del: step.simps)
qed (use assms in auto)

section \<open>What the protocol bounds\<close>

text \<open>The requests a call has sent, by the state it is in.\<close>

fun requests_fit :: "api_call \<Rightarrow> 'd call_state option \<Rightarrow> nat \<Rightarrow> bool" where
  "requests_fit a None n = (n = 0)"
| "requests_fit a (Some (AwaitStartup k b)) n =
     (if b then n = 0 else n = 1 \<and> call_path a \<notin> set NO_RETRY_PATHS)"
| "requests_fit a (Some (AwaitResponse b)) n =
     (if b then n = 1 else n = 2 \<and> call_path a \<notin> set NO_RETRY_PATHS)"
| "requests_fit a (Some (AwaitNewToken k r)) n = (n = 1 \<and> call_path a \<notin> set NO_RETRY_PATHS)"
| "requests_fit a (Some (AwaitBody r)) n = (n \<le> (if call_path a \<in> set NO_RETRY_PATHS then 1 else 2))"
| "requests_fit a (Some (CallSettled out)) n = (n \<le> (if call_path a \<in> set NO_RETRY_PATHS then 1 else 2))"

definition call_inv :: "string \<Rightarrow> api_call \<Rightarrow> 'd call_state option \<times> wire_request list \<Rightarrow> bool" where
  "call_inv base a v \<longleftrightarrow>
     requests_fit a (fst v) (length (snd v)) \<and> (\<forall>r \<in> set (snd v). \<exists>t. r = build_request base t a)"

lemma call_step_inv: "call_step base a v v' \<Longrightarrow> call_inv base a v \<Longrightarrow> call_inv base a v'"
  by (induction rule: call_step.induct) (auto simp: call_inv_def split: if_splits)

text \<open>How many of its own events a call has still to go through.\<close>

fun rank :: "'d call_state option \<Rightarrow> nat" where
  "rank None = 7"
| "rank (Some (AwaitStartup k b)) = (if b then 6 else 3)"
| "rank (Some (AwaitResponse b)) = (if b then 5 else 2)"
| "rank (Some (AwaitNewToken k r)) = 4"
| "rank (Some (AwaitBody r)) = 1"
| "rank (Some (CallSettled out)) = 0"

lemma call_step_rank: "call_step base a v v' \<Longrightarrow> rank (fst v') < rank (fst v)"
  by (induction rule: call_step.induct) auto

section \<open>Runs\<close>

text \<open>A client as the module loads: nothing asked and nothing sent. The token and the
  handlers are free.\<close>

definition fresh :: "('app, 'd) client \<Rightarrow> bool" where
  "fresh c \<longleftrightarrow> refreshInFlight c = None \<and> refreshes c = Map.empty \<and> nextRefresh c = 0 \<and>
     calls c = Map.empty \<and> wire c = []"

lemma fresh_initial: "fresh (initial_client a)"
  by (simp add: fresh_def initial_client_def)

lemma fresh_refresh_inv: "fresh c \<Longrightarrow> refresh_inv c"
  by (simp add: fresh_def refresh_inv_def)

lemma run_invariant:
  assumes "run base es c = Some c'" and "P c"
    and "\<And>e c c'. step base e c = Some c' \<Longrightarrow> P c \<Longrightarrow> P c'"
  shows "P c'"
  using assms(1,2) by (induction es arbitrary: c) (auto split: option.splits intro: assms(3))

lemma run_append: "run base (es @ fs) c = (case run base es c of None \<Rightarrow> None | Some c' \<Rightarrow> run base fs c')"
  by (induction es arbitrary: c) (auto split: option.split)

lemma run_refresh_inv: "run base es c = Some c' \<Longrightarrow> fresh c \<Longrightarrow> refresh_inv c'"
  by (rule run_invariant [where P = refresh_inv]) (auto intro: fresh_refresh_inv step_refresh_inv)

lemma step_own_call:
  "step base e c = Some c' \<Longrightarrow> call_of e = Some i \<Longrightarrow> \<exists>a. call_at i c' = Some a"
  by (cases e) (auto simp: step_call_cases resume_Some simp del: step.simps(1,4-10))

lemma call_at_None_view: "call_at i c = None \<longleftrightarrow> fst (view_of i c) = None"
  by (simp add: call_at_def view_of_def)

lemma step_call_at_other:
  assumes "step base e c = Some c'" and "call_of e \<noteq> Some i"
  shows "call_at i c' = call_at i c"
  using step_view_other [OF assms] step_call_at [OF assms(1)] call_at_None_view option.exhaust by metis

definition calls_inv :: "string \<Rightarrow> ('app, 'd) client \<Rightarrow> bool" where
  "calls_inv base c \<longleftrightarrow>
     (\<forall>i. case call_at i c of
        None \<Rightarrow> requests_of i (wire c) = []
      | Some a \<Rightarrow> call_inv base a (view_of i c))"

lemma calls_inv_start: "calls_inv base c \<Longrightarrow> call_at i c = None \<Longrightarrow> call_inv base a (view_of i c)"
  unfolding calls_inv_def by (drule spec [of _ i]) (auto simp: call_inv_def view_of_def call_at_def)

lemma step_calls_inv:
  assumes "step base e c = Some c'" and "calls_inv base c"
  shows "calls_inv base c'"
  unfolding calls_inv_def
proof (intro allI)
  fix i
  show "case call_at i c' of None \<Rightarrow> requests_of i (wire c') = [] | Some a \<Rightarrow> call_inv base a (view_of i c')"
  proof (cases "call_of e = Some i")
    case True
    then obtain a where a: "call_at i c' = Some a"
      using step_own_call [OF assms(1)] by blast
    have "call_inv base a (view_of i c)"
      using assms step_call_at [OF assms(1)] a calls_inv_start [OF assms(2)]
      by (cases "call_at i c") (auto simp: calls_inv_def split: option.splits dest: spec [of _ i])
    then show ?thesis
      using call_step_inv [OF step_call_step [OF assms(1) True a]] a by simp
  next
    case False
    have "requests_of i (wire c') = requests_of i (wire c)"
      using step_view_other [OF assms(1) False] by (simp add: view_of_def)
    then show ?thesis
      using assms(2) [unfolded calls_inv_def, THEN spec, of i]
      unfolding step_call_at_other [OF assms(1) False] step_view_other [OF assms(1) False]
      by (cases "call_at i c") simp_all
  qed
qed

lemma fresh_calls_inv: "fresh c \<Longrightarrow> calls_inv base c"
  by (simp add: fresh_def calls_inv_def call_at_def)

lemma run_calls_inv: "run base es c = Some c' \<Longrightarrow> fresh c \<Longrightarrow> calls_inv base c'"
  by (rule run_invariant [where P = "calls_inv base"]) (auto intro: fresh_calls_inv step_calls_inv)

lemma run_rank:
  "run base es c = Some c' \<Longrightarrow>
   length (filter (\<lambda>e. call_of e = Some i) es) + rank (fst (view_of i c')) \<le> rank (fst (view_of i c))"
proof (induction es arbitrary: c)
  case (Cons e es)
  then obtain c1 where c1: "step base e c = Some c1" and rest: "run base es c1 = Some c'"
    by (auto split: option.splits)
  have "(if call_of e = Some i then 1 else 0) + rank (fst (view_of i c1)) \<le> rank (fst (view_of i c))"
    using step_own_call [OF c1] call_step_rank [OF step_call_step [OF c1]] step_view_other [OF c1]
    by (auto simp: Suc_le_eq)
  with Cons.IH [OF rest] show ?case by auto
qed simp

section \<open>The token and the outcome of a refresh\<close>

text \<open>What the refresh and the token look like; calls change it by asking for a refresh alone.\<close>

definition refresh_view ::
    "('app, 'd) client \<Rightarrow> string option \<times> nat option \<times> (nat \<Rightarrow> 'd refresh option) \<times> nat" where
  "refresh_view c = (accessToken c, refreshInFlight c, refreshes c, nextRefresh c)"

lemma refresh_view_pieces [simp]:
  "refresh_view (put_call i a s c) = refresh_view c" "refresh_view (call_handler h c) = refresh_view c"
  "refresh_view (finish i a r c) = refresh_view c" "refresh_view (on_body i a r c) = refresh_view c"
  "refresh_view (performFetch base i a b c) = refresh_view c"
  "refresh_view (on_startup_settled base i a b out c) = refresh_view c"
  "refresh_view (on_new_token base i a r out c) = refresh_view c"
  by (simp_all add: refresh_view_def finish_def on_body_def performFetch_def send_request_def on_startup_settled_def
      on_new_token_def split: payload.split option.split sum.split)

lemma refresh_view_on_response:
  "refresh_view (on_response i a b r c) \<in> {refresh_view c, refresh_view (fst (refreshAccessToken c))}"
  by (cases "refreshAccessToken c") (simp add: on_response_def)

text \<open>The token in memory is the outcome of the latest refresh once that has one.\<close>

definition token_inv :: "('app, 'd) client \<Rightarrow> bool" where
  "token_inv c \<longleftrightarrow>
     (\<forall>k t. nextRefresh c = Suc k \<longrightarrow>
        refreshes c k \<in> {Some (RefreshReturned (Inr t)), Some (RefreshSettled (Inr t))} \<longrightarrow> accessToken c = t)"

fun sets_token :: "'d event \<Rightarrow> bool" where
  "sets_token (SetToken t) = True"
| "sets_token _ = False"

lemma step_refresh_view_calls:
  assumes "step base e c = Some c'" and "call_of e \<noteq> None \<or> e = RestoreSession"
  shows "refresh_view c' \<in> {refresh_view c, refresh_view (fst (refreshAccessToken c))}"
proof (cases e)
  case (Resume i)
  then show ?thesis using assms by (auto simp: resume_Some)
next
  case (Response i r)
  then show ?thesis using assms refresh_view_on_response by (fastforce simp: step_call_cases simp del: step.simps)
qed (use assms in \<open>auto simp: step_call_cases simp del: step.simps(1,4-10)\<close>)

lemma token_inv_asks: "refresh_inv c \<Longrightarrow> token_inv c \<Longrightarrow> token_inv (fst (refreshAccessToken c))"
  by (auto simp: refreshAccessToken_def token_inv_def Let_def split: option.split)

lemma token_inv_view: "refresh_view c' = refresh_view c \<Longrightarrow> token_inv c' = token_inv c"
  by (simp add: refresh_view_def token_inv_def)

lemma in_flight_open:
  "refresh_inv c \<Longrightarrow> refreshInFlight c = Some k \<Longrightarrow>
   nextRefresh c = Suc k \<and> (\<exists>x. refreshes c k = Some x \<and> refresh_open x)"
  unfolding refresh_inv_def by blast

lemma refresh_body_returns:
  "\<exists>out. refresh_body k r c =
     put_refresh k (RefreshReturned out) (c\<lparr>accessToken := (case out of Inl _ \<Rightarrow> accessToken c | Inr t \<Rightarrow> t)\<rparr>)"
  by (cases "payload r") (auto simp: refresh_body_def setAccessToken_def intro: exI [of _ "Inl syntax_error"]
      exI [of _ "Inr None"] exI [of _ "Inr (Some x)" for x])

lemma refresh_response_returns:
  "refresh_response k r c =
     (if ok r then put_refresh k (RefreshBody r) c
      else put_refresh k (RefreshReturned (Inr None)) (c\<lparr>accessToken := None\<rparr>))"
  by (simp add: refresh_response_def setAccessToken_def)

lemma step_token_inv:
  assumes "step base e c = Some c'" and "refresh_inv c" and "token_inv c" and "\<not> sets_token e"
  shows "token_inv c'"
proof (cases "call_of e \<noteq> None \<or> e = RestoreSession")
  case True
  then show ?thesis
    using step_refresh_view_calls [OF assms(1)] token_inv_asks [OF assms(2,3)] token_inv_view assms(3) by blast
next
  case False
  obtain out where body: "refresh_body k r c =
      put_refresh k (RefreshReturned (out k r)) (c\<lparr>accessToken := (case out k r of Inl _ \<Rightarrow> accessToken c | Inr t \<Rightarrow> t)\<rparr>)"
    for k r using refresh_body_returns [of _ _ c] by metis
  note [simp] = token_inv_def refresh_response_returns body refresh_finally_def
  from False assms(4) consider r where "e = RefreshResponse r" | "e = RefreshJson" | "e = RefreshNetworkError"
    | "e = RefreshFinally"
    by (cases e) auto
  then show ?thesis
    using assms(1,3) in_flight_open [OF assms(2)]
    by cases (auto simp: step_refresh_cases simp del: step.simps split: if_splits)
qed

lemma step_settled_stays:
  assumes "step base e c = Some c'" and "refresh_inv c" and "refreshes c k = Some (RefreshSettled out)"
  shows "refreshes c' k = Some (RefreshSettled out)"
proof (cases "call_of e \<noteq> None \<or> e = RestoreSession")
  case True
  have "refreshes (fst (refreshAccessToken c)) k = Some (RefreshSettled out)"
    using assms(2,3) by (auto simp: refreshAccessToken_def refresh_inv_def Let_def split: option.splits)
  then show ?thesis
    using step_refresh_view_calls [OF assms(1) True] assms(3) by (auto simp: refresh_view_def)
next
  case False
  have ne: "refreshInFlight c \<noteq> Some k"
    using assms(2,3) in_flight_open by fastforce
  obtain out where body: "refresh_body k r c =
      put_refresh k (RefreshReturned (out k r)) (c\<lparr>accessToken := (case out k r of Inl _ \<Rightarrow> accessToken c | Inr t \<Rightarrow> t)\<rparr>)"
    for k r using refresh_body_returns [of _ _ c] by metis
  note [simp] = refresh_response_returns body refresh_finally_def
  from False consider r where "e = RefreshResponse r" | "e = RefreshJson" | "e = RefreshNetworkError"
    | "e = RefreshFinally" | t where "e = SetToken t"
    by (cases e) auto
  then show ?thesis
    using assms(1,3) ne
    by cases (auto simp: step_refresh_cases simp del: step.simps(7-10) split: if_splits)
qed

lemma step_nextRefresh_mono: "step base e c = Some c' \<Longrightarrow> nextRefresh c \<le> nextRefresh c'"
proof (cases "call_of e \<noteq> None \<or> e = RestoreSession")
  case True
  assume "step base e c = Some c'"
  from step_refresh_view_calls [OF this True] show ?thesis
    by (auto simp: refresh_view_def refreshAccessToken_def Let_def split: option.splits)
next
  case False
  assume st: "step base e c = Some c'"
  obtain out where body: "refresh_body k r c =
      put_refresh k (RefreshReturned (out k r)) (c\<lparr>accessToken := (case out k r of Inl _ \<Rightarrow> accessToken c | Inr t \<Rightarrow> t)\<rparr>)"
    for k r using refresh_body_returns [of _ _ c] by metis
  from False st body show ?thesis
    by (cases e) (auto simp: step_refresh_cases refresh_response_returns refresh_finally_def
        simp del: step.simps(7-10) split: if_splits)
qed

section \<open>A call made while the session is being restored\<close>

definition cold_inv :: "string \<Rightarrow> nat \<Rightarrow> api_call \<Rightarrow> nat \<Rightarrow> ('app, 'd) client \<Rightarrow> bool" where
  "cold_inv base i a k c \<longleftrightarrow>
     view_of i c = (Some (AwaitStartup k True), []) \<or>
     (\<exists>e. view_of i c = (Some (CallSettled (Inl e)), [])) \<or>
     (\<exists>t. refreshes c k = Some (RefreshSettled (Inr t)) \<and> snd (view_of i c) \<noteq> [] \<and>
        (nextRefresh c = Suc k \<longrightarrow> hd (snd (view_of i c)) = build_request base t a))"

lemma call_step_requests_grow: "call_step base a v v' \<Longrightarrow> \<exists>rs. snd v' = snd v @ rs"
  by (induction rule: call_step.induct) auto

lemma step_requests_grow: "step base e c = Some c' \<Longrightarrow> \<exists>rs. snd (view_of i c') = snd (view_of i c) @ rs"
  using step_own_call [of base e c c' i] step_call_step [of base e c c' i] step_view_other [of base e c c' i]
    call_step_requests_grow by (metis append_Nil2)

lemma cold_inv_own:
  assumes "step base e c = Some c'" and "call_of e = Some i" and "call_at i c = Some a"
    and "view_of i c = (Some (AwaitStartup k True), [])" and "k < nextRefresh c" and "token_inv c"
  shows "cold_inv base i a k c'"
proof -
  from assms(3,4) have at: "calls c i = Some (a, AwaitStartup k True)" and none: "requests_of i (wire c) = []"
    by (auto simp: view_of_def call_at_def)
  with assms(1,2) obtain out where out: "refreshes c k = Some (RefreshSettled out)"
      and c': "c' = on_startup_settled base i a True out c"
    by (cases e) (auto simp: step_call_cases resume_Some simp del: step.simps(1,4-10))
  show ?thesis
  proof (cases out)
    case (Inl e)
    then show ?thesis using c' none by (simp add: on_startup_settled_def cold_inv_def)
  next
    case (Inr t)
    then have "nextRefresh c = Suc k \<longrightarrow> accessToken c = t"
      using assms(6) out by (auto simp: token_inv_def)
    moreover have "refresh_view (send_request base i a True c) = refresh_view c"
      by (simp add: send_request_def refresh_view_def)
    ultimately show ?thesis
      using c' none Inr out by (auto simp: on_startup_settled_def cold_inv_def refresh_view_def)
  qed
qed

lemma step_cold_inv:
  assumes "step base e c = Some c'" and "refresh_inv c" and "token_inv c" and "k < nextRefresh c"
    and "call_at i c = Some a" and "cold_inv base i a k c"
  shows "cold_inv base i a k c'"
proof -
  from assms(6) consider "view_of i c = (Some (AwaitStartup k True), [])"
    | e where "view_of i c = (Some (CallSettled (Inl e)), [])"
    | t where "refreshes c k = Some (RefreshSettled (Inr t))" "snd (view_of i c) \<noteq> []"
        "nextRefresh c = Suc k \<longrightarrow> hd (snd (view_of i c)) = build_request base t a"
    unfolding cold_inv_def by blast
  then show ?thesis
  proof cases
    case 1
    then show ?thesis
      using cold_inv_own [OF assms(1) _ assms(5) 1 assms(4,3)] step_view_other [OF assms(1)]
      by (cases "call_of e = Some i") (auto simp: cold_inv_def)
  next
    case (2 x)
    have "call_of e \<noteq> Some i"
      using step_call_step [OF assms(1) _ step_call_at [OF assms(1,5)]] 2 by (auto elim: call_step_settledE)
    then show ?thesis using 2 step_view_other [OF assms(1)] by (auto simp: cold_inv_def)
  next
    case (3 t)
    obtain rs where "snd (view_of i c') = snd (view_of i c) @ rs"
      using step_requests_grow [OF assms(1)] by blast
    moreover have "nextRefresh c' = Suc k \<longrightarrow> nextRefresh c = Suc k"
      using step_nextRefresh_mono [OF assms(1)] assms(4) by auto
    ultimately show ?thesis
      using 3 step_settled_stays [OF assms(1,2) 3(1)] by (auto simp: cold_inv_def)
  qed
qed

lemma run_cold_inv:
  assumes "run base es c = Some c'" and "refresh_inv c" and "token_inv c" and "k < nextRefresh c"
    and "call_at i c = Some a" and "cold_inv base i a k c" and "\<forall>e \<in> set es. \<not> sets_token e"
  shows "cold_inv base i a k c'"
  using assms
proof (induction es arbitrary: c)
  case (Cons e es)
  then obtain c1 where st: "step base e c = Some c1" and rest: "run base es c1 = Some c'"
    by (auto split: option.splits)
  show ?case
    by (rule Cons.IH [OF rest])
      (use Cons.prems st step_refresh_inv step_token_inv step_nextRefresh_mono [OF st] step_call_at
        step_cold_inv [OF st] in \<open>auto intro: order.strict_trans2\<close>)
qed simp

lemma run_token_inv:
  "run base es c = Some c' \<Longrightarrow> refresh_inv c \<Longrightarrow> token_inv c \<Longrightarrow> \<forall>e \<in> set es. \<not> sets_token e \<Longrightarrow> token_inv c'"
  by (induction es arbitrary: c) (auto split: option.splits intro: step_token_inv step_refresh_inv)

lemma fresh_token_inv: "fresh c \<Longrightarrow> token_inv c"
  by (simp add: fresh_def token_inv_def)

section \<open>Progress\<close>

text \<open>The steps a refresh has still to take, and that it can take the next one.\<close>

fun refresh_rank :: "'d refresh \<Rightarrow> nat" where
  "refresh_rank RefreshSent = 3"
| "refresh_rank (RefreshBody r) = 2"
| "refresh_rank (RefreshReturned out) = 1"
| "refresh_rank (RefreshSettled out) = 0"

definition refresh_advances :: "string \<Rightarrow> nat \<Rightarrow> ('app, 'd) client \<Rightarrow> bool" where
  "refresh_advances base k c \<longleftrightarrow>
     (\<exists>x e c' x'. refreshes c k = Some x \<and> step base e c = Some c' \<and> refreshes c' k = Some x' \<and>
        refresh_rank x' < refresh_rank x \<and> refresh_rank x \<le> 3)"

lemma refresh_advancesI:
  assumes "refreshes c k = Some x" and "step base e c = Some c'" and "refreshes c' k = Some x'"
    and "refresh_rank x' < refresh_rank x"
  shows "refresh_advances base k c"
proof -
  have "refresh_rank x \<le> 3" by (cases x) simp_all
  with assms show ?thesis unfolding refresh_advances_def by blast
qed

lemma refresh_can_advance:
  assumes "refreshInFlight c = Some k" and "refreshes c k = Some x" and "refresh_open x"
  shows "refresh_advances base k c"
proof (cases x)
  case RefreshSent
  then show ?thesis
    using assms by (intro refresh_advancesI [where x = RefreshSent and e = RefreshNetworkError
          and c' = "put_refresh k (RefreshReturned (Inl fetch_failed)) c" and x' = "RefreshReturned (Inl fetch_failed)"]) (simp_all add: on_refresh_def)
next
  case (RefreshBody r)
  obtain out where "refresh_body k r c = put_refresh k (RefreshReturned out)
      (c\<lparr>accessToken := (case out of Inl _ \<Rightarrow> accessToken c | Inr t \<Rightarrow> t)\<rparr>)"
    using refresh_body_returns [of k r c] by blast
  then show ?thesis using assms RefreshBody
    by (intro refresh_advancesI [where x = x and e = RefreshJson and c' = "refresh_body k r c" and x' = "RefreshReturned out"]) (simp_all add: on_refresh_def)
next
  case (RefreshReturned out)
  then show ?thesis using assms
    by (intro refresh_advancesI [where x = x and e = RefreshFinally and c' = "refresh_finally k out c" and x' = "RefreshSettled out"])
      (simp_all add: on_refresh_def refresh_finally_def)
qed (use assms in simp)

lemma resume_enabled:
  assumes "calls c i = Some (a, s)" and "awaits s = Some k" and "refreshes c k = Some (RefreshSettled out)"
  shows "\<exists>c'. step base (Resume i) c = Some c'"
  using assms by (cases s) (simp_all add: resume_def)

lemma call_not_stuck:
  assumes "refresh_inv c" and "calls c i = Some (a, s)"
  shows "(\<exists>out. s = CallSettled out) \<or> (\<exists>e c'. step base e c = Some c' \<and> call_of e = Some i) \<or>
     (\<exists>k. awaits s = Some k \<and> refreshInFlight c = Some k \<and> refresh_advances base k c)"
proof (cases "awaits s")
  case None
  then consider out where "s = CallSettled out" | "(\<exists>b. s = AwaitResponse b) \<or> (\<exists>r. s = AwaitBody r)"
    by (cases s) auto
  then show ?thesis
  proof cases
    case 2
    then have "step base (NetworkError i) c = Some (put_call i a (CallSettled (Inl fetch_failed)) c)"
      using assms(2) by auto
    moreover have "call_of (NetworkError i :: 'b event) = Some i" by simp
    ultimately show ?thesis by blast
  qed blast
next
  case (Some k)
  then have "k < nextRefresh c" using assms unfolding refresh_inv_def by blast
  then obtain x where x: "refreshes c k = Some x"
    using assms(1) unfolding refresh_inv_def by blast
  show ?thesis
  proof (cases "refresh_open x")
    case True
    then have "refreshInFlight c = Some k" using assms(1) x unfolding refresh_inv_def by blast
    then show ?thesis using Some refresh_can_advance [OF _ x True] by blast
  next
    case False
    then obtain out where "x = RefreshSettled out" by (cases x) auto
    then obtain c' where "step base (Resume i) c = Some c'"
      using resume_enabled [OF assms(2) Some] x by blast
    moreover have "call_of (Resume i :: 'b event) = Some i" by simp
    ultimately show ?thesis by blast
  qed
qed

section \<open>Properties\<close>

text \<open>C1: At any moment at most one refresh is under way: in every run of the client from its
  module state, whatever the calls and their answers do, each refresh that was ever started was
  posted exactly once and in order, and the one refresh that has not settled is the one
  \<open>refreshInFlight\<close> holds.\<close>

theorem refresh_single_flight:
  assumes "fresh c0" and "run base es c0 = Some c"
  shows "refresh_posts (wire c) = [0..<nextRefresh c] \<and>
    (\<forall>k. refreshInFlight c = Some k \<longleftrightarrow> (\<exists>x. refreshes c k = Some x \<and> refresh_open x))"
  using run_refresh_inv [OF assms(2,1)] unfolding refresh_inv_def by simp

definition get_me :: api_call where
  "get_me = \<lparr>call_path = ''/api/v1/users/me'', call_options = no_options\<rparr>"

definition unauthorized :: "string response" where
  "unauthorized = \<lparr>status = 401, payload = ErrorPayload
     \<lparr>env_code = ''INVALID_TOKEN'', env_message = ''no'', env_fields = None\<rparr>\<rparr>"

definition logged_in :: "(nat, string) client" where
  "logged_in = (initial_client 0)\<lparr>accessToken := Some ''t0'', sessionExpiredHandler := Some Suc\<rparr>"

lemma fresh_logged_in [simp]: "fresh logged_in"
  by (simp add: logged_in_def fresh_def initial_client_def)

definition two_expired :: "string event list" where
  "two_expired = [Call 0 get_me, Call 1 get_me, Response 1 unauthorized, Response 0 unauthorized]"

lemma two_expired_run:
  "\<exists>c. run [] two_expired logged_in = Some c \<and> refresh_posts (wire c) = [0] \<and> nextRefresh c = 1 \<and>
     calls c 0 = Some (get_me, AwaitNewToken 0 unauthorized)"
  by (simp add: two_expired_def logged_in_def initial_client_def apiFetch_def performFetch_def send_request_def
      put_call_def on_response_def refreshAccessToken_def unauthorized_def get_me_def NO_RETRY_PATHS_def
      refresh_posts_def map_filter_def)

theorem refresh_single_flight_witness:
  "\<exists>c. run [] two_expired logged_in = Some c \<and> refresh_posts (wire c) = [0..<nextRefresh c] \<and> nextRefresh c = 1"
proof -
  obtain c where c: "run [] two_expired logged_in = Some c" "nextRefresh c = 1" using two_expired_run by blast
  show ?thesis using refresh_single_flight [OF fresh_logged_in c(1)] c by blast
qed

text \<open>C8: A call sends at most two requests, and at most one to a path whose 401 is a final
  answer; every one of them is the request of the call's own arguments under some access token, so
  a retry repeats the call and changes nothing else.\<close>

theorem call_requests_bounded:
  assumes "fresh c0" and "run base es c0 = Some c" and "calls c i = Some (a, s)"
  shows "length (requests_of i (wire c)) \<le> (if call_path a \<in> set NO_RETRY_PATHS then 1 else 2) \<and>
    (\<forall>r \<in> set (requests_of i (wire c)). \<exists>t. r = build_request base t a)"
proof -
  have "call_inv base a (view_of i c)"
    using run_calls_inv [OF assms(2,1)] call_at_known(2) [OF assms(3)] unfolding calls_inv_def by (metis option.simps(5))
  then show ?thesis
    using assms(3) by (cases s) (auto simp: call_inv_def view_of_def split: if_splits)
qed

theorem call_requests_bounded_witness:
  "\<exists>c. run [] two_expired logged_in = Some c \<and> length (requests_of 0 (wire c)) \<le> 2"
proof -
  obtain c where c: "run [] two_expired logged_in = Some c"
      "calls c 0 = Some (get_me, AwaitNewToken 0 unauthorized)" using two_expired_run by blast
  show ?thesis
    using call_requests_bounded [OF fresh_logged_in c] c(1) by (auto simp: get_me_def NO_RETRY_PATHS_def)
qed

text \<open>C5: No call goes on for ever and none is stuck. A run holds at most seven events of one
  call; and as long as a call is not settled, either its own next event can happen, or the refresh
  it awaits is in flight and an event can happen that brings this refresh nearer its end, of which
  three are enough.\<close>

theorem call_settles:
  assumes "fresh c0" and "run base es c0 = Some c" and "calls c i = Some (a, s)"
  shows "length (filter (\<lambda>e. call_of e = Some i) es) \<le> 7 \<and>
    ((\<exists>out. s = CallSettled out) \<or>
     (\<exists>e c'. step base e c = Some c' \<and> call_of e = Some i) \<or>
     (\<exists>k. awaits s = Some k \<and> refreshInFlight c = Some k \<and> refresh_advances base k c))"
proof
  have "rank (fst (view_of i c0)) \<le> 7"
    using assms(1) by (simp add: fresh_def view_of_def)
  then show "length (filter (\<lambda>e. call_of e = Some i) es) \<le> 7"
    using run_rank [OF assms(2), of i] by linarith
next
  show "(\<exists>out. s = CallSettled out) \<or> (\<exists>e c'. step base e c = Some c' \<and> call_of e = Some i) \<or>
     (\<exists>k. awaits s = Some k \<and> refreshInFlight c = Some k \<and> refresh_advances base k c)"
    using call_not_stuck [OF run_refresh_inv [OF assms(2,1)] assms(3)] .
qed

theorem call_settles_witness:
  "\<exists>c. run [] two_expired logged_in = Some c \<and> length (filter (\<lambda>e. call_of e = Some 0) two_expired) \<le> 7"
proof -
  obtain c where c: "run [] two_expired logged_in = Some c"
      "calls c 0 = Some (get_me, AwaitNewToken 0 unauthorized)" using two_expired_run by blast
  show ?thesis using call_settles [OF fresh_logged_in c] c(1) by blast
qed

text \<open>C3: A call made while the session is being restored waits for it. If a refresh is in flight
  when a call starts (and nothing but refreshes sets the token), then the call has sent nothing
  until that refresh has returned; if the refresh throws, the call throws and never sends
  anything; and its first request carries the token the refresh returned, unless another refresh
  has been started by then.\<close>

theorem cold_load_waits:
  assumes "fresh c0" and "run base es0 c0 = Some c" and "refreshInFlight c = Some k"
    and "run base (Call i a # es) c = Some c'" and "\<forall>e \<in> set (es0 @ es). \<not> sets_token e"
    and "requests_of i (wire c') \<noteq> []"
  shows "\<exists>t. refreshes c' k = Some (RefreshSettled (Inr t)) \<and>
    (nextRefresh c' = Suc k \<longrightarrow> hd (requests_of i (wire c')) = build_request base t a)"
proof -
  obtain c1 where c1: "step base (Call i a) c = Some c1" and rest: "run base es c1 = Some c'"
    using assms(4) by (auto split: option.splits)
  have sets: "\<forall>e \<in> set es0. \<not> sets_token e" "\<forall>e \<in> set es. \<not> sets_token e"
    using assms(5) by simp_all
  have inv: "refresh_inv c" by (rule run_refresh_inv [OF assms(2,1)])
  have tok: "token_inv c"
    by (rule run_token_inv [OF assms(2) fresh_refresh_inv fresh_token_inv sets(1)]) (rule assms(1))+
  from c1 have idle: "calls c i = None" by (auto simp: step_call_cases simp del: step.simps)
  have none: "requests_of i (wire c) = []"
    using run_calls_inv [OF assms(2,1), unfolded calls_inv_def, THEN spec, of i] call_at_known(1) [OF idle] by simp
  have "c1 = put_call i a (AwaitStartup k True) c"
    using c1 assms(3) by (auto simp: step_call_cases performFetch_def simp del: step.simps)
  then have start: "cold_inv base i a k c1" "call_at i c1 = Some a" "k < nextRefresh c1"
    using none in_flight_less [OF inv assms(3)] by (simp_all add: cold_inv_def)
  have "token_inv c1" by (rule step_token_inv [OF c1 inv tok]) simp
  from run_cold_inv [OF rest step_refresh_inv [OF inv c1] this start(3,2,1) sets(2)]
  have "cold_inv base i a k c'" .
  then show ?thesis
    using assms(6) by (auto simp: cold_inv_def view_of_def)
qed

definition cold_load :: "string event list" where
  "cold_load = [RefreshResponse \<lparr>status = 200, payload = TokenPayload ''t1''\<rparr>, RefreshJson, RefreshFinally, Resume 0]"

lemma cold_load_run:
  "\<exists>c c'. run [] [RestoreSession] (initial_client (0::nat)) = Some c \<and> refreshInFlight c = Some 0 \<and>
     run [] (Call 0 get_me # cold_load) c = Some c' \<and> nextRefresh c' = 1 \<and>
     requests_of 0 (wire c') \<noteq> [] \<and> refreshes c' 0 = Some (RefreshSettled (Inr (Some ''t1'')))"
  by (simp add: cold_load_def initial_client_def apiFetch_def performFetch_def send_request_def put_call_def
      refreshAccessToken_def on_refresh_def refresh_response_def refresh_body_def refresh_finally_def
      put_refresh_def setAccessToken_def ok_def resume_def on_startup_settled_def requests_of_def map_filter_def)

theorem cold_load_waits_witness:
  "\<exists>c c'. run [] (RestoreSession # Call 0 get_me # cold_load) (initial_client (0::nat)) = Some c' \<and>
     hd (requests_of 0 (wire c')) = build_request [] (Some ''t1'') get_me"
proof -
  obtain c c' where c: "run [] [RestoreSession] (initial_client (0::nat)) = Some c" "refreshInFlight c = Some 0"
      "run [] (Call 0 get_me # cold_load) c = Some c'" "requests_of 0 (wire c') \<noteq> []"
    and more: "nextRefresh c' = 1" "refreshes c' 0 = Some (RefreshSettled (Inr (Some ''t1'')))"
    using cold_load_run by blast
  have "\<forall>e \<in> set ([RestoreSession] @ cold_load). \<not> sets_token e" by (simp add: cold_load_def)
  from cold_load_waits [OF fresh_initial c(1-3) this c(4)] more
  have "hd (requests_of 0 (wire c')) = build_request [] (Some ''t1'') get_me" by simp
  moreover have "run [] (RestoreSession # Call 0 get_me # cold_load) (initial_client (0::nat)) = Some c'"
    using c(1,3) by simp
  ultimately show ?thesis by blast
qed

lemma app_pieces [simp]:
  "app (put_call i a s c) = app c" "app (setAccessToken t c) = app c" "app (put_refresh k x c) = app c"
  "app (performFetch base i a b c) = app c" "app (fst (refreshAccessToken c)) = app c"
  "app (refresh_response k r c) = app c" "app (refresh_body k r c) = app c"
  "app (refresh_finally k out c) = app c" "app (on_startup_settled base i a b out c) = app c"
  "app (finish i a r c) = app c"
  by (simp_all add: finish_def put_call_def setAccessToken_def put_refresh_def performFetch_def send_request_def
      refreshAccessToken_def refresh_response_def refresh_body_def refresh_finally_def on_startup_settled_def
      Let_def split: option.split payload.split sum.split)

definition demands_password_change :: "'d response \<Rightarrow> bool" where
  "demands_password_change r \<longleftrightarrow> \<not> ok r \<and>
     (case payload r of ErrorPayload env \<Rightarrow> env_code env = ''PASSWORD_CHANGE_REQUIRED'' | _ \<Rightarrow> False)"

lemma app_on_body: "app (on_body i a r c) \<noteq> app c \<Longrightarrow> demands_password_change r"
  by (auto simp: on_body_def demands_password_change_def call_handler_def split: if_splits payload.splits option.splits)

lemma app_on_response: "app (on_response i a b r c) = app c"
  using app_pieces(5) [of c] by (cases "refreshAccessToken c") (auto simp: on_response_def split: if_splits)

text \<open>C9: The application hears of the client only in two cases. A step calls a handler only if
  it resumes a call after a refresh that returned, without throwing, no usable token (the session has
  expired), or reads the body of an error response whose code demands a password change; in particular a
  refresh that fails on the network, or a 401 that a refresh repairs, logs nobody out.\<close>

theorem handlers_called_only_when:
  assumes "step base e c = Some c'" and "app c' \<noteq> app c"
  shows "(\<exists>i a k r t. e = Resume i \<and> calls c i = Some (a, AwaitNewToken k r) \<and>
      refreshes c k = Some (RefreshSettled (Inr t)) \<and> \<not> truthy t) \<or>
    (\<exists>i a r. e = ReadBody i \<and> calls c i = Some (a, AwaitBody r) \<and> demands_password_change r)"
proof (cases e)
  case (Resume i)
  from assms(1) [unfolded Resume step.simps resume_Some] assms(2) obtain a k r out
    where at: "calls c i = Some (a, AwaitNewToken k r)" "refreshes c k = Some (RefreshSettled out)"
      "c' = on_new_token base i a r out c" by auto
  with assms(2) obtain t where "out = Inr t" "\<not> truthy t"
    by (cases out) (auto simp: on_new_token_def split: if_splits)
  with at Resume show ?thesis by blast
next
  case (Response i r)
  then show ?thesis using assms app_on_response by (fastforce simp: step_call_cases simp del: step.simps)
next
  case (ReadBody i)
  then show ?thesis using assms app_on_body by (fastforce simp: step_call_cases simp del: step.simps)
qed (use assms in \<open>auto simp: step_call_cases step_refresh_cases simp del: step.simps(1,4-10)\<close>)

lemmas client_defs = apiFetch_def performFetch_def send_request_def put_call_def on_response_def
  refreshAccessToken_def on_refresh_def refresh_response_def refresh_body_def refresh_finally_def
  put_refresh_def setAccessToken_def getAccessToken_def resume_def on_startup_settled_def on_new_token_def
  finish_def on_body_def call_handler_def

definition dead_session :: "string event list" where
  "dead_session = [Call 0 get_me, Response 0 unauthorized, RefreshResponse unauthorized, RefreshFinally]"

lemma dead_session_run:
  "\<exists>c c'. run [] dead_session logged_in = Some c \<and> step [] (Resume 0) c = Some c' \<and> app c = 0 \<and> app c' = 1"
  by (simp add: dead_session_def logged_in_def initial_client_def client_defs get_me_def unauthorized_def
      NO_RETRY_PATHS_def ok_def)

theorem handlers_called_only_when_witness:
  "\<exists>c k t. run [] dead_session logged_in = Some c \<and> refreshes c k = Some (RefreshSettled (Inr t)) \<and> \<not> truthy t"
proof -
  obtain c c' where c: "run [] dead_session logged_in = Some c" "step [] (Resume 0) c = Some c'" "app c' \<noteq> app c"
    using dead_session_run by fastforce
  from handlers_called_only_when [OF c(2,3)] c(1) show ?thesis by blast
qed

text \<open>C2: An expired access token is replaced without the page noticing. For an idle client and
  any call whose path may be retried: if the answer is a 401 and the refresh issues a new token, the
  call is sent again with the new token and settles with the answer to that; three requests are
  made in all, no handler runs, and the new token stays in memory. If instead the refresh is
  rejected, nothing is sent again, the token is dropped, the session-expired handler runs exactly once
  and the call throws the error of its 401.\<close>

theorem expired_token:
  assumes "fresh c0" and "status expired = 401" and "payload expired = ErrorPayload env"
    and "env_code env \<noteq> ''PASSWORD_CHANGE_REQUIRED''" and "call_path a \<notin> set NO_RETRY_PATHS"
    and "ok issued" and "payload issued = TokenPayload t" and "t \<noteq> []"
    and "status answer = 200" and "payload answer = DataPayload d" and "\<not> ok refused"
  shows "(\<exists>c. run base [Call i a, Response i expired, RefreshResponse issued, RefreshJson, RefreshFinally,
        Resume i, Response i answer, ReadBody i] c0 = Some c \<and>
      calls c i = Some (a, CallSettled (Inr (Some (DataPayload d)))) \<and>
      accessToken c = Some t \<and> app c = app c0 \<and>
      wire c = [ApiRequest i (build_request base (accessToken c0) a), RefreshPost 0,
                ApiRequest i (build_request base (Some t) a)]) \<and>
    (\<exists>c. run base [Call i a, Response i expired, RefreshResponse refused, RefreshFinally, Resume i, ReadBody i] c0 = Some c \<and>
      calls c i = Some (a, CallSettled (Inl (ApiError (new_ApiError 401 env)))) \<and>
      accessToken c = None \<and>
      app c = (case sessionExpiredHandler c0 of None \<Rightarrow> app c0 | Some f \<Rightarrow> f (app c0)) \<and>
      wire c = [ApiRequest i (build_request base (accessToken c0) a), RefreshPost 0])"
proof -
  have "\<not> ok expired" using assms(2) by (simp add: ok_def)
  moreover have "ok answer" using assms(9) by (simp add: ok_def)
  ultimately show ?thesis
    using assms by (simp add: fresh_def client_defs split: option.split)
qed

theorem expired_token_witness:
  "\<exists>c. run [] [Call 0 get_me, Response 0 unauthorized,
        RefreshResponse \<lparr>status = 200, payload = TokenPayload ''t1''\<rparr>, RefreshJson, RefreshFinally,
        Resume 0, Response 0 \<lparr>status = 200, payload = DataPayload ''me''\<rparr>, ReadBody 0] logged_in = Some c \<and>
     calls c 0 = Some (get_me, CallSettled (Inr (Some (DataPayload ''me''))))"
proof -
  have prems: "status unauthorized = 401" "payload unauthorized = ErrorPayload
      \<lparr>env_code = ''INVALID_TOKEN'', env_message = ''no'', env_fields = None\<rparr>"
      "env_code \<lparr>env_code = ''INVALID_TOKEN'', env_message = ''no'', env_fields = None\<rparr> \<noteq> ''PASSWORD_CHANGE_REQUIRED''"
      "call_path get_me \<notin> set NO_RETRY_PATHS" "\<not> ok unauthorized"
    by (simp_all add: unauthorized_def get_me_def NO_RETRY_PATHS_def ok_def)
  show ?thesis
    using expired_token [OF fresh_logged_in prems(1-4), where issued = "\<lparr>status = 200, payload = TokenPayload ''t1''\<rparr>"
        and t = "''t1''" and answer = "\<lparr>status = 200, payload = DataPayload ''me''\<rparr>" and d = "''me''"
        and refused = unauthorized and base = "[]" and i = 0] prems(5)
    by (simp add: ok_def del: run.simps step.simps) blast
qed

lemma view_from_protocol:
  assumes "run base es c = Some c'" and "call_at i c' = Some a"
    and "(call_step base a)\<^sup>*\<^sup>* (None, []) (view_of i c)" and "call_at i c = None \<or> call_at i c = Some a"
  shows "(call_step base a)\<^sup>*\<^sup>* (None, []) (view_of i c')"
  using assms
proof (induction es arbitrary: c)
  case (Cons e es)
  obtain d where d: "step base e c = Some d" "run base es d = Some c'"
    using Cons.prems(1) by (auto split: option.splits)
  show ?case
  proof (cases "call_of e = Some i")
    case True
    then obtain b where b: "call_at i d = Some b" using step_own_call [OF d(1)] by blast
    have keep: "call_at i c' = Some b"
      using run_invariant [where P = "\<lambda>c. call_at i c = Some b", OF d(2) b] step_call_at by blast
    then have "b = a" using Cons.prems(2) by simp
    then have "call_step base a (view_of i c) (view_of i d)" using step_call_step [OF d(1) True] b by simp
    then show ?thesis
      using Cons.IH [OF d(2) Cons.prems(2)] Cons.prems(3) b \<open>b = a\<close> by (meson rtranclp.rtrancl_into_rtrancl)
  next
    case False
    show ?thesis
      using Cons.IH [OF d(2) Cons.prems(2)] Cons.prems(3,4) step_view_other [OF d(1) False] step_call_at_other [OF d(1) False]
      by simp
  qed
qed simp

text \<open>C4: The client implements the protocol of a call. Seen from one call, through the view that keeps its
  state and the requests it has sent, every step of the client is a step of \<^const>\<open>call_step\<close> or no
  step: an event of the call is a step of its protocol, any other event leaves the view as it is; so in
  every run the view of a call is reached from nothing by steps of its protocol alone, whatever the
  other calls and the shared refresh do.\<close>

theorem client_refines_call_protocol:
  assumes "fresh c0"
  shows "(step base e c = Some c' \<longrightarrow>
      (case call_of e of
         Some i \<Rightarrow> \<exists>a. call_at i c' = Some a \<and> call_step base a (view_of i c) (view_of i c') \<and>
           (\<forall>j. j \<noteq> i \<longrightarrow> view_of j c' = view_of j c)
       | None \<Rightarrow> \<forall>j. view_of j c' = view_of j c)) \<and>
    (run base es c0 = Some d \<longrightarrow> call_at i d = Some a \<longrightarrow> (call_step base a)\<^sup>*\<^sup>* (None, []) (view_of i d))"
proof (intro conjI impI)
  assume s: "step base e c = Some c'"
  show "case call_of e of
         Some i \<Rightarrow> \<exists>a. call_at i c' = Some a \<and> call_step base a (view_of i c) (view_of i c') \<and>
           (\<forall>j. j \<noteq> i \<longrightarrow> view_of j c' = view_of j c)
       | None \<Rightarrow> \<forall>j. view_of j c' = view_of j c"
    using step_own_call [OF s] step_call_step [OF s] step_view_other [OF s] by (auto split: option.split)
next
  assume r: "run base es c0 = Some d" "call_at i d = Some a"
  have "view_of i c0 = (None, [])" "call_at i c0 = None"
    using assms by (simp_all add: fresh_def view_of_def call_at_def)
  then show "(call_step base a)\<^sup>*\<^sup>* (None, []) (view_of i d)"
    using view_from_protocol [OF r] by simp
qed

theorem client_refines_call_protocol_witness:
  "\<exists>c. run [] two_expired logged_in = Some c \<and> (call_step [] get_me)\<^sup>*\<^sup>* (None, []) (view_of 0 c)"
proof -
  obtain c where c: "run [] two_expired logged_in = Some c"
      "calls c 0 = Some (get_me, AwaitNewToken 0 unauthorized)" using two_expired_run by blast
  then show ?thesis
    using client_refines_call_protocol [OF fresh_logged_in, where base = "[]" and es = two_expired] call_at_known(2) [OF c(2)] by blast
qed

end
