(* ===== verification/Auth_Context.thy ===== *)
theory Auth_Context
  imports Endpoints Api_Client_Safety
begin

text \<open>
  \<open>src/auth/AuthContext.tsx\<close> and the start of \<open>src/main.tsx\<close>, on top of the API client: the
  application state the client's handlers change, and the provider's asynchronous functions, each a
  flow that is cut at its awaits. A flow awaits a call or a refresh of the client, so every
  interleaving with other calls is covered. Responses have the types the code casts them to; a flow
  whose response has not is outside the model (its step is \<^const>\<open>None\<close>).
\<close>

section \<open>State\<close>

datatype auth_state =
    AuthLoading | Unauthenticated | PasswordChangeRequired | Authenticated user_public

datatype api_data = UserData user_public | OtherData

text \<open>What remains after \<open>loadCurrentUser\<close>: nothing, or \<open>navigate("/")\<close>.\<close>

datatype after_load = Return | GoHome

text \<open>The asynchronous functions in progress: the mount effect awaiting \<open>restoreSession\<close>, the same after
  the clean-up has set its \<open>cancelled\<close>,
  \<open>loadCurrentUser\<close>, \<open>login\<close>, \<open>register\<close> and \<open>logout\<close> awaiting their call, and a
  function that has returned or thrown.\<close>

datatype auth_flow =
    Restoring nat | CancelledRestore nat | LoadingUser nat after_load | LoggingIn nat | Registering nat | LoggingOut nat
  | FlowDone "js_exn option"

record auth_app =
  auth :: auth_state
  location :: string
  flows :: "nat \<Rightarrow> auth_flow option"

type_synonym session = "(auth_app, api_data) client"

section \<open>The provider\<close>

definition update_app :: "(auth_app \<Rightarrow> auth_app) \<Rightarrow> session \<Rightarrow> session" where
  "update_app f c = c\<lparr>app := f (app c)\<rparr>"

definition setState :: "auth_state \<Rightarrow> auth_app \<Rightarrow> auth_app" where
  "setState s a = a\<lparr>auth := s\<rparr>"

definition navigate :: "string \<Rightarrow> auth_app \<Rightarrow> auth_app" where
  "navigate path a = a\<lparr>location := path\<rparr>"

definition set_flow :: "nat \<Rightarrow> auth_flow \<Rightarrow> session \<Rightarrow> session" where
  "set_flow f x c = update_app (\<lambda>a. a\<lparr>flows := (flows a)(f \<mapsto> x)\<rparr>) c"

definition on_password_change_required :: "auth_app \<Rightarrow> auth_app" where
  "on_password_change_required a = navigate ''/change-password'' (setState PasswordChangeRequired a)"

definition on_session_expired :: "auth_app \<Rightarrow> auth_app" where
  "on_session_expired a = navigate ''/login'' (setState Unauthenticated a)"

text \<open>The mount effects: register the handlers, and call \<open>restoreSession\<close>.\<close>

definition mount_provider :: "nat \<Rightarrow> session \<Rightarrow> session" where
  "mount_provider f c =
     (let (c', k) = refreshAccessToken
            (setPasswordChangeRequiredHandler (Some on_password_change_required)
              (setSessionExpiredHandler (Some on_session_expired) c))
      in set_flow f (Restoring k) c')"

text \<open>The clean-ups of the two effects, which React runs when the provider goes and, in development, once
  after the first mount.\<close>

definition unmount_provider :: "nat \<Rightarrow> session \<Rightarrow> session" where
  "unmount_provider f c =
     setPasswordChangeRequiredHandler None
       (setSessionExpiredHandler None
         (case flows (app c) f of Some (Restoring k) \<Rightarrow> set_flow f (CancelledRestore k) c | _ \<Rightarrow> c))"

definition start_call :: "string \<Rightarrow> nat \<Rightarrow> nat \<Rightarrow> api_call \<Rightarrow> auth_flow \<Rightarrow> session \<Rightarrow> session" where
  "start_call base f i a x c = set_flow f x (apiFetch base i a c)"

text \<open>\<open>loadCurrentUser\<close>, before and after the response.\<close>

definition loadCurrentUser :: "string \<Rightarrow> nat \<Rightarrow> nat \<Rightarrow> after_load \<Rightarrow> session \<Rightarrow> session" where
  "loadCurrentUser base f i aft c = start_call base f i getOwnProfile (LoadingUser i aft) c"

definition after_loading :: "after_load \<Rightarrow> session \<Rightarrow> session" where
  "after_loading aft c = (case aft of Return \<Rightarrow> c | GoHome \<Rightarrow> update_app (navigate ''/'') c)"

definition demands_change :: "js_exn \<Rightarrow> bool" where
  "demands_change e =
     (case e of ApiError x \<Rightarrow> err_code x = ''PASSWORD_CHANGE_REQUIRED'' | _ \<Rightarrow> False)"

definition user_loaded :: "nat \<Rightarrow> after_load \<Rightarrow> js_exn + api_data payload option \<Rightarrow> session \<Rightarrow> session option" where
  "user_loaded f aft out c =
     (case out of
        Inr (Some (DataPayload (UserData u))) \<Rightarrow>
          Some (set_flow f (FlowDone None) (after_loading aft (update_app (setState (Authenticated u)) c)))
      | Inr _ \<Rightarrow> None
      | Inl e \<Rightarrow>
          Some (set_flow f (FlowDone None) (after_loading aft
            (if demands_change e then update_app (setState PasswordChangeRequired) c
             else update_app (setState Unauthenticated) (setAccessToken None c)))))"

definition session_restored :: "string \<Rightarrow> nat \<Rightarrow> nat \<Rightarrow> js_exn + string option \<Rightarrow> session \<Rightarrow> session" where
  "session_restored base f i out c =
     (case out of
        Inl e \<Rightarrow> set_flow f (FlowDone (Some e)) c
      | Inr t \<Rightarrow>
          if truthy t then loadCurrentUser base f i Return c
          else set_flow f (FlowDone None) (update_app (setState Unauthenticated) c))"

definition login_settled :: "string \<Rightarrow> nat \<Rightarrow> nat \<Rightarrow> js_exn + api_data payload option \<Rightarrow> session \<Rightarrow> session option" where
  "login_settled base f i out c =
     (case out of
        Inl e \<Rightarrow> Some (set_flow f (FlowDone (Some e)) c)
      | Inr (Some (TokenPayload t)) \<Rightarrow> Some (loadCurrentUser base f i Return (setAccessToken (Some t) c))
      | Inr _ \<Rightarrow> None)"

definition thrown :: "js_exn + 'a \<Rightarrow> js_exn option" where
  "thrown out = (case out of Inl e \<Rightarrow> Some e | Inr _ \<Rightarrow> None)"

definition logged_out :: "nat \<Rightarrow> js_exn + api_data payload option \<Rightarrow> session \<Rightarrow> session" where
  "logged_out f out c =
     set_flow f (FlowDone (thrown out))
       (update_app (\<lambda>a. navigate ''/login'' (setState Unauthenticated a)) (setAccessToken None c))"

section \<open>Events\<close>

datatype auth_event =
    Client "api_data event"
  | AppStart
  | Mount nat
  | Unmount nat
  | Login nat nat login_request
  | Register nat nat register_request
  | Logout nat nat
  | RefreshUser nat nat
  | CompletePasswordChange nat nat
  | Continue nat nat

definition settled_call :: "nat \<Rightarrow> session \<Rightarrow> (js_exn + api_data payload option) option" where
  "settled_call i c = (case calls c i of Some (a, CallSettled out) \<Rightarrow> Some out | _ \<Rightarrow> None)"

definition continue_flow :: "string \<Rightarrow> nat \<Rightarrow> nat \<Rightarrow> session \<Rightarrow> session option" where
  "continue_flow base f i c =
     (case flows (app c) f of
        Some (Restoring k) \<Rightarrow>
          (case refreshes c k of
             Some (RefreshSettled out) \<Rightarrow> if calls c i = None then Some (session_restored base f i out c) else None
           | _ \<Rightarrow> None)
      | Some (CancelledRestore k) \<Rightarrow>
          (case refreshes c k of
             Some (RefreshSettled out) \<Rightarrow> Some (set_flow f (FlowDone (thrown out)) c)
           | _ \<Rightarrow> None)
      | Some (LoadingUser j aft) \<Rightarrow>
          (case settled_call j c of Some out \<Rightarrow> user_loaded f aft out c | None \<Rightarrow> None)
      | Some (LoggingIn j) \<Rightarrow>
          (case settled_call j c of
             Some out \<Rightarrow> if calls c i = None then login_settled base f i out c else None
           | None \<Rightarrow> None)
      | Some (Registering j) \<Rightarrow>
          (case settled_call j c of Some out \<Rightarrow> Some (set_flow f (FlowDone (thrown out)) c) | None \<Rightarrow> None)
      | Some (LoggingOut j) \<Rightarrow>
          (case settled_call j c of Some out \<Rightarrow> Some (logged_out f out c) | None \<Rightarrow> None)
      | _ \<Rightarrow> None)"

definition fresh_ids :: "nat \<Rightarrow> nat \<Rightarrow> session \<Rightarrow> bool" where
  "fresh_ids f i c \<longleftrightarrow> flows (app c) f = None \<and> calls c i = None"

text \<open>Every event names the flow and, where it starts a call, an unused id for it.\<close>

fun auth_step :: "string \<Rightarrow> auth_event \<Rightarrow> session \<Rightarrow> session option" where
  "auth_step base (Client e) c = (if sets_token e then None else step base e c)"
| "auth_step base AppStart c = Some (fst (refreshAccessToken c))"
| "auth_step base (Mount f) c = (if flows (app c) f = None then Some (mount_provider f c) else None)"
| "auth_step base (Unmount f) c = Some (unmount_provider f c)"
| "auth_step base (Login f i body) c =
     (if fresh_ids f i c then Some (start_call base f i (login_call body) (LoggingIn i) c) else None)"
| "auth_step base (Register f i body) c =
     (if fresh_ids f i c then Some (start_call base f i (register_call body) (Registering i) c) else None)"
| "auth_step base (Logout f i) c =
     (if fresh_ids f i c then Some (start_call base f i logout_call (LoggingOut i) c) else None)"
| "auth_step base (RefreshUser f i) c =
     (if fresh_ids f i c then Some (loadCurrentUser base f i Return c) else None)"
| "auth_step base (CompletePasswordChange f i) c =
     (if fresh_ids f i c then Some (loadCurrentUser base f i GoHome c) else None)"
| "auth_step base (Continue f i) c = continue_flow base f i c"

fun auth_run :: "string \<Rightarrow> auth_event list \<Rightarrow> session \<Rightarrow> session option" where
  "auth_run base [] c = Some c"
| "auth_run base (e # es) c = (case auth_step base e c of None \<Rightarrow> None | Some c' \<Rightarrow> auth_run base es c')"

definition initial_app :: "string \<Rightarrow> auth_app" where
  "initial_app path = \<lparr>auth = AuthLoading, location = path, flows = (\<lambda>_. None)\<rparr>"

definition initial_session :: "string \<Rightarrow> session" where
  "initial_session path = initial_client (initial_app path)"

end
