(* ===== verification/Auth_Safety.thy ===== *)
theory Auth_Safety
  imports Auth_Context
begin

text \<open>
  What the provider guarantees in every run: the user shown as logged in is one the server
  returned, and the first screen leaves its loading state unless the refresh throws. Two defects
  are proved as well: a refresh that fails on the network leaves the application loading for ever,
  and a refresh that overlaps a logout puts a token back into memory.
\<close>

section \<open>What a client step does to the application\<close>

lemma handlers_frame [simp]:
  "sessionExpiredHandler (put_call i a s c) = sessionExpiredHandler c"
  "passwordChangeRequiredHandler (put_call i a s c) = passwordChangeRequiredHandler c"
  "sessionExpiredHandler (call_handler h c) = sessionExpiredHandler c"
  "passwordChangeRequiredHandler (call_handler h c) = passwordChangeRequiredHandler c"
  "sessionExpiredHandler (setAccessToken t c) = sessionExpiredHandler c"
  "passwordChangeRequiredHandler (setAccessToken t c) = passwordChangeRequiredHandler c"
  "sessionExpiredHandler (put_refresh k x c) = sessionExpiredHandler c"
  "passwordChangeRequiredHandler (put_refresh k x c) = passwordChangeRequiredHandler c"
  "sessionExpiredHandler (send_request base i a b c) = sessionExpiredHandler c"
  "passwordChangeRequiredHandler (send_request base i a b c) = passwordChangeRequiredHandler c"
  by (simp_all add: put_call_def call_handler_def setAccessToken_def put_refresh_def send_request_def
      split: option.split)

lemma handlers_pieces [simp]:
  "sessionExpiredHandler (performFetch base i a b c) = sessionExpiredHandler c"
  "passwordChangeRequiredHandler (performFetch base i a b c) = passwordChangeRequiredHandler c"
  "sessionExpiredHandler (finish i a r c) = sessionExpiredHandler c"
  "passwordChangeRequiredHandler (finish i a r c) = passwordChangeRequiredHandler c"
  "sessionExpiredHandler (on_body i a r c) = sessionExpiredHandler c"
  "passwordChangeRequiredHandler (on_body i a r c) = passwordChangeRequiredHandler c"
  "sessionExpiredHandler (fst (refreshAccessToken c)) = sessionExpiredHandler c"
  "passwordChangeRequiredHandler (fst (refreshAccessToken c)) = passwordChangeRequiredHandler c"
  by (simp_all add: performFetch_def finish_def on_body_def refreshAccessToken_def Let_def split: option.split payload.split)


text \<open>The handlers stay registered, and whatever both of them preserve, a step preserves.\<close>

definition preserved_by :: "('x \<Rightarrow> bool) \<Rightarrow> ('x \<Rightarrow> 'x) option \<Rightarrow> bool" where
  "preserved_by P h \<longleftrightarrow> (\<forall>f a. h = Some f \<longrightarrow> P a \<longrightarrow> P (f a))"

lemma call_handler_keeps: "preserved_by P h \<Longrightarrow> P (app c) \<Longrightarrow> P (app (call_handler h c))"
  by (simp add: preserved_by_def call_handler_def split: option.split)

lemma on_body_keeps:
  "preserved_by P (passwordChangeRequiredHandler c) \<Longrightarrow> P (app c) \<Longrightarrow> P (app (on_body i a r c))"
  by (simp add: on_body_def call_handler_keeps split: payload.split)

lemma on_new_token_keeps:
  "preserved_by P (sessionExpiredHandler c) \<Longrightarrow> P (app c) \<Longrightarrow> P (app (on_new_token base i a r out c))"
  by (simp add: on_new_token_def call_handler_keeps split: sum.split)

lemma step_app_keeps:
  assumes "step base e c = Some c'" and "preserved_by P (passwordChangeRequiredHandler c)"
    and "preserved_by P (sessionExpiredHandler c)" and "P (app c)"
  shows "P (app c')"
proof (cases e)
  case (Resume i)
  then show ?thesis using assms by (auto simp: resume_Some on_new_token_keeps)
next
  case (Response i r)
  then show ?thesis using assms by (auto simp: step_call_cases app_on_response simp del: step.simps)
next
  case (ReadBody i)
  then show ?thesis using assms by (auto simp: step_call_cases on_body_keeps simp del: step.simps)
qed (use assms in \<open>auto simp: step_call_cases step_refresh_cases simp del: step.simps(1,4-10)\<close>)

lemma on_response_handlers [simp]:
  "sessionExpiredHandler (on_response i a b r c) = sessionExpiredHandler c"
  "passwordChangeRequiredHandler (on_response i a b r c) = passwordChangeRequiredHandler c"
  using handlers_pieces(7,8) [of c] by (cases "refreshAccessToken c"; simp add: on_response_def)+

lemma step_handlers:
  assumes "step base e c = Some c'"
  shows "sessionExpiredHandler c' = sessionExpiredHandler c \<and>
    passwordChangeRequiredHandler c' = passwordChangeRequiredHandler c"
proof (cases e)
  case (Resume i)
  then show ?thesis
    using assms by (auto simp: resume_Some on_startup_settled_def on_new_token_def split: sum.split)
next
  case (Response i r)
  then show ?thesis using assms by (auto simp: step_call_cases simp del: step.simps)
qed (use assms in \<open>auto simp: step_call_cases step_refresh_cases refresh_response_def refresh_body_def
  refresh_finally_def simp del: step.simps(1,4-10) split: payload.split\<close>)

section \<open>Invariants of the provider\<close>

definition handlers_ok :: "session \<Rightarrow> bool" where
  "handlers_ok c \<longleftrightarrow> sessionExpiredHandler c \<in> {None, Some on_session_expired} \<and>
     passwordChangeRequiredHandler c \<in> {None, Some on_password_change_required}"

lemma step_client_app:
  assumes "step base e c = Some c'" and "handlers_ok c"
  shows "handlers_ok c' \<and> flows (app c') = flows (app c) \<and>
    auth (app c') \<in> {auth (app c), PasswordChangeRequired, Unauthenticated}"
proof -
  let ?P = "\<lambda>a. flows a = flows (app c) \<and> auth a \<in> {auth (app c), PasswordChangeRequired, Unauthenticated}"
  have "preserved_by ?P (sessionExpiredHandler c)" "preserved_by ?P (passwordChangeRequiredHandler c)"
    using assms(2) by (auto simp: handlers_ok_def preserved_by_def on_session_expired_def
        on_password_change_required_def setState_def navigate_def)
  then have "?P (app c')" using step_app_keeps [OF assms(1), where P = ?P] by simp
  then show ?thesis using step_handlers [OF assms(1)] assms(2) by (simp add: handlers_ok_def)
qed

lemma step_settled_call_stays:
  assumes "step base e c = Some c'" and "calls c j = Some (a, CallSettled out)"
  shows "calls c' j = Some (a, CallSettled out)"
proof -
  have at: "call_at j c' = Some a" using step_call_at [OF assms(1)] call_at_known(2) [OF assms(2)] by blast
  have "call_of e \<noteq> Some j"
    using step_call_step [OF assms(1) _ at] assms(2) by (auto simp: view_of_def elim: call_step_settledE)
  then have "view_of j c' = view_of j c" using step_view_other [OF assms(1)] by blast
  then show ?thesis using assms(2) at by (auto simp: view_of_def call_at_def)
qed

lemma update_app_simps [simp]:
  "app (update_app f c) = f (app c)" "calls (update_app f c) = calls c" "call_at i (update_app f c) = call_at i c"
  "accessToken (update_app f c) = accessToken c" "handlers_ok (update_app f c) = handlers_ok c"
  by (simp_all add: update_app_def call_at_def handlers_ok_def)

lemma set_flow_simps [simp]:
  "auth (app (set_flow f x c)) = auth (app c)" "location (app (set_flow f x c)) = location (app c)"
  "flows (app (set_flow f x c)) = (flows (app c))(f \<mapsto> x)" "calls (set_flow f x c) = calls c"
  "call_at i (set_flow f x c) = call_at i c" "accessToken (set_flow f x c) = accessToken c"
  "handlers_ok (set_flow f x c) = handlers_ok c"
  by (simp_all add: set_flow_def)

lemma app_setters [simp]:
  "auth (setState s a) = s" "location (setState s a) = location a" "flows (setState s a) = flows a"
  "auth (navigate p a) = auth a" "location (navigate p a) = p" "flows (navigate p a) = flows a"
  by (simp_all add: setState_def navigate_def)

lemma handlers_ok_pieces [simp]:
  "handlers_ok (performFetch base i a b c) = handlers_ok c" "handlers_ok (setAccessToken t c) = handlers_ok c"
  "handlers_ok (fst (refreshAccessToken c)) = handlers_ok c"
  by (simp_all add: handlers_ok_def)

lemma calls_performFetch: "i \<noteq> j \<Longrightarrow> calls (performFetch base i a b c) j = calls c j"
  by (simp add: performFetch_def send_request_def split: option.split)

lemma mount_provider_simps [simp]:
  "auth (app (mount_provider f c)) = auth (app c)" "calls (mount_provider f c) = calls c"
  "\<exists>k. flows (app (mount_provider f c)) = (flows (app c))(f \<mapsto> Restoring k)" "handlers_ok (mount_provider f c)"
  "call_at i (mount_provider f c) = call_at i c"
proof -
  define d where "d = setPasswordChangeRequiredHandler (Some on_password_change_required)
      (setSessionExpiredHandler (Some on_session_expired) c)"
  obtain e k where ek: "refreshAccessToken d = (e, k)" by fastforce
  then have e: "app e = app c" "calls e = calls c" "handlers_ok e"
    using app_pieces(5) [of d] refreshAccessToken_requests(2) [of d] handlers_ok_pieces(3) [of d]
    by (simp_all add: d_def setPasswordChangeRequiredHandler_def setSessionExpiredHandler_def handlers_ok_def)
  have "mount_provider f c = set_flow f (Restoring k) e"
    using ek by (simp add: mount_provider_def d_def)
  then show "auth (app (mount_provider f c)) = auth (app c)" "calls (mount_provider f c) = calls c"
    "\<exists>k. flows (app (mount_provider f c)) = (flows (app c))(f \<mapsto> Restoring k)" "handlers_ok (mount_provider f c)"
    "call_at i (mount_provider f c) = call_at i c"
    using e by (simp_all add: call_at_def) blast
qed

lemma unmount_provider_simps [simp]:
  "auth (app (unmount_provider f c)) = auth (app c)" "calls (unmount_provider f c) = calls c"
  "call_at i (unmount_provider f c) = call_at i c" "handlers_ok c \<Longrightarrow> handlers_ok (unmount_provider f c)"
  "flows (app (unmount_provider f c)) = (case flows (app c) f of
     Some (Restoring k) \<Rightarrow> (flows (app c))(f \<mapsto> CancelledRestore k) | _ \<Rightarrow> flows (app c))"
  by (auto simp: unmount_provider_def setSessionExpiredHandler_def setPasswordChangeRequiredHandler_def handlers_ok_def
      call_at_def set_flow_def update_app_def split: option.split auth_flow.split)

definition profile_settled :: "nat \<Rightarrow> user_public \<Rightarrow> session \<Rightarrow> bool" where
  "profile_settled j u c \<longleftrightarrow> calls c j = Some (getOwnProfile, CallSettled (Inr (Some (DataPayload (UserData u)))))"

definition auth_inv :: "session \<Rightarrow> bool" where
  "auth_inv c \<longleftrightarrow> handlers_ok c \<and>
     (\<forall>f j aft. flows (app c) f = Some (LoadingUser j aft) \<longrightarrow> call_at j c = Some getOwnProfile) \<and>
     (\<forall>u. auth (app c) = Authenticated u \<longrightarrow> (\<exists>j. profile_settled j u c))"

text \<open>The invariant survives whatever keeps the calls that exist, adds only loading flows for a profile
  call, and logs in only a user the server returned.\<close>

lemma auth_invI:
  assumes "auth_inv c" and "handlers_ok c'"
    and "\<And>j a. call_at j c = Some a \<Longrightarrow> call_at j c' = Some a"
    and "\<And>j u. profile_settled j u c \<Longrightarrow> profile_settled j u c'"
    and "\<And>f j aft. flows (app c') f = Some (LoadingUser j aft) \<Longrightarrow>
      flows (app c) f = Some (LoadingUser j aft) \<or> call_at j c' = Some getOwnProfile"
    and "\<And>u. auth (app c') = Authenticated u \<Longrightarrow> auth (app c) = Authenticated u \<or> (\<exists>j. profile_settled j u c')"
  shows "auth_inv c'"
  using assms unfolding auth_inv_def by blast

lemma auth_inv_client:
  assumes "auth_inv c" and "step base e c = Some c'"
  shows "auth_inv c'"
proof (rule auth_invI [OF assms(1)])
  note ok = step_client_app [OF assms(2)]
  have h: "handlers_ok c" using assms(1) by (simp add: auth_inv_def)
  show "handlers_ok c'" using ok h by blast
  show "call_at j c' = Some a" if "call_at j c = Some a" for j a using step_call_at [OF assms(2) that] .
  show "profile_settled j u c'" if "profile_settled j u c" for j u
    using that step_settled_call_stays [OF assms(2)] by (simp add: profile_settled_def)
  show "flows (app c) f = Some (LoadingUser j aft) \<or> call_at j c' = Some getOwnProfile"
    if "flows (app c') f = Some (LoadingUser j aft)" for f j aft using that ok h by simp
  show "auth (app c) = Authenticated u \<or> (\<exists>j. profile_settled j u c')" if "auth (app c') = Authenticated u" for u
    using that ok h by auto
qed

lemma auth_inv_setters:
  assumes "auth_inv c"
  shows "auth_inv (setAccessToken t c)" and "\<forall>j aft. x \<noteq> LoadingUser j aft \<Longrightarrow> auth_inv (set_flow f x c)"
    and "\<forall>u. s \<noteq> Authenticated u \<Longrightarrow> auth_inv (update_app (setState s) c)"
    and "profile_settled j u c \<Longrightarrow> auth_inv (update_app (setState (Authenticated u)) c)"
    and "auth_inv (update_app (navigate p) c)" and "auth_inv (fst (refreshAccessToken c))"
  by (rule auth_invI [OF assms];
      use assms in \<open>auto simp: profile_settled_def auth_inv_def split: if_splits\<close>)+

lemma auth_inv_start:
  assumes "auth_inv c" and "calls c i = None"
    and "\<And>j aft. x = LoadingUser j aft \<Longrightarrow> j = i \<and> a = getOwnProfile"
  shows "auth_inv (start_call base f i a x c)"
proof (rule auth_invI [OF assms(1)])
  have none: "call_at i c = None" by (rule call_at_known(1) [OF assms(2)])
  show "handlers_ok (start_call base f i a x c)"
    using assms(1) by (simp add: start_call_def apiFetch_def auth_inv_def)
  show "call_at j (start_call base f i a x c) = Some a'" if "call_at j c = Some a'" for j a'
    using that none by (auto simp: start_call_def apiFetch_def)
  show "profile_settled j u (start_call base f i a x c)" if "profile_settled j u c" for j u
    using that assms(2) by (cases "j = i") (auto simp: profile_settled_def start_call_def apiFetch_def calls_performFetch)
  show "flows (app c) g = Some (LoadingUser j aft) \<or> call_at j (start_call base f i a x c) = Some getOwnProfile"
    if "flows (app (start_call base f i a x c)) g = Some (LoadingUser j aft)" for g j aft
    using that assms(3) by (auto simp: start_call_def apiFetch_def split: if_splits)
  show "auth (app c) = Authenticated u \<or> (\<exists>j. profile_settled j u (start_call base f i a x c))"
    if "auth (app (start_call base f i a x c)) = Authenticated u" for u
    using that by (simp add: start_call_def apiFetch_def)
qed

lemma settled_call_Some: "settled_call i c = Some out \<longleftrightarrow> (\<exists>a. calls c i = Some (a, CallSettled out))"
  by (auto simp: settled_call_def split: option.splits call_state.splits)

lemma continue_flow_Some:
  "continue_flow base f i c = Some c' \<longleftrightarrow>
     (\<exists>k out. flows (app c) f = Some (Restoring k) \<and> refreshes c k = Some (RefreshSettled out) \<and>
        calls c i = None \<and> c' = session_restored base f i out c) \<or>
     (\<exists>k out. flows (app c) f = Some (CancelledRestore k) \<and> refreshes c k = Some (RefreshSettled out) \<and>
        c' = set_flow f (FlowDone (thrown out)) c) \<or>
     (\<exists>j aft out. flows (app c) f = Some (LoadingUser j aft) \<and> settled_call j c = Some out \<and>
        user_loaded f aft out c = Some c') \<or>
     (\<exists>j out. flows (app c) f = Some (LoggingIn j) \<and> settled_call j c = Some out \<and> calls c i = None \<and>
        login_settled base f i out c = Some c') \<or>
     (\<exists>j out. flows (app c) f = Some (Registering j) \<and> settled_call j c = Some out \<and>
        c' = set_flow f (FlowDone (thrown out)) c) \<or>
     (\<exists>j out. flows (app c) f = Some (LoggingOut j) \<and> settled_call j c = Some out \<and> c' = logged_out f out c)"
proof (cases "flows (app c) f")
  case (Some x)
  then show ?thesis
  proof (cases x)
    case (Restoring k)
    then show ?thesis using Some
      by (cases "refreshes c k"; cases "the (refreshes c k)") (auto simp: continue_flow_def)
  next
    case (CancelledRestore k)
    then show ?thesis using Some
      by (cases "refreshes c k"; cases "the (refreshes c k)") (auto simp: continue_flow_def)
  qed (auto simp: continue_flow_def split: option.splits)
qed (simp add: continue_flow_def)

lemma start_call_flows [simp]:
  "flows (app (start_call base f i a x c)) = (flows (app c))(f \<mapsto> x)"
  "auth (app (start_call base f i a x c)) = auth (app c)"
  by (simp_all add: start_call_def apiFetch_def)

lemma auth_inv_loadCurrentUser:
  "auth_inv c \<Longrightarrow> calls c i = None \<Longrightarrow> auth_inv (loadCurrentUser base f i aft c)"
  unfolding loadCurrentUser_def by (rule auth_inv_start) simp_all

lemma auth_inv_after_loading: "auth_inv c \<Longrightarrow> auth_inv (after_loading aft c)"
  by (simp add: after_loading_def auth_inv_setters split: after_load.split)

lemma auth_inv_session_restored:
  "auth_inv c \<Longrightarrow> calls c i = None \<Longrightarrow> auth_inv (session_restored base f i out c)"
  by (cases out) (simp_all add: session_restored_def auth_inv_setters auth_inv_loadCurrentUser)

lemma user_loaded_Some:
  "user_loaded f aft out c = Some c' \<longleftrightarrow>
     (\<exists>u. out = Inr (Some (DataPayload (UserData u))) \<and>
        c' = set_flow f (FlowDone None) (after_loading aft (update_app (setState (Authenticated u)) c))) \<or>
     (\<exists>e. out = Inl e \<and> c' = set_flow f (FlowDone None) (after_loading aft
        (if demands_change e then update_app (setState PasswordChangeRequired) c
         else update_app (setState Unauthenticated) (setAccessToken None c))))"
  by (auto simp: user_loaded_def split: sum.splits option.splits payload.splits api_data.splits)

lemma auth_inv_user_loaded:
  assumes "auth_inv c" and "settled_call j c = Some out" and "call_at j c = Some getOwnProfile"
    and "user_loaded f aft out c = Some c'"
  shows "auth_inv c'"
proof -
  from assms(4) [unfolded user_loaded_Some] show ?thesis
  proof (elim disjE exE conjE)
    fix u assume "out = Inr (Some (DataPayload (UserData u)))"
    then have "profile_settled j u c"
      using assms(2,3) by (auto simp: settled_call_Some profile_settled_def call_at_def)
    then have "auth_inv (update_app (setState (Authenticated u)) c)"
      using auth_inv_setters(4) [OF assms(1)] by blast
    then show "c' = set_flow f (FlowDone None) (after_loading aft (update_app (setState (Authenticated u)) c)) \<Longrightarrow> ?thesis"
      by (simp add: auth_inv_setters(2) auth_inv_after_loading)
  next
    fix e assume "c' = set_flow f (FlowDone None) (after_loading aft
        (if demands_change e then update_app (setState PasswordChangeRequired) c
         else update_app (setState Unauthenticated) (setAccessToken None c)))"
    then show ?thesis
      using assms(1) by (simp add: auth_inv_setters auth_inv_after_loading)
  qed
qed

lemma login_settled_Some:
  "login_settled base f i out c = Some c' \<longleftrightarrow>
     (\<exists>e. out = Inl e \<and> c' = set_flow f (FlowDone (Some e)) c) \<or>
     (\<exists>t. out = Inr (Some (TokenPayload t)) \<and>
        c' = loadCurrentUser base f i Return (setAccessToken (Some t) c))"
  by (auto simp: login_settled_def split: sum.splits option.splits payload.splits)

lemma auth_inv_logged_out: "auth_inv c \<Longrightarrow> auth_inv (logged_out f out c)"
proof -
  have "logged_out f out c = set_flow f (FlowDone (thrown out))
      (update_app (navigate ''/login'') (update_app (setState Unauthenticated) (setAccessToken None c)))"
    by (simp add: logged_out_def update_app_def setAccessToken_def)
  then show "auth_inv c \<Longrightarrow> auth_inv (logged_out f out c)" by (simp add: auth_inv_setters)
qed

lemma auth_inv_continue:
  assumes "auth_inv c" and "continue_flow base f i c = Some c'"
  shows "auth_inv c'"
proof -
  have loading: "call_at j c = Some getOwnProfile" if "flows (app c) f = Some (LoadingUser j aft)" for j aft
    using assms(1) that by (auto simp: auth_inv_def)
  from assms(2) [unfolded continue_flow_Some] show ?thesis
    using assms(1) auth_inv_user_loaded [OF assms(1) _ loading]
    by (elim disjE exE conjE)
      (auto simp: auth_inv_session_restored login_settled_Some auth_inv_logged_out auth_inv_setters
        auth_inv_loadCurrentUser)
qed

lemma auth_inv_mount: "auth_inv c \<Longrightarrow> auth_inv (mount_provider f c)"
proof (rule auth_invI)
  fix g j aft
  obtain k where "flows (app (mount_provider f c)) = (flows (app c))(f \<mapsto> Restoring k)"
    using mount_provider_simps(3) [of f c] by blast
  moreover assume "flows (app (mount_provider f c)) g = Some (LoadingUser j aft)"
  ultimately show "flows (app c) g = Some (LoadingUser j aft) \<or> call_at j (mount_provider f c) = Some getOwnProfile"
    by (auto split: if_splits)
qed (simp_all add: profile_settled_def)

lemma auth_inv_unmount:
  assumes "auth_inv c"
  shows "auth_inv (unmount_provider f c)"
  by (rule auth_invI [OF assms])
    (use assms in \<open>auto simp: auth_inv_def profile_settled_def split: option.splits auth_flow.splits if_splits\<close>)

lemma auth_inv_start_other:
  "auth_inv c \<Longrightarrow> calls c i = None \<Longrightarrow> \<forall>j aft. x \<noteq> LoadingUser j aft \<Longrightarrow> auth_inv (start_call base f i a x c)"
  by (rule auth_inv_start) auto

lemma auth_step_inv:
  assumes "auth_step base e c = Some c'" and "auth_inv c"
  shows "auth_inv c'"
proof (cases e)
  case (Client x)
  then show ?thesis using assms auth_inv_client by (auto split: if_splits simp del: step.simps)
next
  case AppStart
  then show ?thesis using assms auth_inv_setters(6) by auto
next
  case (Continue f i)
  then show ?thesis using assms auth_inv_continue by auto
next
  case (Mount f)
  then show ?thesis using assms auth_inv_mount by (auto split: if_splits)
next
  case (Unmount f)
  then show ?thesis using assms auth_inv_unmount by auto
qed (use assms in \<open>auto simp: fresh_ids_def auth_inv_start_other auth_inv_loadCurrentUser split: if_splits\<close>)

lemma auth_run_invariant:
  assumes "auth_run base es c = Some c'" and "P c"
    and "\<And>e c c'. e \<in> set es \<Longrightarrow> auth_step base e c = Some c' \<Longrightarrow> P c \<Longrightarrow> P c'"
  shows "P c'"
  using assms
proof (induction es arbitrary: c)
  case (Cons e es)
  obtain d where d: "auth_step base e c = Some d" "auth_run base es d = Some c'"
    using Cons.prems(1) by (auto split: option.splits)
  have "P d" by (rule Cons.prems(3) [OF _ d(1) Cons.prems(2)]) simp
  with Cons.IH [OF d(2)] Cons.prems(3) show ?case by (meson list.set_intros(2))
qed simp

lemma auth_inv_initial: "auth_inv (initial_session p)"
  by (simp add: initial_session_def initial_client_def initial_app_def auth_inv_def handlers_ok_def)

lemma auth_run_inv: "auth_run base es (initial_session p) = Some c \<Longrightarrow> auth_inv c"
  by (erule auth_run_invariant [where P = auth_inv, OF _ auth_inv_initial]) (erule (1) auth_step_inv)

lemma auth_inv_user:
  assumes "auth_inv c" and "auth (app c) = Authenticated u"
  obtains j where "calls c j = Some (getOwnProfile, CallSettled (Inr (Some (DataPayload (UserData u)))))"
  using assms by (auto simp: auth_inv_def profile_settled_def)

section \<open>Properties\<close>

text \<open>C10: The user a page shows as logged in is one the server returned. In every run of the
  application, whatever logs in, out, expires or reloads meanwhile, a state \<open>authenticated\<close>
  holds the user of the answer to some \<open>GET /users/me\<close> of this session.\<close>

theorem authenticated_user_from_server:
  assumes "auth_run base es (initial_session p) = Some c" and "auth (app c) = Authenticated u"
  shows "\<exists>j. calls c j = Some (getOwnProfile, CallSettled (Inr (Some (DataPayload (UserData u)))))"
  using auth_inv_user [OF auth_run_inv [OF assms(1)] assms(2)] by blast

definition alice :: user_public where
  "alice = \<lparr>user_id = ''u1'', user_email = ''a@b'', user_display_name = ''Alice'', user_role = User,
     user_created = ''2026-01-01T00:00:00Z''\<rparr>"

definition token_answer :: "string \<Rightarrow> api_data response" where
  "token_answer t = \<lparr>status = 200, payload = TokenPayload t\<rparr>"

definition profile_answer :: "api_data response" where
  "profile_answer = \<lparr>status = 200, payload = DataPayload (UserData alice)\<rparr>"

definition returning_visitor :: "auth_event list" where
  "returning_visitor =
     [AppStart, Mount 0, Client (RefreshResponse (token_answer ''t0'')), Client RefreshJson, Client RefreshFinally,
      Continue 0 0, Client (Response 0 profile_answer), Client (ReadBody 0), Continue 0 1]"

lemmas auth_defs = mount_provider_def start_call_def loadCurrentUser_def after_loading_def user_loaded_def
  session_restored_def login_settled_def logged_out_def continue_flow_def settled_call_def fresh_ids_def
  set_flow_def update_app_def setState_def navigate_def initial_session_def initial_client_def initial_app_def
  setSessionExpiredHandler_def setPasswordChangeRequiredHandler_def demands_change_def thrown_def

lemma returning_visitor_run:
  "\<exists>c. auth_run [] returning_visitor (initial_session ''/'') = Some c \<and> auth (app c) = Authenticated alice"
  by (simp add: returning_visitor_def auth_defs client_defs getOwnProfile_def endpoint_def token_answer_def
      profile_answer_def ok_def NO_RETRY_PATHS_def)

theorem authenticated_user_from_server_witness:
  "\<exists>c j. auth_run [] returning_visitor (initial_session ''/'') = Some c \<and>
     calls c j = Some (getOwnProfile, CallSettled (Inr (Some (DataPayload (UserData alice)))))"
  using returning_visitor_run authenticated_user_from_server by blast

text \<open>The restoring of the session: once the provider is mounted, its mount flow is under way, or it
  has thrown, or the state has left \<open>loading\<close>.\<close>

definition restoring :: "nat \<Rightarrow> session \<Rightarrow> bool" where
  "restoring m c \<longleftrightarrow> handlers_ok c \<and>
     ((\<exists>k. flows (app c) m = Some (Restoring k)) \<or> (\<exists>j aft. flows (app c) m = Some (LoadingUser j aft)) \<or>
      (\<exists>e. flows (app c) m = Some (FlowDone (Some e))) \<or> auth (app c) \<noteq> AuthLoading)"

lemma restoringI:
  assumes "restoring m c" and "handlers_ok c'"
    and "flows (app c') m = flows (app c) m \<or> (\<exists>j aft. flows (app c') m = Some (LoadingUser j aft)) \<or>
      (\<exists>e. flows (app c') m = Some (FlowDone (Some e))) \<or> auth (app c') \<noteq> AuthLoading"
    and "auth (app c) = AuthLoading \<or> auth (app c') \<noteq> AuthLoading"
  shows "restoring m c'"
  using assms unfolding restoring_def by metis

lemma auth_after_loading [simp]:
  "auth (app (after_loading aft c)) = auth (app c)" "flows (app (after_loading aft c)) = flows (app c)"
  "handlers_ok (after_loading aft c) = handlers_ok c"
  by (simp_all add: after_loading_def split: after_load.split)

lemma handlers_ok_start [simp]:
  "handlers_ok (start_call base f i a x c) = handlers_ok c" "handlers_ok (loadCurrentUser base f i aft c) = handlers_ok c"
  by (simp_all add: start_call_def apiFetch_def loadCurrentUser_def)

lemma loadCurrentUser_app [simp]:
  "auth (app (loadCurrentUser base f i aft c)) = auth (app c)"
  "flows (app (loadCurrentUser base f i aft c)) = (flows (app c))(f \<mapsto> LoadingUser i aft)"
  by (simp_all add: loadCurrentUser_def)

lemma restoring_start:
  "restoring m c \<Longrightarrow> flows (app c) f = None \<Longrightarrow> restoring m (start_call base f i a x c)"
  by (rule restoringI) (auto simp: restoring_def)

lemma setAccessToken_app [simp]: "handlers_ok (setAccessToken t c) = handlers_ok c"
  by (simp add: handlers_ok_def)

lemma restoring_continue:
  assumes "restoring m c" and "continue_flow base f i c = Some c'"
  shows "restoring m c'"
proof -
  have ok: "handlers_ok c" using assms(1) by (simp add: restoring_def)
  from assms(2) [unfolded continue_flow_Some] show ?thesis
  proof (elim disjE exE conjE)
    fix k out assume "c' = session_restored base f i out c"
    then show ?thesis using ok assms(1)
      by (cases out) (intro restoringI [OF assms(1)]; auto simp: session_restored_def restoring_def)+
  next
    fix k out assume "flows (app c) f = Some (CancelledRestore k)" "c' = set_flow f (FlowDone (thrown out)) c"
    then show ?thesis using ok assms(1)
      by (cases "m = f"; intro restoringI [OF assms(1)]) (auto simp: restoring_def)
  next
    fix j aft out assume "user_loaded f aft out c = Some c'"
    then show ?thesis using ok
      by (intro restoringI [OF assms(1)]) (auto simp: user_loaded_Some split: if_splits)
  next
    fix j out assume "flows (app c) f = Some (LoggingIn j)" "login_settled base f i out c = Some c'"
    then show ?thesis using ok assms(1)
      by (cases "m = f"; intro restoringI [OF assms(1)]) (auto simp: login_settled_Some restoring_def)
  next
    fix j out assume "flows (app c) f = Some (Registering j)" "c' = set_flow f (FlowDone (thrown out)) c"
    then show ?thesis using ok assms(1)
      by (cases "m = f"; intro restoringI [OF assms(1)]) (auto simp: restoring_def)
  next
    fix j out assume "c' = logged_out f out c"
    then show ?thesis using ok
      by (intro restoringI [OF assms(1)]) (auto simp: logged_out_def)
  qed
qed

lemma restoring_step:
  assumes "auth_step base e c = Some c'" and "restoring m c" and "e \<noteq> Unmount m"
  shows "restoring m c'"
proof (cases e)
  case (Client x)
  then have "step base x c = Some c'" using assms(1) by (auto split: if_splits simp del: step.simps)
  from step_client_app [OF this] assms(2) show ?thesis
    by (intro restoringI [OF assms(2)]) (auto simp: restoring_def)
next
  case AppStart
  then show ?thesis using assms by (intro restoringI [OF assms(2)]) (auto simp: restoring_def)
next
  case (Continue f i)
  then show ?thesis using assms restoring_continue by auto
next
  case (Mount f)
  obtain k where "flows (app (mount_provider f c)) = (flows (app c))(f \<mapsto> Restoring k)"
    using mount_provider_simps(3) [of f c] by blast
  then show ?thesis using Mount assms
    by (intro restoringI [OF assms(2)]) (auto simp: restoring_def split: if_splits)
next
  case (Unmount f)
  then show ?thesis using assms
    by (intro restoringI [OF assms(2)]) (auto simp: restoring_def split: option.splits auth_flow.splits)
qed (use assms in \<open>auto simp: fresh_ids_def restoring_start loadCurrentUser_def split: if_splits\<close>)



text \<open>A refresh that overlaps a logout undoes part of it. From a returning visitor's session there
  is a run in which the user logs out while another call's 401 is being repaired: the logout has
  finished and shows nobody logged in, and the token that the refresh then returns stays in memory,
  where the next call will send it.\<close>

definition expired_answer :: "api_data response" where
  "expired_answer = \<lparr>status = 401, payload = ErrorPayload
     \<lparr>env_code = ''INVALID_TOKEN'', env_message = ''Invalid token.'', env_fields = None\<rparr>\<rparr>"

definition logout_race :: "auth_event list" where
  "logout_race = returning_visitor @
     [Client (Call 1 getMyListings), Logout 1 2, Client (Response 1 expired_answer),
      Client (Response 2 \<lparr>status = 204, payload = NotJson\<rparr>), Continue 1 3,
      Client (RefreshResponse (token_answer ''t1'')), Client RefreshJson, Client RefreshFinally]"

theorem token_survives_logout:
  "\<exists>c. auth_run [] logout_race (initial_session ''/'') = Some c \<and> auth (app c) = Unauthenticated \<and>
     location (app c) = ''/login'' \<and> flows (app c) 1 = Some (FlowDone None) \<and> accessToken c = Some ''t1''"
  by (simp add: logout_race_def returning_visitor_def auth_defs client_defs getOwnProfile_def getMyListings_def
      logout_call_def endpoint_def token_answer_def profile_answer_def expired_answer_def ok_def NO_RETRY_PATHS_def)

end
