(* ===== verification/App_Start.thy ===== *)
theory App_Start
  imports Auth_Safety
begin

text \<open>
  \<open>src/main.tsx\<close> composed with the provider and the client: the module asks for the session before
  React renders anything; then the first rendering's effects run, those of the pages before those of the
  provider, which is above them; and in development \<open>StrictMode\<close> runs the provider's clean-ups and its
  effects once more. The calls of the pages are given by their ids. A page's query that is in flight is
  shared by the query library when \<open>StrictMode\<close> mounts the page again.
\<close>

section \<open>The start\<close>

definition render_app :: "bool \<Rightarrow> (nat \<times> api_call) list \<Rightarrow> auth_event list" where
  "render_app strict cs =
     map (\<lambda>(i, a). Client (Call i a)) cs @ [Mount 0] @ only_if strict [Unmount 0, Mount 1]"

text \<open>Without its root element the module throws after the first line.\<close>

definition start_app :: "bool \<Rightarrow> bool \<Rightarrow> (nat \<times> api_call) list \<Rightarrow> auth_event list" where
  "start_app hasRoot strict cs = AppStart # only_if hasRoot (render_app strict cs)"

text \<open>The refresh returns a token; the functions that await it go on in the order in which they came to
  await it, the provider's last.\<close>

definition session_answered :: "string \<Rightarrow> auth_event list" where
  "session_answered t =
     [Client (RefreshResponse \<lparr>status = 200, payload = TokenPayload t\<rparr>), Client RefreshJson, Client RefreshFinally]"

definition go_on :: "bool \<Rightarrow> (nat \<times> api_call) list \<Rightarrow> nat \<Rightarrow> auth_event list" where
  "go_on strict cs j =
     map (\<lambda>(i, a). Client (Resume i)) cs @ [Continue 0 j] @ only_if strict [Continue 1 j]"

section \<open>Calls started and resumed in sequence\<close>

lemma auth_run_append:
  "auth_run base (ds @ es) c = (case auth_run base ds c of None \<Rightarrow> None | Some c' \<Rightarrow> auth_run base es c')"
  by (induction ds arbitrary: c) (auto split: option.split)

definition with_calls :: "'s \<Rightarrow> (nat \<times> 'a) list \<Rightarrow> (nat \<Rightarrow> ('a \<times> 's) option) \<Rightarrow> nat \<Rightarrow> ('a \<times> 's) option" where
  "with_calls s cs m = fold (\<lambda>(i, a) m. m(i \<mapsto> (a, s))) cs m"

lemma with_calls_simps [simp]:
  "with_calls s [] m = m" "with_calls s ((i, a) # cs) m = with_calls s cs (m(i \<mapsto> (a, s)))"
  by (simp_all add: with_calls_def)

lemma with_calls_other: "i \<notin> fst ` set cs \<Longrightarrow> with_calls s cs m i = m i"
  by (induction cs arbitrary: m) auto

lemma with_calls_in: "distinct (map fst cs) \<Longrightarrow> (i, a) \<in> set cs \<Longrightarrow> with_calls s cs m i = Some (a, s)"
  by (induction cs arbitrary: m) (auto simp: with_calls_other)

lemma start_calls_waiting:
  assumes "refreshInFlight c = Some k" and "distinct (map fst cs)" and "\<forall>i \<in> fst ` set cs. calls c i = None"
  shows "auth_run base (map (\<lambda>(i, a). Client (Call i a)) cs) c = Some (c\<lparr>calls := with_calls (AwaitStartup k True) cs (calls c)\<rparr>)"
  using assms
proof (induction cs arbitrary: c)
  case (Cons x cs)
  obtain i a where x: "x = (i, a)" by fastforce
  let ?c = "put_call i a (AwaitStartup k True) c"
  have "auth_run base (map (\<lambda>(i, a). Client (Call i a)) cs) ?c = Some (?c\<lparr>calls := with_calls (AwaitStartup k True) cs (calls ?c)\<rparr>)"
    by (rule Cons.IH) (use Cons.prems x in \<open>auto simp: put_call_def\<close>)
  then show ?case
    using Cons.prems x by (simp add: apiFetch_def performFetch_def put_call_def)
qed simp

lemma start_calls_sent:
  assumes "refreshInFlight c = None" and "distinct (map fst cs)" and "\<forall>i \<in> fst ` set cs. calls c i = None"
  shows "auth_run base (map (\<lambda>(i, a). Client (Call i a)) cs) c =
    Some (c\<lparr>calls := with_calls (AwaitResponse True) cs (calls c),
      wire := wire c @ map (\<lambda>(i, a). ApiRequest i (build_request base (accessToken c) a)) cs\<rparr>)"
  using assms
proof (induction cs arbitrary: c)
  case (Cons x cs)
  obtain i a where x: "x = (i, a)" by fastforce
  let ?c = "send_request base i a True c"
  have "auth_run base (map (\<lambda>(i, a). Client (Call i a)) cs) ?c =
    Some (?c\<lparr>calls := with_calls (AwaitResponse True) cs (calls ?c),
      wire := wire ?c @ map (\<lambda>(i, a). ApiRequest i (build_request base (accessToken ?c) a)) cs\<rparr>)"
    by (rule Cons.IH) (use Cons.prems x in \<open>auto simp: put_call_def send_request_def\<close>)
  then show ?case
    using Cons.prems x by (simp add: apiFetch_def performFetch_def put_call_def send_request_def getAccessToken_def)
qed simp

lemma resume_calls:
  assumes "refreshes c k = Some (RefreshSettled (Inr out))" and "distinct (map fst cs)"
    and "\<forall>(i, a) \<in> set cs. calls c i = Some (a, AwaitStartup k True)"
  shows "auth_run base (map (\<lambda>(i, a). Client (Resume i)) cs) c =
    Some (c\<lparr>calls := with_calls (AwaitResponse True) cs (calls c),
      wire := wire c @ map (\<lambda>(i, a). ApiRequest i (build_request base (accessToken c) a)) cs\<rparr>)"
  using assms
proof (induction cs arbitrary: c)
  case (Cons x cs)
  obtain i a where x: "x = (i, a)" by fastforce
  let ?c = "send_request base i a True c"
  have "auth_run base (map (\<lambda>(i, a). Client (Resume i)) cs) ?c =
    Some (?c\<lparr>calls := with_calls (AwaitResponse True) cs (calls ?c),
      wire := wire ?c @ map (\<lambda>(i, a). ApiRequest i (build_request base (accessToken ?c) a)) cs\<rparr>)"
    by (rule Cons.IH) (use Cons.prems x in \<open>force simp: put_call_def send_request_def\<close>)+
  then show ?case
    using Cons.prems x by (simp add: resume_def on_startup_settled_def put_call_def send_request_def getAccessToken_def)
qed simp

section \<open>The start asks once\<close>

definition started :: "string \<Rightarrow> bool \<Rightarrow> (nat \<times> api_call) list \<Rightarrow> session" where
  "started path strict cs =
     (initial_session path)\<lparr>refreshInFlight := Some 0, nextRefresh := 1, refreshes := [0 \<mapsto> RefreshSent],
       wire := [RefreshPost 0], calls := with_calls (AwaitStartup 0 True) cs (\<lambda>_. None),
       sessionExpiredHandler := Some on_session_expired,
       passwordChangeRequiredHandler := Some on_password_change_required,
       app := (initial_app path)\<lparr>flows := (if strict then [0 \<mapsto> CancelledRestore 0, 1 \<mapsto> Restoring 0] else [0 \<mapsto> Restoring 0])\<rparr>\<rparr>"

lemma start_app_run:
  assumes "distinct (map fst cs)"
  shows "auth_run base (start_app True strict cs) (initial_session path) = Some (started path strict cs)"
proof -
  let ?c = "fst (refreshAccessToken (initial_session path))"
  have "refreshInFlight ?c = Some 0" "\<forall>i \<in> fst ` set cs. calls ?c i = None"
    by (simp_all add: refreshAccessToken_def initial_session_def initial_client_def)
  from start_calls_waiting [OF this(1) assms this(2), of base] show ?thesis
    by (cases strict)
      (simp_all add: start_app_def render_app_def auth_run_append started_def mount_provider_def unmount_provider_def
        refreshAccessToken_def initial_session_def initial_client_def initial_app_def set_flow_def update_app_def
        setSessionExpiredHandler_def setPasswordChangeRequiredHandler_def only_if_def)
qed

definition restored :: "string \<Rightarrow> bool \<Rightarrow> (nat \<times> api_call) list \<Rightarrow> string \<Rightarrow> session" where
  "restored path strict cs t =
     (started path strict cs)\<lparr>accessToken := Some t, refreshInFlight := None,
       refreshes := [0 \<mapsto> RefreshSettled (Inr (Some t))]\<rparr>"

lemma session_answered_run:
  "auth_run base (session_answered t) (started path strict cs) = Some (restored path strict cs t)"
  by (simp add: session_answered_def started_def restored_def on_refresh_def refresh_response_def refresh_body_def
      refresh_finally_def put_refresh_def setAccessToken_def ok_def)

lemma go_on_run:
  assumes "distinct (map fst cs)" and "j \<notin> fst ` set cs" and "t \<noteq> []"
  shows "\<exists>c. auth_run base (go_on strict cs j) (restored path strict cs t) = Some c \<and>
    wire c = RefreshPost 0 # map (\<lambda>(i, a). ApiRequest i (build_request base (Some t) a)) cs @
      [ApiRequest j (build_request base (Some t) getOwnProfile)]"
proof -
  let ?c = "restored path strict cs t"
  have "refreshes ?c 0 = Some (RefreshSettled (Inr (Some t)))" by (simp add: restored_def)
  moreover have "\<forall>(i, a) \<in> set cs. calls ?c i = Some (a, AwaitStartup 0 True)"
    using with_calls_in [OF assms(1)] by (auto simp: restored_def started_def)
  ultimately have "auth_run base (map (\<lambda>(i, a). Client (Resume i)) cs) ?c = Some (?c\<lparr>
      calls := with_calls (AwaitResponse True) cs (calls ?c),
      wire := wire ?c @ map (\<lambda>(i, a). ApiRequest i (build_request base (accessToken ?c) a)) cs\<rparr>)"
    using resume_calls assms(1) by blast
  then show ?thesis
    using assms(2,3)
    by (cases strict)
      (simp_all add: go_on_def auth_run_append only_if_def restored_def started_def initial_session_def initial_client_def
        initial_app_def continue_flow_def session_restored_def thrown_def loadCurrentUser_def start_call_def set_flow_def
        update_app_def apiFetch_def performFetch_def send_request_def put_call_def getAccessToken_def with_calls_other)
qed

text \<open>C7: The application starts with one request, and then asks each thing once, as the user it is. Whatever
  the pages ask for in their first rendering, and whether or not \<open>StrictMode\<close> mounts the provider twice,
  the start sends the refresh alone, once; when it returns a token, each of the pages' calls goes out once
  with this token, and the profile is asked for once. Were it not for the first line of \<open>main.tsx\<close>, the
  pages' calls would go out before the refresh and without a token.\<close>

theorem startup_asks_once:
  assumes "distinct (map fst cs)" and "j \<notin> fst ` set cs" and "t \<noteq> []"
  shows "(\<exists>c. auth_run base (start_app True strict cs) (initial_session path) = Some c \<and> wire c = [RefreshPost 0] \<and>
      auth (app c) = AuthLoading) \<and>
    (\<exists>c. auth_run base (start_app True strict cs @ session_answered t @ go_on strict cs j) (initial_session path) = Some c \<and>
      wire c = RefreshPost 0 # map (\<lambda>(i, a). ApiRequest i (build_request base (Some t) a)) cs @
        [ApiRequest j (build_request base (Some t) getOwnProfile)]) \<and>
    (\<exists>c. auth_run base (render_app strict cs) (initial_session path) = Some c \<and>
      wire c = map (\<lambda>(i, a). ApiRequest i (build_request base None a)) cs @ [RefreshPost 0])"
proof (intro conjI)
  show "\<exists>c. auth_run base (start_app True strict cs) (initial_session path) = Some c \<and> wire c = [RefreshPost 0] \<and>
      auth (app c) = AuthLoading"
    using start_app_run [OF assms(1)] by (simp add: started_def initial_app_def)
  show "\<exists>c. auth_run base (start_app True strict cs @ session_answered t @ go_on strict cs j) (initial_session path) = Some c \<and>
      wire c = RefreshPost 0 # map (\<lambda>(i, a). ApiRequest i (build_request base (Some t) a)) cs @
        [ApiRequest j (build_request base (Some t) getOwnProfile)]"
    using go_on_run [OF assms] by (simp only: auth_run_append start_app_run [OF assms(1)] session_answered_run option.case)
  let ?c = "initial_session path"
  have "refreshInFlight ?c = None" "\<forall>i \<in> fst ` set cs. calls ?c i = None"
    by (simp_all add: initial_session_def initial_client_def)
  from start_calls_sent [OF this(1) assms(1) this(2), of base]
  show "\<exists>c. auth_run base (render_app strict cs) ?c = Some c \<and>
      wire c = map (\<lambda>(i, a). ApiRequest i (build_request base None a)) cs @ [RefreshPost 0]"
    by (cases strict)
      (simp_all add: render_app_def auth_run_append mount_provider_def unmount_provider_def refreshAccessToken_def
        initial_session_def initial_client_def initial_app_def set_flow_def update_app_def setSessionExpiredHandler_def
        setPasswordChangeRequiredHandler_def only_if_def)
qed

theorem startup_asks_once_witness:
  "\<exists>c. auth_run [] (start_app True True [(0, getListing ''l1'')] @ session_answered ''t'' @ go_on True [(0, getListing ''l1'')] 1)
      (initial_session ''/listings/l1'') = Some c \<and>
     wire c = [RefreshPost 0, ApiRequest 0 (build_request [] (Some ''t'') (getListing ''l1'')),
       ApiRequest 1 (build_request [] (Some ''t'') getOwnProfile)]"
proof -
  have "distinct (map fst [(0::nat, getListing ''l1'')])" "(1::nat) \<notin> fst ` set [(0, getListing ''l1'')]" "''t'' \<noteq> []"
    by simp_all
  from startup_asks_once [OF this, THEN conjunct2, THEN conjunct1, of "[]" True "''/listings/l1''"] show ?thesis by simp
qed

end
