(* ===== verification/App_Settles.thy ===== *)
theory App_Settles
  imports Auth_Safety
begin

text \<open>
  The session provider on top of the client comes to rest. Every step of the system (an answer, a failure of
  the network, a function going on after its await) uses up some of the work that the user's actions and the
  start have put in; and as long as something is under way, some step can happen.
\<close>

section \<open>Work\<close>

fun call_work :: "'d call_state option \<Rightarrow> nat" where
  "call_work None = 0"
| "call_work (Some (AwaitStartup k b)) = (if b then 9 else 3)"
| "call_work (Some (AwaitResponse b)) = (if b then 8 else 2)"
| "call_work (Some (AwaitNewToken k r)) = 4"
| "call_work (Some (AwaitBody r)) = 1"
| "call_work (Some (CallSettled out)) = 0"

fun flow_work :: "auth_flow option \<Rightarrow> nat" where
  "flow_work (Some (Restoring k)) = 11"
| "flow_work (Some (LoggingIn j)) = 11"
| "flow_work (Some (FlowDone e)) = 0"
| "flow_work None = 0"
| "flow_work (Some _) = 1"

definition refresh_work :: "('app, 'd) client \<Rightarrow> nat" where
  "refresh_work c =
     (case refreshInFlight c of
        None \<Rightarrow> 0
      | Some k \<Rightarrow> (case refreshes c k of None \<Rightarrow> 0 | Some x \<Rightarrow> refresh_rank x))"

abbreviation call_now :: "nat \<Rightarrow> ('app, 'd) client \<Rightarrow> 'd call_state option" where
  "call_now i c \<equiv> fst (view_of i c)"

definition work :: "nat set \<Rightarrow> nat set \<Rightarrow> session \<Rightarrow> nat" where
  "work S F c = (\<Sum>i\<in>S. call_work (call_now i c)) + refresh_work c + (\<Sum>f\<in>F. flow_work (flows (app c) f))"

lemma sum_change:
  assumes "finite S" and "i \<in> S" and "\<And>j. j \<noteq> i \<Longrightarrow> g j = h j"
  shows "sum g S + h i = sum h S + (g i :: nat)"
proof -
  have "sum g (S - {i}) = sum h (S - {i})" by (rule sum.cong) (use assms(3) in auto)
  then show ?thesis using sum.remove [OF assms(1,2), of g] sum.remove [OF assms(1,2), of h] by simp
qed

section \<open>The client's steps\<close>

lemma refresh_work_frame [simp]:
  "refresh_work (put_call i a s c) = refresh_work c" "refresh_work (setAccessToken t c) = refresh_work c"
  "refresh_work (call_handler h c) = refresh_work c" "refresh_work (c\<lparr>app := x\<rparr>) = refresh_work c"
  "refresh_work (send_request base i a b c) = refresh_work c" "refresh_work (performFetch base i a b c) = refresh_work c"
  "refresh_work (finish i a r c) = refresh_work c" "refresh_work (on_body i a r c) = refresh_work c"
proof -
  show put: "refresh_work (put_call i a s c) = refresh_work c" for i a s and c :: "('x, 'y) client"
    by (simp add: refresh_work_def put_call_def split: option.split)
  show "refresh_work (setAccessToken t c) = refresh_work c"
    by (simp add: refresh_work_def setAccessToken_def split: option.split)
  show handler: "refresh_work (call_handler h c) = refresh_work c" for h and c :: "('x, 'y) client"
    by (auto simp: refresh_work_def call_handler_def split: option.split)
  show "refresh_work (c\<lparr>app := x\<rparr>) = refresh_work c" by (simp add: refresh_work_def split: option.split)
  show send: "refresh_work (send_request base i a b c) = refresh_work c" for b and c :: "('x, 'y) client"
    unfolding send_request_def put by (simp add: refresh_work_def split: option.split)
  show "refresh_work (performFetch base i a b c) = refresh_work c"
    by (simp add: performFetch_def send put split: option.split)
  show "refresh_work (finish i a r c) = refresh_work c" by (simp add: finish_def put)
  show "refresh_work (on_body i a r c) = refresh_work c"
    by (simp add: on_body_def put handler split: payload.split)
qed

lemma refresh_work_asks: "refresh_work (fst (refreshAccessToken c)) \<le> refresh_work c + 3"
  by (simp add: refresh_work_def refreshAccessToken_def Let_def split: option.split)

fun system_event :: "'d event \<Rightarrow> bool" where
  "system_event (Call i a) = False"
| "system_event RestoreSession = False"
| "system_event (SetToken t) = False"
| "system_event _ = True"

lemma own_call_work:
  assumes "step base e c = Some c'" and "call_of e = Some i" and "system_event e"
  shows "call_work (call_now i c') + refresh_work c' < call_work (call_now i c) + refresh_work c"
proof (cases e)
  case (Resume j)
  then show ?thesis using assms(1,2)
    by (auto simp: resume_Some on_startup_settled_def on_new_token_def finish_view performFetch_view view_of_def [of i c]
        split: sum.split option.split)
next
  case (Response j r)
  obtain d k where d: "refreshAccessToken c = (d, k)" by fastforce
  then have "refresh_work d \<le> refresh_work c + 3" using refresh_work_asks [of c] by simp
  then show ?thesis using assms(1,2) Response d
    by (auto simp: step_call_cases on_response_def finish_view view_of_def [of i c] simp del: step.simps)
next
  case (ReadBody j)
  obtain a r where c': "calls c i = Some (a, AwaitBody r)" "c' = on_body i a r c"
    using assms(1,2) ReadBody by (auto simp: step_call_cases simp del: step.simps)
  obtain out where "view_of i (on_body i a r c) = (Some (CallSettled out), requests_of i (wire c))"
    using on_body_settles [of i i a r c] by auto
  then show ?thesis using c' by (simp add: view_of_def [of i c])
next
  case (NetworkError j)
  then show ?thesis using assms(1,2)
    by (auto simp: step_call_cases view_of_def [of i c] simp del: step.simps)
qed (use assms in auto)

lemma refresh_event_work:
  assumes "step base e c = Some c'" and "call_of e = None" and "system_event e"
  shows "refresh_work c' < refresh_work c"
proof (cases e)
  case (RefreshResponse r)
  then show ?thesis using assms(1)
    by (auto simp: step_refresh_cases refresh_response_def refresh_work_def put_refresh_def setAccessToken_def simp del: step.simps)
next
  case RefreshJson
  then show ?thesis using assms(1)
    by (auto simp: step_refresh_cases refresh_body_def refresh_work_def put_refresh_def setAccessToken_def simp del: step.simps
        split: payload.split)
next
  case RefreshNetworkError
  then show ?thesis using assms(1)
    by (auto simp: step_refresh_cases refresh_work_def put_refresh_def simp del: step.simps)
next
  case RefreshFinally
  then show ?thesis using assms(1)
    by (auto simp: step_refresh_cases refresh_finally_def refresh_work_def put_refresh_def simp del: step.simps)
qed (use assms in auto)

lemma client_step_work:
  assumes "step base e c = Some c'" and "handlers_ok c" and "finite S" and "set_option (call_of e) \<subseteq> S"
  shows "work S F c' + (if system_event e then 1 else 0) \<le> work S F c + (if system_event e then 0 else 20)"
proof -
  let ?g = "\<lambda>i. call_work (call_now i c')" and ?h = "\<lambda>i. call_work (call_now i c)"
  have flows: "flows (app c') = flows (app c)" using step_client_app [OF assms(1,2)] by blast
  have other: "?g i = ?h i" if "call_of e \<noteq> Some i" for i using step_view_other [OF assms(1) that] by simp
  show ?thesis
  proof (cases "call_of e")
    case None
    then have "sum ?g S = sum ?h S" using other by simp
    moreover have "refresh_work c' < refresh_work c" if "system_event e"
      by (rule refresh_event_work [OF assms(1) None that])
    moreover have "refresh_work c' \<le> refresh_work c + 3" if "\<not> system_event e"
      using that None assms(1) refresh_work_asks [of c] by (cases e) auto
    ultimately show ?thesis using flows by (auto simp: work_def)
  next
    case (Some i)
    then have "sum ?g S + ?h i = sum ?h S + ?g i"
      using assms(4) other by (intro sum_change [OF assms(3)]) auto
    moreover have "?g i + refresh_work c' < ?h i + refresh_work c" if "system_event e"
      by (rule own_call_work [OF assms(1) Some that])
    moreover have "?g i \<le> 9 \<and> refresh_work c' = refresh_work c" if "\<not> system_event e"
      using that Some assms(1) by (cases e) (auto simp: step_call_cases performFetch_view simp del: step.simps split: option.split)
    ultimately show ?thesis using flows by (cases "system_event e") (simp_all add: work_def)
  qed
qed

section \<open>The provider's steps\<close>

lemma work_frame [simp]:
  "refresh_work (update_app g c) = refresh_work c" "refresh_work (set_flow f x c) = refresh_work c"
  "view_of i (update_app g c) = view_of i c" "view_of i (set_flow f x c) = view_of i c"
  by (simp_all add: update_app_def set_flow_def view_of_def)

lemma work_setters [simp]:
  "work S F (setAccessToken t c) = work S F c"
  "work S F (update_app (setState a) c) = work S F c" "work S F (update_app (navigate p) c) = work S F c"
  "work S F (after_loading aft c) = work S F c"
  by (simp_all add: work_def after_loading_def split: after_load.split)

lemma work_set_flow:
  assumes "finite F" and "f \<in> F"
  shows "work S F (set_flow f x c) + flow_work (flows (app c) f) = work S F c + flow_work (Some x)"
  using sum_change [OF assms, of "\<lambda>g. flow_work (flows (app (set_flow f x c)) g)" "\<lambda>g. flow_work (flows (app c) g)"]
  by (simp add: work_def)

lemma work_apiFetch:
  assumes "finite S" and "i \<in> S"
  shows "work S F (apiFetch base i a c) \<le> work S F c + 9"
  using sum_change [OF assms, of "\<lambda>j. call_work (call_now j (apiFetch base i a c))" "\<lambda>j. call_work (call_now j c)"]
  by (auto simp: work_def apiFetch_def performFetch_view split: option.splits)

lemma work_start_call:
  assumes "finite S" and "finite F" and "i \<in> S" and "f \<in> F"
  shows "work S F (start_call base f i a x c) + flow_work (flows (app c) f) \<le> work S F c + 9 + flow_work (Some x)"
  using work_apiFetch [OF assms(1,3), of F base a c] work_set_flow [OF assms(2,4), of S x "apiFetch base i a c"]
  by (simp add: start_call_def apiFetch_def)

lemma work_asks: "work S F (fst (refreshAccessToken c)) \<le> work S F c + 3"
  using refresh_work_asks [of c] by (simp add: work_def)

fun event_calls :: "auth_event \<Rightarrow> nat set" where
  "event_calls (Client e) = set_option (call_of e)"
| "event_calls (Login f i body) = {i}"
| "event_calls (Register f i body) = {i}"
| "event_calls (Logout f i) = {i}"
| "event_calls (RefreshUser f i) = {i}"
| "event_calls (CompletePasswordChange f i) = {i}"
| "event_calls (Continue f i) = {i}"
| "event_calls _ = {}"

fun event_flows :: "auth_event \<Rightarrow> nat set" where
  "event_flows (Mount f) = {f}"
| "event_flows (Unmount f) = {f}"
| "event_flows (Login f i body) = {f}"
| "event_flows (Register f i body) = {f}"
| "event_flows (Logout f i) = {f}"
| "event_flows (RefreshUser f i) = {f}"
| "event_flows (CompletePasswordChange f i) = {f}"
| "event_flows (Continue f i) = {f}"
| "event_flows _ = {}"

text \<open>The steps that nobody takes but the network and the promises.\<close>

fun by_system :: "auth_event \<Rightarrow> bool" where
  "by_system (Client e) = system_event e"
| "by_system (Continue f i) = True"
| "by_system _ = False"

lemma work_handlers [simp]:
  "work S F (setSessionExpiredHandler h c) = work S F c" "work S F (setPasswordChangeRequiredHandler g c) = work S F c"
  by (simp_all add: work_def view_of_def refresh_work_def setSessionExpiredHandler_def setPasswordChangeRequiredHandler_def
      split: option.split)

lemma work_mount:
  assumes "finite F" and "f \<in> F" and "flows (app c) f = None"
  shows "work S F (mount_provider f c) \<le> work S F c + 14"
proof -
  define d where "d = setPasswordChangeRequiredHandler (Some on_password_change_required)
      (setSessionExpiredHandler (Some on_session_expired) c)"
  obtain e k where ek: "refreshAccessToken d = (e, k)" by fastforce
  then have "flows (app e) f = None"
    using app_pieces(5) [of d] assms(3)
    by (simp add: d_def setPasswordChangeRequiredHandler_def setSessionExpiredHandler_def)
  moreover have "work S F e \<le> work S F c + 3" using work_asks [of S F d] ek by (simp add: d_def)
  ultimately show ?thesis
    using work_set_flow [OF assms(1,2), of S "Restoring k" e] ek by (simp add: mount_provider_def d_def)
qed

lemma work_unmount:
  assumes "finite F" and "f \<in> F"
  shows "work S F (unmount_provider f c) \<le> work S F c"
proof (cases "\<exists>k. flows (app c) f = Some (Restoring k)")
  case True
  then obtain k where k: "flows (app c) f = Some (Restoring k)" by blast
  then show ?thesis using work_set_flow [OF assms, of S "CancelledRestore k" c] by (simp add: unmount_provider_def)
next
  case False
  then have "unmount_provider f c = setPasswordChangeRequiredHandler None (setSessionExpiredHandler None c)"
    by (auto simp: unmount_provider_def split: option.split auth_flow.split)
  then show ?thesis by simp
qed

lemma work_logged_out: "work S F (logged_out f out c) = work S F (set_flow f (FlowDone (thrown out)) c)"
  by (simp add: work_def logged_out_def)

lemma work_continue:
  assumes "continue_flow base f i c = Some c'" and "finite S" and "finite F" and "i \<in> S" and "f \<in> F"
  shows "work S F c' + 1 \<le> work S F c"
proof -
  note ended = work_set_flow [OF assms(3,5), of S "FlowDone _"]
  have load: "work S F (loadCurrentUser base f i Return d) + flow_work (flows (app d) f) \<le> work S F d + 10" for d
    using work_start_call [OF assms(2-5), of base getOwnProfile "LoadingUser i Return" d] by (simp add: loadCurrentUser_def)
  from assms(1) [unfolded continue_flow_Some] show ?thesis
  proof (elim disjE exE conjE)
    fix k out assume f: "flows (app c) f = Some (Restoring k)" and c': "c' = session_restored base f i out c"
    show ?thesis
    proof (cases out)
      case (Inl e)
      then show ?thesis using f c' ended [of "Some e" c] by (simp add: session_restored_def)
    next
      case (Inr t)
      then show ?thesis
        using f c' load [of c] ended [of None "update_app (setState Unauthenticated) c"] by (simp add: session_restored_def)
    qed
  next
    fix k out assume "flows (app c) f = Some (CancelledRestore k)" "c' = set_flow f (FlowDone (thrown out)) c"
    then show ?thesis using ended [of "thrown out" c] by simp
  next
    fix j aft out assume f: "flows (app c) f = Some (LoadingUser j aft)" and "user_loaded f aft out c = Some c'"
    then obtain d where "c' = set_flow f (FlowDone None) d" "work S F d = work S F c" "flows (app d) f = flows (app c) f"
      unfolding user_loaded_Some by (elim disjE exE conjE) auto
    then show ?thesis using f ended [of None d] by simp
  next
    fix j out assume f: "flows (app c) f = Some (LoggingIn j)" and "login_settled base f i out c = Some c'"
    then show ?thesis unfolding login_settled_Some
    proof (elim disjE exE conjE)
      fix e assume "c' = set_flow f (FlowDone (Some e)) c"
      then show ?thesis using f ended [of "Some e" c] by simp
    next
      fix t assume "c' = loadCurrentUser base f i Return (setAccessToken (Some t) c)"
      then show ?thesis using f load [of "setAccessToken (Some t) c"] by simp
    qed
  next
    fix j out assume "flows (app c) f = Some (Registering j)" "c' = set_flow f (FlowDone (thrown out)) c"
    then show ?thesis using ended [of "thrown out" c] by simp
  next
    fix j out assume "flows (app c) f = Some (LoggingOut j)" "c' = logged_out f out c"
    then show ?thesis using ended [of "thrown out" c] by (simp add: work_logged_out)
  qed
qed

lemma auth_step_work:
  assumes "auth_step base e c = Some c'" and "handlers_ok c" and "finite S" and "finite F"
    and "event_calls e \<subseteq> S" and "event_flows e \<subseteq> F"
  shows "work S F c' + (if by_system e then 1 else 0) \<le> work S F c + (if by_system e then 0 else 20)"
proof -
  have start: "work S F (start_call base f i a x d) \<le> work S F d + 20"
    if "flow_work (Some x) \<le> 11" "i \<in> S" "f \<in> F" for f i a x d
    using work_start_call [OF assms(3,4) that(2,3), of base a x d] that(1) by simp
  show ?thesis
  proof (cases e)
    case (Client x)
    then have "step base x c = Some c'" "set_option (call_of x) \<subseteq> S" using assms(1,5) by (auto split: if_splits)
    from client_step_work [OF this(1) assms(2,3) this(2)] Client show ?thesis by simp
  next
    case AppStart
    then show ?thesis using work_asks [of S F c] assms(1) by auto
  next
    case (Mount f)
    then show ?thesis using work_mount [OF assms(4), of f c S] assms(1,6) by (auto split: if_splits)
  next
    case (Unmount f)
    then show ?thesis using work_unmount [OF assms(4), of f S c] assms(1,6) by auto
  next
    case (Continue f i)
    then show ?thesis using work_continue [OF _ assms(3,4)] assms(1,5,6) by auto
  qed (use assms(1,5,6) start in \<open>auto simp: loadCurrentUser_def split: if_splits\<close>)
qed

lemma auth_run_work:
  assumes "auth_run base es c = Some c'" and "auth_inv c" and "finite S" and "finite F"
    and "\<forall>e \<in> set es. event_calls e \<subseteq> S \<and> event_flows e \<subseteq> F"
  shows "work S F c' + length (filter by_system es) \<le> work S F c + 20 * length (filter (Not \<circ> by_system) es)"
  using assms(1,2,5)
proof (induction es arbitrary: c)
  case (Cons e es)
  obtain d where d: "auth_step base e c = Some d" "auth_run base es d = Some c'"
    using Cons.prems(1) by (auto split: option.splits)
  have "handlers_ok c" using Cons.prems(2) by (simp add: auth_inv_def)
  from auth_step_work [OF d(1) this assms(3,4)] Cons.prems(3)
  have "work S F d + (if by_system e then 1 else 0) \<le> work S F c + (if by_system e then 0 else 20)" by simp
  with Cons.IH [OF d(2) auth_step_inv [OF d(1) Cons.prems(2)]] Cons.prems(3) show ?case by auto
qed simp

lemma work_initial: "work S F (initial_session p) = 0"
  by (simp add: work_def initial_session_def initial_client_def initial_app_def view_of_def refresh_work_def)

lemma finite_event_ids: "finite (\<Union> (event_calls ` set es))" "finite (\<Union> (event_flows ` set es))"
proof -
  have "finite (event_calls e)" "finite (event_flows e)" for e by (cases e; simp)+
  then show "finite (\<Union> (event_calls ` set es))" "finite (\<Union> (event_flows ` set es))" by simp_all
qed

lemma system_steps_bounded:
  assumes "auth_run base es (initial_session p) = Some c"
  shows "length (filter by_system es) \<le> 20 * length (filter (Not \<circ> by_system) es)"
proof -
  have "\<forall>e \<in> set es. event_calls e \<subseteq> \<Union> (event_calls ` set es) \<and> event_flows e \<subseteq> \<Union> (event_flows ` set es)" by blast
  from auth_run_work [OF assms auth_inv_initial finite_event_ids this] show ?thesis by (simp add: work_initial)
qed

section \<open>Nothing is stuck\<close>

text \<open>What a function in progress awaits exists.\<close>

definition flow_awaits :: "session \<Rightarrow> auth_flow \<Rightarrow> bool" where
  "flow_awaits c x \<longleftrightarrow>
     (case x of
        Restoring k \<Rightarrow> k < nextRefresh c
      | CancelledRestore k \<Rightarrow> k < nextRefresh c
      | LoadingUser j aft \<Rightarrow> calls c j \<noteq> None
      | LoggingIn j \<Rightarrow> calls c j \<noteq> None
      | Registering j \<Rightarrow> calls c j \<noteq> None
      | LoggingOut j \<Rightarrow> calls c j \<noteq> None
      | FlowDone e \<Rightarrow> True)"

definition rest_inv :: "session \<Rightarrow> bool" where
  "rest_inv c \<longleftrightarrow> refresh_inv c \<and> (\<forall>f x. flows (app c) f = Some x \<longrightarrow> flow_awaits c x) \<and> finite {i. calls c i \<noteq> None}"

lemma flow_awaits_mono:
  "flow_awaits c x \<Longrightarrow> nextRefresh c \<le> nextRefresh c' \<Longrightarrow> (\<And>j. calls c j \<noteq> None \<Longrightarrow> calls c' j \<noteq> None) \<Longrightarrow> flow_awaits c' x"
  by (auto simp: flow_awaits_def split: auth_flow.splits)

lemma rest_invI:
  assumes "rest_inv c" and "refresh_inv c'" and "nextRefresh c \<le> nextRefresh c'"
    and "\<And>j. calls c j \<noteq> None \<Longrightarrow> calls c' j \<noteq> None" and "finite A"
    and "\<And>j. j \<notin> A \<Longrightarrow> calls c' j \<noteq> None \<Longrightarrow> calls c j \<noteq> None"
    and "\<And>f x. flows (app c') f = Some x \<Longrightarrow> flows (app c) f = Some x \<or> flow_awaits c' x"
  shows "rest_inv c'"
proof -
  have "finite ({i. calls c i \<noteq> None} \<union> A)" using assms(1,5) by (simp add: rest_inv_def)
  moreover have "{i. calls c' i \<noteq> None} \<subseteq> {i. calls c i \<noteq> None} \<union> A" using assms(6) by blast
  ultimately have "finite {i. calls c' i \<noteq> None}" by (rule finite_subset [rotated])
  moreover have "flow_awaits c' x" if "flows (app c') f = Some x" for f x
    using assms(7) [OF that] assms(1) flow_awaits_mono [OF _ assms(3,4)] by (auto simp: rest_inv_def)
  ultimately show ?thesis using assms(2) by (simp add: rest_inv_def)
qed

lemma call_at_None: "call_at i c = None \<longleftrightarrow> calls c i = None"
  by (auto simp: call_at_def)

lemma rest_client:
  assumes "step base e c = Some c'" and "rest_inv c" and "handlers_ok c"
  shows "rest_inv c'"
proof (rule rest_invI [OF assms(2), where A = "set_option (call_of e)"])
  show "refresh_inv c'" using step_refresh_inv [OF _ assms(1)] assms(2) by (simp add: rest_inv_def)
  show "nextRefresh c \<le> nextRefresh c'" by (rule step_nextRefresh_mono [OF assms(1)])
  show "calls c' j \<noteq> None" if "calls c j \<noteq> None" for j
    using that step_call_at [OF assms(1), of j] by (metis call_at_None not_None_eq)
  show "calls c j \<noteq> None" if "j \<notin> set_option (call_of e)" "calls c' j \<noteq> None" for j
    using that step_view_other [OF assms(1), of j] by (cases "calls c j") (auto simp: view_of_def)
  show "flows (app c) f = Some x \<or> flow_awaits c' x" if "flows (app c') f = Some x" for f x
    using that step_client_app [OF assms(1,3)] by simp
qed simp

lemma rest_frame [simp]:
  "refresh_inv (update_app g c) = refresh_inv c" "nextRefresh (update_app g c) = nextRefresh c"
  "refresh_inv (set_flow f x c) = refresh_inv c" "nextRefresh (set_flow f x c) = nextRefresh c"
  by (simp_all add: update_app_def set_flow_def)

lemma flow_awaits_frame [simp]:
  "flow_awaits (update_app g c) x = flow_awaits c x" "flow_awaits (set_flow f y c) x = flow_awaits c x"
  "flow_awaits (setAccessToken t c) x = flow_awaits c x"
  by (auto simp: flow_awaits_def setAccessToken_def split: auth_flow.split)

lemma rest_setters:
  assumes "rest_inv c"
  shows "flow_awaits c x \<Longrightarrow> rest_inv (set_flow f x c)"
    and "flows (g (app c)) = flows (app c) \<Longrightarrow> rest_inv (update_app g c)"
    and "rest_inv (setAccessToken t c)" and "rest_inv (fst (refreshAccessToken c))"
    and "rest_inv (setSessionExpiredHandler h c)" and "rest_inv (setPasswordChangeRequiredHandler h c)"
proof -
  have inv: "refresh_inv c" using assms by (simp add: rest_inv_def)
  show "flow_awaits c x \<Longrightarrow> rest_inv (set_flow f x c)"
    by (rule rest_invI [OF assms, where A = "{}"]) (use inv in \<open>auto split: if_splits\<close>)
  show "flows (g (app c)) = flows (app c) \<Longrightarrow> rest_inv (update_app g c)"
    by (rule rest_invI [OF assms, where A = "{}"]) (use inv in auto)
  show "rest_inv (setAccessToken t c)"
    by (rule rest_invI [OF assms, where A = "{}"]) (use inv in \<open>auto simp: setAccessToken_def\<close>)
  show "rest_inv (fst (refreshAccessToken c))"
  proof (rule rest_invI [OF assms, where A = "{}"])
    show "refresh_inv (fst (refreshAccessToken c))" using refreshAccessToken_inv(1) [OF inv]
      by (cases "refreshAccessToken c") simp
    show "nextRefresh c \<le> nextRefresh (fst (refreshAccessToken c))"
      by (simp add: refreshAccessToken_def Let_def split: option.split)
  qed simp_all
  show "rest_inv (setSessionExpiredHandler h c)"
    by (rule rest_invI [OF assms, where A = "{}"]) (use inv in \<open>auto simp: setSessionExpiredHandler_def refresh_inv_def\<close>)
  show "rest_inv (setPasswordChangeRequiredHandler h c)"
    by (rule rest_invI [OF assms, where A = "{}"]) (use inv in \<open>auto simp: setPasswordChangeRequiredHandler_def refresh_inv_def\<close>)
qed

lemma calls_apiFetch: "calls (apiFetch base i a c) i \<noteq> None" "j \<noteq> i \<Longrightarrow> calls (apiFetch base i a c) j = calls c j"
  by (simp_all add: apiFetch_def calls_performFetch performFetch_def send_request_def put_call_def split: option.split)

lemma rest_start_call:
  assumes "rest_inv c" and "\<And>d. calls d i \<noteq> None \<Longrightarrow> flow_awaits d x"
  shows "rest_inv (start_call base f i a x c)"
proof -
  have "rest_inv (apiFetch base i a c)"
  proof (rule rest_invI [OF assms(1), where A = "{i}"])
    show "refresh_inv (apiFetch base i a c)" using assms(1) by (simp add: rest_inv_def apiFetch_def refresh_inv_performFetch)
    show "nextRefresh c \<le> nextRefresh (apiFetch base i a c)"
      by (simp add: apiFetch_def performFetch_def send_request_def split: option.split)
    show "calls (apiFetch base i a c) j \<noteq> None" if "calls c j \<noteq> None" for j
      using that calls_apiFetch(1) [of base i a c] calls_apiFetch(2) [of j i base a c] by (cases "j = i") simp_all
    show "calls c j \<noteq> None" if "j \<notin> {i}" "calls (apiFetch base i a c) j \<noteq> None" for j
      using that calls_apiFetch(2) [of j i base a c] by simp
  qed (simp_all add: apiFetch_def)
  then show ?thesis unfolding start_call_def by (rule rest_setters(1)) (rule assms(2) [OF calls_apiFetch(1)])
qed

lemma flow_awaits_calls [simp]:
  "flow_awaits c (LoadingUser j aft) \<longleftrightarrow> calls c j \<noteq> None" "flow_awaits c (LoggingIn j) \<longleftrightarrow> calls c j \<noteq> None"
  "flow_awaits c (Registering j) \<longleftrightarrow> calls c j \<noteq> None" "flow_awaits c (LoggingOut j) \<longleftrightarrow> calls c j \<noteq> None"
  "flow_awaits c (FlowDone e)" "flow_awaits c (Restoring k) \<longleftrightarrow> k < nextRefresh c"
  "flow_awaits c (CancelledRestore k) \<longleftrightarrow> k < nextRefresh c"
  by (simp_all add: flow_awaits_def)

lemma rest_loadCurrentUser: "rest_inv c \<Longrightarrow> rest_inv (loadCurrentUser base f i aft c)"
  unfolding loadCurrentUser_def by (rule rest_start_call) auto

lemma rest_after_loading: "rest_inv c \<Longrightarrow> rest_inv (after_loading aft c)"
  by (simp add: after_loading_def rest_setters split: after_load.split)

lemma rest_continue:
  assumes "continue_flow base f i c = Some c'" and "rest_inv c"
  shows "rest_inv c'"
proof -
  have ended: "rest_inv (set_flow f (FlowDone e) d)" if "rest_inv d" for e d
    by (rule rest_setters(1) [OF that]) simp
  note keep = rest_setters(2,3) rest_after_loading rest_loadCurrentUser ended
  have "rest_inv (session_restored base f i out c)" for out
    using assms(2) by (auto simp: session_restored_def keep split: sum.split)
  moreover have "rest_inv c'" if "user_loaded f aft out c = Some c'" for aft out
    using that [unfolded user_loaded_Some] assms(2) by (auto simp: keep)
  moreover have "rest_inv c'" if "login_settled base f i out c = Some c'" for out
    using that [unfolded login_settled_Some] assms(2) by (auto simp: keep)
  moreover have "rest_inv (logged_out f out c)" for out
    using assms(2) by (simp add: logged_out_def keep)
  ultimately show ?thesis
    using assms(1) [unfolded continue_flow_Some] assms(2) by (elim disjE exE conjE) (auto simp: ended)
qed

lemma rest_mount: "rest_inv c \<Longrightarrow> rest_inv (mount_provider f c)"
proof -
  assume inv: "rest_inv c"
  define d where "d = setPasswordChangeRequiredHandler (Some on_password_change_required)
      (setSessionExpiredHandler (Some on_session_expired) c)"
  obtain e k where ek: "refreshAccessToken d = (e, k)" by fastforce
  have d: "rest_inv d" unfolding d_def by (intro rest_setters inv)
  then have "rest_inv e" using rest_setters(4) [OF d] ek by simp
  moreover have "k < nextRefresh e" using refreshAccessToken_inv(3) [OF _ ek] d by (simp add: rest_inv_def)
  ultimately show "rest_inv (mount_provider f c)" using ek by (simp add: mount_provider_def d_def rest_setters(1))
qed

lemma rest_unmount:
  assumes "rest_inv c"
  shows "rest_inv (unmount_provider f c)"
proof -
  have "rest_inv (set_flow f (CancelledRestore k) c)" if "flows (app c) f = Some (Restoring k)" for k
  proof (rule rest_setters(1) [OF assms])
    have "flow_awaits c (Restoring k)" using assms that unfolding rest_inv_def by blast
    then show "flow_awaits c (CancelledRestore k)" by simp
  qed
  then show ?thesis
    using assms by (auto simp: unmount_provider_def rest_setters(5,6) split: option.split auth_flow.split)
qed

lemma rest_step:
  assumes "auth_step base e c = Some c'" and "rest_inv c" and "handlers_ok c"
  shows "rest_inv c'"
proof (cases e)
  case (Client x)
  then show ?thesis using assms rest_client by (auto split: if_splits simp del: step.simps)
next
  case AppStart
  then show ?thesis using assms rest_setters(4) by auto
next
  case (Mount f)
  then show ?thesis using assms rest_mount by (auto split: if_splits)
next
  case (Unmount f)
  then show ?thesis using assms rest_unmount by auto
next
  case (Continue f i)
  then show ?thesis using assms rest_continue by auto
qed (use assms in \<open>auto simp: rest_start_call rest_loadCurrentUser split: if_splits\<close>)

lemma rest_initial: "rest_inv (initial_session p)"
  using fresh_refresh_inv [OF fresh_initial]
  by (simp add: rest_inv_def initial_session_def initial_client_def initial_app_def)

lemma auth_run_rest:
  assumes "auth_run base es (initial_session p) = Some c"
  shows "rest_inv c"
proof -
  have "auth_inv c \<and> rest_inv c"
    by (rule auth_run_invariant [where P = "\<lambda>c. auth_inv c \<and> rest_inv c", OF assms])
      (use auth_inv_initial rest_initial auth_step_inv rest_step auth_inv_def in blast)+
  then show ?thesis by blast
qed

text \<open>Something is under way: a call, or one of the provider's functions.\<close>

definition under_way :: "session \<Rightarrow> bool" where
  "under_way c \<longleftrightarrow>
     (\<exists>i a s. calls c i = Some (a, s) \<and> (\<forall>out. s \<noteq> CallSettled out)) \<or>
     (\<exists>f x. flows (app c) f = Some x \<and> (\<forall>e. x \<noteq> FlowDone e))"

text \<open>The answers have the types that the code casts them to.\<close>

definition answers_typed :: "session \<Rightarrow> bool" where
  "answers_typed c \<longleftrightarrow>
     (\<forall>f j r. settled_call j c = Some (Inr r) \<longrightarrow>
       (\<forall>aft. flows (app c) f = Some (LoadingUser j aft) \<longrightarrow> (\<exists>u. r = Some (DataPayload (UserData u)))) \<and>
       (flows (app c) f = Some (LoggingIn j) \<longrightarrow> (\<exists>t. r = Some (TokenPayload t))))"

definition can_go_on :: "string \<Rightarrow> session \<Rightarrow> bool" where
  "can_go_on base c \<longleftrightarrow> (\<exists>e c'. by_system e \<and> auth_step base e c = Some c')"

lemma client_goes_on:
  "step base e c = Some c' \<Longrightarrow> system_event e \<Longrightarrow> can_go_on base c"
  unfolding can_go_on_def by (rule exI [of _ "Client e"], cases e) auto

lemma refresh_goes_on:
  assumes "rest_inv c" and "k < nextRefresh c" and "\<And>out. refreshes c k \<noteq> Some (RefreshSettled out)"
  shows "can_go_on base c"
proof -
  obtain x where x: "refreshes c k = Some x" "refresh_open x"
    using assms unfolding rest_inv_def refresh_inv_def by (metis not_None_eq refresh_open.elims(3))
  then have "refreshInFlight c = Some k" using assms(1) unfolding rest_inv_def refresh_inv_def by blast
  then show ?thesis using x
    by (cases x) (auto intro: client_goes_on [of base RefreshNetworkError] client_goes_on [of base RefreshFinally]
        simp: on_refresh_def)
qed

lemma call_goes_on:
  assumes "rest_inv c" and "calls c i = Some (a, s)" and "\<And>out. s \<noteq> CallSettled out"
  shows "can_go_on base c"
proof (cases "awaits s")
  case None
  then have "step base (NetworkError i) c = Some (put_call i a (CallSettled (Inl fetch_failed)) c)"
    using assms(2,3) by (cases s) auto
  then show ?thesis by (rule client_goes_on) simp
next
  case (Some k)
  then have k: "k < nextRefresh c" using assms(1,2) unfolding rest_inv_def refresh_inv_def by blast
  show ?thesis
  proof (cases "\<exists>out. refreshes c k = Some (RefreshSettled out)")
    case True
    then obtain c' where "step base (Resume i) c = Some c'" using resume_enabled [OF assms(2) Some] by blast
    then show ?thesis by (rule client_goes_on) simp
  qed (use refresh_goes_on [OF assms(1) k] in blast)
qed

lemma flow_goes_on:
  assumes "rest_inv c" and "answers_typed c" and "flows (app c) f = Some x" and "\<And>e. x \<noteq> FlowDone e"
  shows "can_go_on base c"
proof -
  have awaits: "flow_awaits c x" using assms(1,3) by (auto simp: rest_inv_def)
  have "\<exists>i. i \<notin> {i. calls c i \<noteq> None}"
    using assms(1) by (intro ex_new_if_finite infinite_UNIV_nat) (simp add: rest_inv_def)
  then obtain i where i: "calls c i = None" by blast
  have continue: "can_go_on base c" if "continue_flow base f i c \<noteq> None"
    using that unfolding can_go_on_def by (intro exI [of _ "Continue f i"]) auto
  have refresh: "can_go_on base c" if "k < nextRefresh c" "x = Restoring k \<or> x = CancelledRestore k" for k
  proof (cases "\<exists>out. refreshes c k = Some (RefreshSettled out)")
    case True
    then show ?thesis using that(2) assms(3) i by (intro continue) (auto simp: continue_flow_def)
  qed (use refresh_goes_on [OF assms(1) that(1)] in blast)
  have call: "can_go_on base c" if j: "calls c j \<noteq> None" and
    x: "x = LoggingIn j \<or> (\<exists>aft. x = LoadingUser j aft) \<or> x = Registering j \<or> x = LoggingOut j" for j
  proof (cases "\<exists>out. settled_call j c = Some out")
    case True
    then obtain out where out: "settled_call j c = Some out" by blast
    have "continue_flow base f i c \<noteq> None"
    proof (cases out)
      case (Inl e)
      then show ?thesis using x assms(3) i out by (auto simp: continue_flow_def login_settled_def user_loaded_def)
    next
      case (Inr r)
      then show ?thesis using x assms(2,3) i out
        by (fastforce simp: answers_typed_def continue_flow_def login_settled_def user_loaded_def)
    qed
    then show ?thesis by (rule continue)
  next
    case False
    then show ?thesis using j call_goes_on [OF assms(1)] by (force simp: settled_call_def split: option.splits call_state.splits)
  qed
  show ?thesis
    using awaits assms(4) refresh call by (cases x) auto
qed

text \<open>C6: The application comes to rest. In every run, whatever the user, the pages, the network and the
  promises do in whatever order, the system takes at most twenty steps for each thing that the user or a
  page starts; and as long as a call or one of the provider's functions is under way, the system has a
  step to take, provided the answers to it are of the types that the code casts them to.\<close>

theorem application_settles:
  assumes "auth_run base es (initial_session p) = Some c"
  shows "length (filter by_system es) \<le> 20 * length (filter (Not \<circ> by_system) es) \<and>
    (answers_typed c \<longrightarrow> under_way c \<longrightarrow> (\<exists>e c'. by_system e \<and> auth_step base e c = Some c'))"
  using system_steps_bounded [OF assms] call_goes_on [OF auth_run_rest [OF assms], of _ _ _ base]
    flow_goes_on [OF auth_run_rest [OF assms], of _ _ base]
  unfolding under_way_def can_go_on_def by metis

theorem application_settles_witness:
  "\<exists>c e c'. auth_run [] [AppStart, Mount 0] (initial_session ''/'') = Some c \<and> by_system e \<and> auth_step [] e c = Some c'"
proof -
  obtain c where c: "auth_run [] [AppStart, Mount 0] (initial_session ''/'') = Some c" "flows (app c) 0 = Some (Restoring 0)"
    "calls c = (\<lambda>_. None)"
    by (simp add: auth_defs client_defs)
  then have "answers_typed c" "under_way c" by (auto simp: answers_typed_def under_way_def settled_call_def)
  with application_settles [OF c(1)] c(1) show ?thesis by blast
qed

end
