(* ===== verification/Vdom.thy ===== *)
theory Vdom
  imports Api_Client
begin

text \<open>
  What a component renders: a tree of DOM elements with the attributes that carry meaning
  (ids, roles, ARIA attributes, \<open>disabled\<close>, values, targets of links), the event handlers
  and the text. Class names and styles are left out unless the code computes with them. A handler
  holds the action that it dispatches; \<open>'a\<close> is the type of the actions of the page.
  \<open>interactions\<close> collects the handlers a user can fire, which leaves out those of disabled
  controls and the submission of a form whose submit button is disabled.
\<close>

datatype tag =
    DIV | SPAN | PARA | H1 | H2 | H3 | HEADER | FOOTER | NAV | MAIN | SECTION | ARTICLE | ASIDE
  | ANCHOR | BUTTON | FORM | LABEL | INPUT | SELECT | OPTION | TEXTAREA | FIELDSET | LEGEND | IMG
  | ULIST | OLIST | LITEM | DLIST | DTERM | DDESC | TABLE | THEAD | TBODY | TROW | THCELL | TDCELL
  | ICON

datatype attr_name =
    At_type | At_href | At_src | At_alt | At_role | At_for | At_id | At_name | At_value | At_placeholder
  | At_autocomplete | At_min | At_max | At_step | At_rows | At_accept | At_inputmode | At_lang
  | At_tabindex | At_disabled | At_required | At_checked | At_multiple | At_loading | At_text
  | At_state | At_inactive | At_label | At_labelledby | At_describedby | At_invalid | At_hidden | At_live
  | At_pressed | At_expanded | At_controls | At_current | At_modal | At_haspopup | At_busy

type_synonym attributes = "(attr_name \<times> string) list"

datatype 'a handler =
    OnClick 'a | OnSubmit 'a | OnChange "string \<Rightarrow> 'a" | OnFiles "js_file list \<Rightarrow> 'a"
  | OnDrop "js_file list \<Rightarrow> 'a" | OnDragOver 'a | OnDragLeave 'a | OnLoad "int \<Rightarrow> int \<Rightarrow> 'a" | OnError 'a

datatype 'a node = Text string | Elem tag attributes "'a handler list" "'a node list"

section \<open>Building elements\<close>

definition true_str :: string where "true_str = ''true''"
definition false_str :: string where "false_str = ''false''"

definition bool_str :: "bool \<Rightarrow> string" where
  "bool_str b = (if b then true_str else false_str)"

text \<open>An attribute that is present or absent, and one whose value may be \<open>undefined\<close>.\<close>

definition flag :: "bool \<Rightarrow> attr_name \<Rightarrow> attributes" where
  "flag b k = only_if b [(k, [])]"

definition opt_attr :: "attr_name \<Rightarrow> string option \<Rightarrow> attributes" where
  "opt_attr k v = (case v of None \<Rightarrow> [] | Some s \<Rightarrow> [(k, s)])"

definition ref_to :: "string \<Rightarrow> string option" where
  "ref_to s = or_undefined s"

abbreviation box :: "tag \<Rightarrow> 'a node list \<Rightarrow> 'a node" where
  "box t \<equiv> Elem t [] []"

abbreviation words_of :: "tag \<Rightarrow> string \<Rightarrow> 'a node" where
  "words_of t s \<equiv> Elem t [] [] [Text s]"

text \<open>The router's \<open>Link\<close> is an anchor.\<close>

definition link_to :: "string \<Rightarrow> 'a node list \<Rightarrow> 'a node" where
  "link_to target kids = Elem ANCHOR [(At_href, target)] [] kids"

definition alert :: "string \<Rightarrow> 'a node" where
  "alert s = Elem PARA [(At_role, ''alert'')] [] [Text s]"

definition status_line :: "string \<Rightarrow> 'a node" where
  "status_line s = Elem PARA [(At_role, ''status'')] [] [Text s]"

section \<open>Reading a tree\<close>

definition enabled :: "attributes \<Rightarrow> bool" where
  "enabled ats \<longleftrightarrow> map_of ats At_disabled = None"

text \<open>The submit buttons below an element, each with whether it is enabled. A form can be
  submitted if it has none, or if its first one is enabled.\<close>

fun submit_buttons :: "'a node \<Rightarrow> bool list" where
  "submit_buttons (Text s) = []"
| "submit_buttons (Elem t ats hs ks) =
     only_if (t = BUTTON \<and> map_of ats At_type = Some ''submit'') [enabled ats] @ concat (map submit_buttons ks)"

definition can_submit :: "'a node list \<Rightarrow> bool" where
  "can_submit ks = (case concat (map submit_buttons ks) of [] \<Rightarrow> True | b # _ \<Rightarrow> b)"

fun is_submit :: "'a handler \<Rightarrow> bool" where
  "is_submit (OnSubmit a) = True"
| "is_submit _ = False"

fun interactions :: "'a node \<Rightarrow> 'a handler list" where
  "interactions (Text s) = []"
| "interactions (Elem t ats hs ks) =
     only_if (enabled ats) (filter (\<lambda>h. is_submit h \<longrightarrow> can_submit ks) hs) @ concat (map interactions ks)"

fun triggers :: "'a handler \<Rightarrow> 'a \<Rightarrow> bool" where
  "triggers (OnClick a) b \<longleftrightarrow> b = a"
| "triggers (OnSubmit a) b \<longleftrightarrow> b = a"
| "triggers (OnChange f) b \<longleftrightarrow> (\<exists>s. b = f s)"
| "triggers (OnFiles f) b \<longleftrightarrow> (\<exists>s. b = f s)"
| "triggers (OnDrop f) b \<longleftrightarrow> (\<exists>s. b = f s)"
| "triggers (OnDragOver a) b \<longleftrightarrow> b = a"
| "triggers (OnDragLeave a) b \<longleftrightarrow> b = a"
| "triggers (OnLoad f) b \<longleftrightarrow> (\<exists>x y. b = f x y)"
| "triggers (OnError a) b \<longleftrightarrow> b = a"

definition offers :: "'a node \<Rightarrow> 'a \<Rightarrow> bool" where
  "offers n a \<longleftrightarrow> (\<exists>h \<in> set (interactions n). triggers h a)"

definition offers_any :: "'a node list \<Rightarrow> 'a \<Rightarrow> bool" where
  "offers_any ns a \<longleftrightarrow> (\<exists>n \<in> set ns. offers n a)"

fun texts :: "'a node \<Rightarrow> string list" where
  "texts (Text s) = [s]"
| "texts (Elem t ats hs ks) = concat (map texts ks)"

fun attrs_of :: "attr_name \<Rightarrow> 'a node \<Rightarrow> string list" where
  "attrs_of k (Text s) = []"
| "attrs_of k (Elem t ats hs ks) =
     (case map_of ats k of None \<Rightarrow> [] | Some v \<Rightarrow> [v]) @ concat (map (attrs_of k) ks)"

abbreviation links :: "'a node \<Rightarrow> string list" where
  "links \<equiv> attrs_of At_href"

text \<open>What assistive technology is told at once: the text of the elements of role \<open>alert\<close>.\<close>

fun alerts :: "'a node \<Rightarrow> string list" where
  "alerts (Text s) = []"
| "alerts (Elem t ats hs ks) =
     (if map_of ats At_role = Some ''alert'' then concat (map texts ks) else concat (map alerts ks))"

section \<open>Rules\<close>

lemma concat_nothing [simp]: "concat (map (\<lambda>x. []) xs) = []"
  by (induction xs) simp_all

lemma flag_simps [simp]: "flag True k = [(k, [])]" "flag False k = []"
  by (simp_all add: flag_def)

lemma opt_attr_simps [simp]: "opt_attr k None = []" "opt_attr k (Some s) = [(k, s)]"
  by (simp_all add: opt_attr_def)

lemma map_of_flag [simp]: "map_of (flag b k) j = (if b \<and> j = k then Some [] else None)"
  by (simp add: flag_def only_if_def)

lemma map_of_opt_attr [simp]: "map_of (opt_attr k v) j = (if j = k then v else None)"
  by (cases v) auto

lemma enabled_simps [simp]:
  "enabled []" "enabled ((k, v) # ats) \<longleftrightarrow> k \<noteq> At_disabled \<and> enabled ats"
  "enabled (xs @ ys) \<longleftrightarrow> enabled xs \<and> enabled ys"
  "enabled (flag b k) \<longleftrightarrow> \<not> b \<or> k \<noteq> At_disabled" "enabled (opt_attr k x) \<longleftrightarrow> x = None \<or> k \<noteq> At_disabled"
  by (auto simp: enabled_def map_of_eq_None_iff)

lemma offers_any_simps [simp]:
  "\<not> offers_any [] a" "offers_any (n # ns) a \<longleftrightarrow> offers n a \<or> offers_any ns a"
  "offers_any (ms @ ns) a \<longleftrightarrow> offers_any ms a \<or> offers_any ns a"
  "offers_any (only_if b ns) a \<longleftrightarrow> b \<and> offers_any ns a"
  by (auto simp: offers_any_def)

lemma offers_any_map: "offers_any (map f xs) a \<longleftrightarrow> (\<exists>x \<in> set xs. offers (f x) a)"
  by (simp add: offers_any_def)

lemma offers_simps [simp]:
  "\<not> offers (Text s) a"
  "offers (Elem t ats hs ks) a \<longleftrightarrow>
     enabled ats \<and> (\<exists>h \<in> set hs. (is_submit h \<longrightarrow> can_submit ks) \<and> triggers h a) \<or> offers_any ks a"
  by (auto simp: offers_def offers_any_def)

text \<open>From here on \<^const>\<open>offers\<close> is computed by these rules.\<close>

lemma can_submit_Cons [simp]:
  "can_submit [] = True"
  "can_submit (Text s # ns) = can_submit ns"
  by (simp_all add: can_submit_def)

lemma offers_link [simp]: "offers (link_to target kids) a \<longleftrightarrow> offers_any kids a"
  by (simp add: link_to_def)

lemma offers_lines [simp]: "\<not> offers (alert s) a" "\<not> offers (status_line s) a"
  by (simp_all add: alert_def status_line_def)

lemma alerts_lines [simp]: "alerts (alert s) = [s]" "alerts (status_line s) = []" "texts (alert s) = [s]"
  "texts (status_line s) = [s]"
  by (simp_all add: alert_def status_line_def)

lemma submit_buttons_lines [simp]:
  "submit_buttons (alert s) = []" "submit_buttons (status_line s) = []"
  "submit_buttons (link_to u ks) = concat (map submit_buttons ks)"
  by (simp_all add: alert_def status_line_def link_to_def)

text \<open>A component inside a page: its actions are embedded into those of the page.\<close>

lemma map_handler_simps [simp]:
  "is_submit (map_handler g h) = is_submit h" "triggers (map_handler g h) a \<longleftrightarrow> (\<exists>b. a = g b \<and> triggers h b)"
  by (cases h; auto)+

lemma submit_buttons_map_node [simp]: "submit_buttons (map_node g n) = submit_buttons n"
proof (induction n)
  case (Elem t ats hs ks)
  then show ?case by (simp add: comp_def cong: map_cong)
qed simp

lemma can_submit_map_node [simp]: "can_submit (map (map_node g) ks) = can_submit ks"
  by (simp add: can_submit_def comp_def)

lemma offers_map_node: "offers (map_node g n) a \<longleftrightarrow> (\<exists>b. a = g b \<and> offers n b)"
proof (induction n)
  case (Elem t ats hs ks)
  then have "offers_any (map (map_node g) ks) a \<longleftrightarrow> (\<exists>b. a = g b \<and> offers_any ks b)"
    by (auto simp: offers_any_def)
  then show ?case by auto
qed simp

lemma texts_map_node [simp]: "texts (map_node g n) = texts n"
  by (induction n) (simp_all add: comp_def cong: map_cong)

lemma alerts_map_node [simp]: "alerts (map_node g n) = alerts n"
  by (induction n) (simp_all add: comp_def cong: map_cong)

end
