(* ===== verification/Ui_Components.thy ===== *)
theory Ui_Components
  imports Vdom Listing_Labels
begin

text \<open>
  The shared components of \<open>src/components\<close> as functions from their properties to trees.
  An attribute list is searched from the front, so where the code spreads the remaining
  properties last, which overrides, they come first here. A generated id (\<open>useId\<close>) is an argument.
\<close>

section \<open>Buttons and badges\<close>

definition cn :: "string option list \<Rightarrow> string" where
  "cn classes = join_with '' '' (List.map_filter (\<lambda>c. case c of Some s \<Rightarrow> or_undefined s | None \<Rightarrow> None) classes)"

definition loader_icon :: "'a node" where
  "loader_icon = Elem ICON [(At_hidden, true_str)] [] []"

definition Button ::
    "string option \<Rightarrow> bool \<Rightarrow> bool \<Rightarrow> attributes \<Rightarrow> 'a handler list \<Rightarrow> 'a node list \<Rightarrow> 'a node" where
  "Button ty isLoading disabled rest hs children =
     Elem BUTTON
       (rest @ [(At_type, case ty of Some t \<Rightarrow> t | None \<Rightarrow> ''button'')] @
        flag (disabled \<or> isLoading) At_disabled @
        opt_attr At_busy (if isLoading then Some true_str else None))
       hs
       (only_if isLoading [loader_icon] @ children)"

abbreviation action_button :: "bool \<Rightarrow> bool \<Rightarrow> 'a \<Rightarrow> string \<Rightarrow> 'a node" where
  "action_button isLoading disabled a s \<equiv> Button None isLoading disabled [] [OnClick a] [Text s]"

abbreviation submit_button :: "bool \<Rightarrow> string \<Rightarrow> 'a node" where
  "submit_button isLoading s \<equiv> Button (Some ''submit'') isLoading False [] [] [Text s]"

text \<open>The plain \<open><button type="button">\<close> that several components draw themselves.\<close>

definition plain_button :: "attributes \<Rightarrow> 'a \<Rightarrow> string \<Rightarrow> 'a node" where
  "plain_button ats a s = Elem BUTTON (ats @ [(At_type, ''button'')]) [OnClick a] [Text s]"

definition Badge :: "badge_tone \<Rightarrow> bool \<Rightarrow> 'a node list \<Rightarrow> 'a node" where
  "Badge tone dot children =
     box SPAN
       (only_if dot [Elem SPAN [(At_hidden, true_str),
          (At_state, case tone of Success \<Rightarrow> ''disc'' | Neutral \<Rightarrow> ''ring'' | Danger \<Rightarrow> ''cross'')] [] []] @ children)"

section \<open>Form fields\<close>

record 'a input_props =
  in_label :: string
  in_id :: string
  in_error :: "string option"
  in_hint :: "string option"
  in_required :: bool
  in_icon :: bool
  in_rest :: attributes
  in_handlers :: "'a handler list"

definition input_defaults :: "string \<Rightarrow> string \<Rightarrow> 'a input_props" where
  "input_defaults uid label =
     \<lparr>in_label = label, in_id = uid, in_error = None, in_hint = None, in_required = False, in_icon = False,
      in_rest = [], in_handlers = []\<rparr>"

definition described_by :: "string \<Rightarrow> string option \<Rightarrow> string option \<Rightarrow> string option" where
  "described_by uid error hint =
     or_undefined (cn [if truthy error then Some (uid @ ''-error'') else None,
                       if truthy hint \<and> \<not> truthy error then Some (uid @ ''-hint'') else None])"

definition required_mark :: "'a node" where
  "required_mark = Elem SPAN [(At_hidden, true_str)] [] [Text ''*'']"

definition field_notes :: "string \<Rightarrow> string option \<Rightarrow> string option \<Rightarrow> 'a node list" where
  "field_notes uid error hint =
     (case hint of Some h \<Rightarrow> only_if (h \<noteq> [] \<and> \<not> truthy error) [Elem PARA [(At_id, uid @ ''-hint'')] [] [Text h]]
      | None \<Rightarrow> []) @
     (case error of Some e \<Rightarrow> only_if (e \<noteq> [])
        [Elem PARA [(At_id, uid @ ''-error''), (At_role, ''alert'')] [] [Text e]] | None \<Rightarrow> [])"

definition Input :: "'a input_props \<Rightarrow> 'a node" where
  "Input p =
     box DIV
      ([Elem LABEL [(At_for, in_id p)] [] (Text (in_label p) # only_if (in_required p) [required_mark]),
        box DIV
          (only_if (in_icon p) [Elem ICON [(At_hidden, true_str)] [] []] @
           [Elem INPUT
              (in_rest p @ [(At_id, in_id p)] @ flag (in_required p) At_required @
               opt_attr At_invalid (if truthy (in_error p) then Some true_str else None) @
               opt_attr At_describedby (described_by (in_id p) (in_error p) (in_hint p)))
              (in_handlers p) []])] @
       field_notes (in_id p) (in_error p) (in_hint p))"

definition option_node :: "string \<times> string \<Rightarrow> 'a node" where
  "option_node o' = Elem OPTION [(At_value, fst o')] [] [Text (snd o')]"

definition select_options :: "string option \<Rightarrow> (string \<times> string) list \<Rightarrow> 'a node list" where
  "select_options placeholder options =
     (case placeholder of Some s \<Rightarrow> only_if (s \<noteq> []) [option_node ([], s)] | None \<Rightarrow> []) @ map option_node options"

definition Select :: "'a input_props \<Rightarrow> (string \<times> string) list \<Rightarrow> string option \<Rightarrow> 'a node" where
  "Select p options placeholder =
     box DIV
      ([Elem LABEL [(At_for, in_id p)] [] (Text (in_label p) # only_if (in_required p) [required_mark]),
        Elem SELECT
          (in_rest p @ [(At_id, in_id p)] @ flag (in_required p) At_required @
           opt_attr At_invalid (if truthy (in_error p) then Some true_str else None) @
           opt_attr At_describedby (described_by (in_id p) (in_error p) (in_hint p)))
          (in_handlers p)
          (select_options placeholder options)] @
       field_notes (in_id p) (in_error p) (in_hint p))"

section \<open>Text blocks\<close>

text \<open>\<open>toLowerCase\<close> on ASCII letters.\<close>

definition lower_ascii :: "string \<Rightarrow> string" where
  "lower_ascii s = map (\<lambda>c. if 65 \<le> code c \<and> code c \<le> 90 then char_of (code c + 32) else c) s"

definition middle_dot :: string where "middle_dot = [CHR '' '', CHR 0xB7, CHR '' '']"
definition times_sign :: string where "times_sign = [CHR 0xD7]"

definition opt_node :: "string option \<Rightarrow> (string \<Rightarrow> 'a node) \<Rightarrow> 'a node list" where
  "opt_node v f = (case v of Some s \<Rightarrow> only_if (s \<noteq> []) [f s] | None \<Rightarrow> [])"

definition EmptyState :: "string \<Rightarrow> string option \<Rightarrow> 'a node option \<Rightarrow> 'a node" where
  "EmptyState title description action =
     box DIV ([words_of H2 title] @ opt_node description (words_of PARA) @
       (case action of Some n \<Rightarrow> [box DIV [n]] | None \<Rightarrow> []))"

definition PageHeader :: "string \<Rightarrow> string option \<Rightarrow> 'a node list \<Rightarrow> 'a node" where
  "PageHeader title description actions =
     box DIV ([box DIV ([words_of H1 title] @ opt_node description (words_of PARA))] @
       only_if (actions \<noteq> []) [box DIV actions])"

definition AuthShell :: "'a node list \<Rightarrow> 'a node" where
  "AuthShell children = box DIV children"

definition Logo :: "'a node" where
  "Logo = box SPAN [Text ''Punah'', words_of SPAN ''-'', Text ''Pustak'']"

definition AdminNav :: "'a node" where
  "AdminNav = Elem NAV [(At_label, ''Admin section'')] []
     [link_to ''/admin/users'' [Text ''Users''], link_to ''/admin/listings'' [Text ''Listings'']]"

definition Skeleton :: "'a node" where
  "Skeleton = Elem DIV [(At_hidden, true_str)] [] []"

definition ListingCardSkeleton :: "'a node" where
  "ListingCardSkeleton = box DIV [Skeleton,
     box DIV [box DIV [Skeleton, Skeleton, Skeleton], box DIV [Skeleton, Skeleton]]]"

definition ListingGridSkeleton :: "nat \<Rightarrow> 'a node" where
  "ListingGridSkeleton count = box DIV (replicate count ListingCardSkeleton)"

definition ListingDetailSkeleton :: "'a node" where
  "ListingDetailSkeleton = box DIV [Skeleton,
     box DIV [Skeleton, Skeleton, Skeleton, Skeleton, Skeleton, box DIV [Skeleton, Skeleton, Skeleton]]]"

section \<open>Loading, error and empty states\<close>

definition QueryState ::
    "bool \<Rightarrow> js_exn option \<Rightarrow> bool \<Rightarrow> string \<Rightarrow> 'a node option \<Rightarrow> 'a node option \<Rightarrow> 'a node list \<Rightarrow> 'a node list" where
  "QueryState isLoading error isEmpty emptyMessage emptyState loadingSkeleton children =
     (if isLoading then
        (case loadingSkeleton of
           Some n \<Rightarrow> [Elem DIV [(At_role, ''status''), (At_label, ''Loading'')] [] [n]]
         | None \<Rightarrow> [status_line ''Loading...''])
      else case error of Some e \<Rightarrow> [alert (getErrorMessage e)]
      | None \<Rightarrow>
        if isEmpty then (case emptyState of Some n \<Rightarrow> [n] | None \<Rightarrow> [words_of PARA emptyMessage])
        else children)"

section \<open>Choices and pages\<close>

definition SegmentedFilter :: "string \<Rightarrow> (string \<times> string) list \<Rightarrow> string \<Rightarrow> (string \<Rightarrow> 'a) \<Rightarrow> 'a node" where
  "SegmentedFilter label options value onChange =
     Elem DIV [(At_role, ''group''), (At_label, label)] []
       (map (\<lambda>(v, l). plain_button [(At_pressed, bool_str (value = v))] (onChange v) l) options)"

text \<open>\<open>Math.max(1, Math.ceil(total / pageSize))\<close>.\<close>

definition total_pages :: "int \<Rightarrow> int \<Rightarrow> int" where
  "total_pages count pageSize = max 1 (- ((- count) div pageSize))"

definition int_text :: "int \<Rightarrow> string" where
  "int_text n = (if n < 0 then ''-'' @ digits_of (- n) else digits_of n)"

definition Pagination :: "int \<Rightarrow> int \<Rightarrow> int \<Rightarrow> (int \<Rightarrow> 'a) \<Rightarrow> 'a node list" where
  "Pagination page pageSize count onPageChange =
     (let totalPages = total_pages count pageSize in
      if totalPages \<le> 1 then []
      else
        [Elem NAV [(At_label, ''Pagination'')] []
          [words_of SPAN (''Page '' @ int_text page @ '' of '' @ int_text totalPages),
           box SPAN
             [Button None False (page \<le> 1) [(At_label, ''Previous page'')] [OnClick (onPageChange (page - 1))]
                [Text ''Previous''],
              Button None False (totalPages \<le> page) [(At_label, ''Next page'')] [OnClick (onPageChange (page + 1))]
                [Text ''Next'']]]])"

definition ConditionMeter :: "listing_condition \<Rightarrow> 'a node" where
  "ConditionMeter condition =
     (let score = CONDITION_SCORE condition in
      box SPAN
        [Elem SPAN [(At_hidden, true_str)] []
           (map (\<lambda>index. Elem SPAN (only_if (int index < score) [(At_state, ''filled'')]) [] []) [0..<5]),
         box SPAN [words_of SPAN ''Condition: '', Text (condition_label condition)]])"

section \<open>Dialogs\<close>

datatype modal_variant = Dialog | Sheet | Lightbox

definition Modal :: "string \<Rightarrow> bool \<Rightarrow> 'a \<Rightarrow> string \<Rightarrow> modal_variant \<Rightarrow> 'a node list \<Rightarrow> 'a node list" where
  "Modal titleId isOpen onClose title variant children =
     (if \<not> isOpen then []
      else if variant = Lightbox then
        [Elem DIV [(At_role, ''dialog''), (At_modal, true_str), (At_labelledby, titleId), (At_tabindex, ''-1'')] []
          ([box DIV [Elem H2 [(At_id, titleId)] [] [Text title], plain_button [] onClose ''Close'']] @ children)]
      else
        [Elem DIV [] [OnClick onClose]
          [Elem DIV [(At_role, ''dialog''), (At_modal, true_str), (At_labelledby, titleId), (At_tabindex, ''-1'')] []
            [box DIV ([Elem H2 [(At_id, titleId)] [] [Text title]] @
               only_if (variant = Sheet) [plain_button [] onClose ''Close'']),
             box DIV children]]])"

section \<open>Photos and cards\<close>

datatype photo_size = Grid | Thumb | Stage

definition no_photo_label :: "bool \<Rightarrow> 'a node" where
  "no_photo_label announce =
     Elem SPAN (opt_attr At_hidden (if announce then None else Some true_str)) [] [Text ''No photo yet'']"

definition NoCoverPlaceholder :: "string \<Rightarrow> string \<Rightarrow> photo_size \<Rightarrow> bool \<Rightarrow> 'a node" where
  "NoCoverPlaceholder title author tile announce =
     (case tile of
        Thumb \<Rightarrow> box DIV ([box DIV []] @ only_if announce [words_of SPAN ''No photo yet''])
      | Stage \<Rightarrow> box DIV [box DIV [no_photo_label announce,
          words_of PARA (''The seller hasn't added a photo of this copy. Judge it by the condition grade and the '' @
                         ''seller's note.'')]]
      | Grid \<Rightarrow> box DIV [box DIV [no_photo_label announce,
          Elem SPAN [(At_hidden, true_str)] []
            [Elem SPAN [(At_text, title)] [] [], Elem SPAN [(At_text, author)] [] []]]])"

datatype photo_load = Loading | Loaded | Failed

record photo_state =
  photo_load :: photo_load
  photo_ratio :: rat

definition initial_photo :: photo_state where
  "initial_photo = \<lparr>photo_load = Loading, photo_ratio = 1\<rparr>"

definition STAGE_MIN_RATIO :: rat where "STAGE_MIN_RATIO = 3 / 4"
definition STAGE_MAX_RATIO :: rat where "STAGE_MAX_RATIO = 4 / 3"

text \<open>The quotient of two sizes is exact here; a height of zero makes it infinite.\<close>

definition handleLoaded :: "int \<Rightarrow> int \<Rightarrow> photo_state \<Rightarrow> photo_state" where
  "handleLoaded naturalWidth naturalHeight s =
     (if naturalWidth = 0 then s\<lparr>photo_load := Failed\<rparr>
      else
        s\<lparr>photo_ratio :=
            (if naturalHeight = 0 then STAGE_MAX_RATIO
             else min (max (of_int naturalWidth / of_int naturalHeight) STAGE_MIN_RATIO) STAGE_MAX_RATIO),
          photo_load := Loaded\<rparr>)"

definition photo_error :: "photo_state \<Rightarrow> photo_state" where
  "photo_error s = s\<lparr>photo_load := Failed\<rparr>"

datatype photo_action = Photo_loaded int int | Photo_failed

fun photo_step :: "photo_action \<Rightarrow> photo_state \<Rightarrow> photo_state" where
  "photo_step (Photo_loaded w h) s = handleLoaded w h s"
| "photo_step Photo_failed s = photo_error s"

definition PhotoFrame ::
    "(photo_action \<Rightarrow> 'a) \<Rightarrow> photo_state \<Rightarrow> (string \<times> string) option \<Rightarrow> string \<Rightarrow> string \<Rightarrow> photo_size \<Rightarrow> bool \<Rightarrow> bool \<Rightarrow> 'a node" where
  "PhotoFrame act s img title author variant inactive announceNoPhoto =
     (case img of
        Some (url, alt) \<Rightarrow>
          if photo_load s = Failed then NoCoverPlaceholder title author variant announceNoPhoto
          else box DIV [box DIV [Elem IMG
            ([(At_src, url), (At_alt, alt)] @ only_if (variant \<noteq> Stage) [(At_loading, ''lazy'')] @
             [(At_state, if photo_load s = Loading then ''invisible'' else ''animate-photo-in'')] @
             flag inactive At_inactive)
            [OnLoad (\<lambda>w h. act (Photo_loaded w h)), OnError (act Photo_failed)] []]]
      | None \<Rightarrow> NoCoverPlaceholder title author variant announceNoPhoto)"

definition ListingCard ::
    "(photo_action \<Rightarrow> 'a) \<Rightarrow> photo_state \<Rightarrow> bool \<Rightarrow> bool \<Rightarrow> bool \<Rightarrow> 'l listing_public_scheme \<Rightarrow> 'a node" where
  "ListingCard act ph showStatus showSeller showNote l =
     (let firstImage = (case listing_images l of [] \<Rightarrow> None | i # _ \<Rightarrow> Some i);
          isInactive = (listing_status l \<noteq> Available);
          note = trim (listing_description l);
          photos = length (listing_images l)
      in link_to (''/listings/'' @ listing_id l)
        [PhotoFrame act ph
           (case firstImage of None \<Rightarrow> None
            | Some i \<Rightarrow> Some (image_url i, listing_title l @ '' by '' @ listing_author l))
           (listing_title l) (listing_author l) Grid (showStatus \<and> isInactive) False,
         box DIV
           ([box DIV [words_of H3 (listing_title l), words_of PARA (listing_author l)],
             box PARA [words_of SPAN (formatPrice (listing_price l)), ConditionMeter (listing_condition l)]] @
            only_if (firstImage = None) [words_of SPAN '', no photo yet''] @
            only_if (showSeller \<or> 1 < photos)
              [box PARA
                 ([box SPAN (only_if showSeller [Text (''from '' @ seller_display_name l)])] @
                  only_if (1 < photos) [words_of SPAN (int_text (int photos) @ '' photos'')])] @
            only_if (showNote \<and> isSubstantiveNote note) [words_of PARA (''\"'' @ note @ ''\"'')] @
            only_if (showStatus \<and> isInactive) [words_of PARA (status_label (listing_status l))])])"

definition Footer :: "bool \<Rightarrow> 'a node" where
  "Footer isAuthenticated =
     box FOOTER [box DIV
       [Logo,
        box PARA [Elem SPAN [(At_lang, ''sa-Latn'')] [] [Text ''punah''], Text '', again; '',
          Elem SPAN [(At_lang, ''sa-Latn'')] [] [Text ''pustak''],
          Text '', book. Exchange happens between you and the seller, off-site.''],
        Elem NAV [(At_label, ''Footer'')] []
          [link_to ''/listings'' [Text ''Browse''],
           link_to ''/listings/new'' [Text ''List a copy''],
           (if isAuthenticated then link_to ''/my-listings'' [Text ''My listings'']
            else link_to ''/login'' [Text ''Log in''])]]]"

section \<open>What the components offer\<close>

text \<open>These rules compute, for each component, the actions it offers, the buttons that submit and the
  alerts it raises, so that the pages need not unfold the components.\<close>

lemma loader_icon_simps [simp]:
  "\<not> offers loader_icon a" "submit_buttons loader_icon = []" "alerts loader_icon = []" "texts loader_icon = []"
  by (simp_all add: loader_icon_def)

lemma offers_Button [simp]:
  "enabled rest \<Longrightarrow> offers (Button ty l d rest hs ks) a \<longleftrightarrow>
     \<not> d \<and> \<not> l \<and> (\<exists>h \<in> set hs. (is_submit h \<longrightarrow> can_submit (only_if l [loader_icon] @ ks)) \<and> triggers h a) \<or> offers_any ks a"
  by (auto simp: Button_def)

lemma submit_buttons_Button [simp]:
  "map_of rest At_type = None \<Longrightarrow> enabled rest \<Longrightarrow>
   submit_buttons (Button ty l d rest hs [Text s]) = (if ty = Some ''submit'' then [\<not> d \<and> \<not> l] else [])"
  by (cases l; cases ty) (auto simp: Button_def only_if_def map_add_def)

lemma alerts_Button [simp]:
  "map_of rest At_role = None \<Longrightarrow> alerts (Button ty l d rest hs [Text s]) = []"
  by (cases l) (simp_all add: Button_def map_add_def)

lemma plain_button_simps [simp]:
  "enabled ats \<Longrightarrow> offers (plain_button ats a s) b \<longleftrightarrow> b = a"
  "map_of ats At_type = None \<Longrightarrow> submit_buttons (plain_button ats a s) = []"
  by (simp_all add: plain_button_def map_add_def)

lemma required_mark_simps [simp]:
  "\<not> offers required_mark a" "submit_buttons required_mark = []" "alerts required_mark = []"
  by (simp_all add: required_mark_def)

lemma field_notes_simps [simp]:
  "\<not> offers_any (field_notes uid e h) a" "concat (map submit_buttons (field_notes uid e h)) = []"
  "concat (map alerts (field_notes uid e h)) = (case e of Some s \<Rightarrow> only_if (s \<noteq> []) [s] | None \<Rightarrow> [])"
  by (auto simp: field_notes_def only_if_def split: option.splits)

lemma Input_simps [simp]:
  "offers (Input p) a \<longleftrightarrow> enabled (in_rest p) \<and> (\<exists>h \<in> set (in_handlers p). triggers h a)"
  "submit_buttons (Input p) = []"
  by (auto simp: Input_def only_if_def)

lemma alerts_Input [simp]:
  "map_of (in_rest p) At_role = None \<Longrightarrow>
   alerts (Input p) = (case in_error p of Some s \<Rightarrow> only_if (s \<noteq> []) [s] | None \<Rightarrow> [])"
  by (simp add: Input_def only_if_def map_add_def split: option.split)

lemma option_node_simps [simp]:
  "\<not> offers (option_node x) a" "submit_buttons (option_node x) = []" "alerts (option_node x) = []"
  by (simp_all add: option_node_def)

lemma select_options_simps [simp]:
  "\<not> offers_any (select_options ph xs) a" "concat (map submit_buttons (select_options ph xs)) = []"
  "concat (map alerts (select_options ph xs)) = []"
  by (auto simp: select_options_def offers_any_map only_if_def comp_def split: option.splits)

lemma can_submit_select_options [simp]: "can_submit (select_options ph xs)"
  unfolding can_submit_def select_options_simps(2) by simp

lemma Select_simps [simp]:
  "offers (Select p xs ph) a \<longleftrightarrow> enabled (in_rest p) \<and> (\<exists>h \<in> set (in_handlers p). triggers h a)"
  "submit_buttons (Select p xs ph) = []"
  by (auto simp: Select_def only_if_def)

lemma alerts_Select [simp]:
  "map_of (in_rest p) At_role = None \<Longrightarrow>
   alerts (Select p xs ph) = (case in_error p of Some s \<Rightarrow> only_if (s \<noteq> []) [s] | None \<Rightarrow> [])"
  by (simp add: Select_def only_if_def map_add_def split: option.split)

lemma static_offers [simp]:
  "\<not> offers Skeleton a" "\<not> offers ListingCardSkeleton a" "\<not> offers (ListingGridSkeleton n) a"
  "\<not> offers ListingDetailSkeleton a" "\<not> offers Logo a" "\<not> offers AdminNav a" "\<not> offers (Footer b) a"
  "\<not> offers (ConditionMeter c) a"
  "\<not> offers (NoCoverPlaceholder t u sz b) a"
  by (auto simp: Skeleton_def ListingCardSkeleton_def ListingGridSkeleton_def ListingDetailSkeleton_def Logo_def
      AdminNav_def Footer_def ConditionMeter_def NoCoverPlaceholder_def no_photo_label_def offers_any_def Let_def
      split: photo_size.split)

lemma offers_any_opt_node [simp]: "offers_any (opt_node v f) a \<longleftrightarrow> (\<exists>s. v = Some s \<and> s \<noteq> [] \<and> offers (f s) a)"
  by (auto simp: opt_node_def split: option.split)

lemma block_offers [simp]:
  "offers (EmptyState t d n) a \<longleftrightarrow> (\<exists>m. n = Some m \<and> offers m a)"
  "offers (PageHeader t d acts) a \<longleftrightarrow> offers_any acts a"
  "offers (AuthShell ks) a \<longleftrightarrow> offers_any ks a"
  "offers (Badge tone dot ks) a \<longleftrightarrow> offers_any ks a"
  by (auto simp: EmptyState_def PageHeader_def AuthShell_def Badge_def split: option.splits)

lemma QueryState_offers [simp]:
  "offers_any (QueryState isLoading err isEmpty msg es sk ks) a \<longleftrightarrow>
     (if isLoading then (\<exists>n. sk = Some n \<and> offers n a)
      else err = None \<and> (if isEmpty then (\<exists>n. es = Some n \<and> offers n a) else offers_any ks a))"
  by (simp add: QueryState_def split: option.split)

lemma SegmentedFilter_offers [simp]:
  "offers (SegmentedFilter l opts v f) a \<longleftrightarrow> (\<exists>x \<in> set (map fst opts). a = f x)"
  by (force simp: SegmentedFilter_def offers_any_map split: prod.splits)

lemma Pagination_offers [simp]:
  "offers_any (Pagination page pageSize count f) a \<longleftrightarrow>
     1 < total_pages count pageSize \<and>
     (1 < page \<and> a = f (page - 1) \<or> page < total_pages count pageSize \<and> a = f (page + 1))"
  by (auto simp: Pagination_def Let_def)

lemma Modal_offers [simp]:
  "offers_any (Modal tid isOpen onClose t v ks) a \<longleftrightarrow> isOpen \<and> (a = onClose \<or> offers_any ks a)"
  by (auto simp: Modal_def)

lemma PhotoFrame_offers:
  "offers (PhotoFrame act s img t u sz b n) a \<Longrightarrow> \<exists>x. a = act x"
  by (auto simp: PhotoFrame_def split: option.splits if_splits)

lemma ListingCard_offers: "offers (ListingCard act ph b c d l) a \<Longrightarrow> \<exists>x. a = act x"
  by (auto simp: ListingCard_def Let_def dest!: PhotoFrame_offers split: option.splits if_splits)

section \<open>Properties\<close>

lemma described_by_cases:
  "described_by uid e h =
     (if truthy e then Some (uid @ ''-error'') else if truthy h then Some (uid @ ''-hint'') else None)"
  by (simp add: described_by_def cn_def map_filter_def)

text \<open>Every text field is accessible whatever its label, hint and error. The label's
  \<open>for\<close> is the id of the control; what \<open>aria-describedby\<close> names is an element that
  is rendered with that id; an error is announced as an alert, marks the control invalid and
  replaces the hint as its description, and without an error there is no alert.\<close>

theorem input_accessible:
  assumes "set (map fst (in_rest p)) \<inter> {At_for, At_id, At_role, At_invalid, At_describedby} = {}"
  shows "attrs_of At_for (Input p) = [in_id p] \<and> in_id p \<in> set (attrs_of At_id (Input p)) \<and>
    set (attrs_of At_describedby (Input p)) \<subseteq> set (attrs_of At_id (Input p)) \<and>
    (if truthy (in_error p)
     then alerts (Input p) = [the (in_error p)] \<and> attrs_of At_invalid (Input p) = [true_str] \<and>
       attrs_of At_describedby (Input p) = [in_id p @ ''-error'']
     else alerts (Input p) = [] \<and> attrs_of At_invalid (Input p) = [])"
proof -
  have rest: "map_of (in_rest p) At_for = None" "map_of (in_rest p) At_id = None"
    "map_of (in_rest p) At_role = None" "map_of (in_rest p) At_invalid = None"
    "map_of (in_rest p) At_describedby = None"
    using assms by (auto simp: map_of_eq_None_iff)
  note [simp] = rest Input_def field_notes_def required_mark_def described_by_cases map_add_def only_if_def
  show ?thesis
    by (cases "in_error p"; cases "in_hint p"; cases "in_required p"; cases "in_icon p"; simp)
qed

theorem input_accessible_witness:
  "alerts (Input (input_defaults ''u1'' ''Email'' \<lparr>in_error := Some ''Invalid email.'', in_hint := Some ''x''\<rparr>)) =
     [''Invalid email.'']"
  using input_accessible [of "input_defaults ''u1'' ''Email'' \<lparr>in_error := Some ''Invalid email.'', in_hint := Some ''x''\<rparr>"]
  by (simp add: input_defaults_def)

lemma total_pages_bounds:
  assumes "0 < pageSize" and "0 \<le> count"
  shows "count \<le> total_pages count pageSize * pageSize"
    and "1 < total_pages count pageSize \<Longrightarrow> (total_pages count pageSize - 1) * pageSize < count"
    and "total_pages count pageSize \<le> 1 \<longleftrightarrow> count \<le> pageSize"
proof -
  define q where "q = (- count) div pageSize"
  have "- count = q * pageSize + (- count) mod pageSize"
    unfolding q_def by (rule div_mult_mod_eq [symmetric])
  moreover have "0 \<le> (- count) mod pageSize" "(- count) mod pageSize < pageSize"
    using assms by simp_all
  ultimately have q: "q * pageSize \<le> - count" "- count < (q + 1) * pageSize"
    by (simp_all add: distrib_right)
  have tp: "total_pages count pageSize = max 1 (- q)" by (simp add: total_pages_def q_def)
  have one: "- q \<le> 1 \<longleftrightarrow> count \<le> pageSize"
  proof
    assume "- q \<le> 1"
    then have "(- 1) * pageSize \<le> q * pageSize" using assms(1) by (intro mult_right_mono) auto
    then show "count \<le> pageSize" using q(1) by linarith
  next
    assume "count \<le> pageSize"
    then have "(- 1) * pageSize < (q + 1) * pageSize" using q(2) by linarith
    moreover have "(q + 1) * pageSize \<le> (- 1) * pageSize" if "q + 1 \<le> - 1"
      using that assms(1) by (intro mult_right_mono) auto
    ultimately show "- q \<le> 1" by linarith
  qed
  show "total_pages count pageSize \<le> 1 \<longleftrightarrow> count \<le> pageSize"
    using one by (simp add: tp)
  show "count \<le> total_pages count pageSize * pageSize"
    using q(1) one by (cases "- q \<le> 1") (simp_all add: tp max_def)
  show "(total_pages count pageSize - 1) * pageSize < count" if "1 < total_pages count pageSize"
    using q(2) that by (simp add: tp max_def algebra_simps split: if_splits)
qed

text \<open>The page controls never lead outside the list. With a positive page size, every page that
  \<open>Pagination\<close> offers lies between 1 and the number of pages when the current page does,
  that number is the least that holds all the entries, and the controls are hidden exactly when one
  page does.\<close>

theorem pagination_stays_in_range:
  assumes "0 < pageSize" and "0 \<le> count" and "1 \<le> page" and "page \<le> total_pages count pageSize"
  shows "(\<forall>q. offers_any (Pagination page pageSize count id) q \<longrightarrow> 1 \<le> q \<and> q \<le> total_pages count pageSize) \<and>
    (Pagination page pageSize count (id :: int \<Rightarrow> int) = [] \<longleftrightarrow> count \<le> pageSize) \<and>
    count \<le> total_pages count pageSize * pageSize \<and>
    (1 < total_pages count pageSize \<longrightarrow> (total_pages count pageSize - 1) * pageSize < count)"
  using assms total_pages_bounds [OF assms(1,2)] by (auto simp: Pagination_def Let_def simp del: Pagination_offers)

theorem pagination_stays_in_range_witness:
  "\<not> offers_any (Pagination 2 24 60 id) (4 :: int) \<and> \<not> offers_any (Pagination 2 24 60 id) (0 :: int)"
proof -
  have "total_pages 60 24 = 3" by (simp add: total_pages_def)
  then show ?thesis using pagination_stays_in_range [of 24 60 2] by auto
qed

section \<open>Focus inside a dialog\<close>

text \<open>The focusable elements of the page in tab order are those before the dialog, its own (numbered
  from 0) and those after it. The dialog's element itself can hold the focus, by its
  \<open>tabIndex\<close> of -1, and comes before its controls.\<close>

datatype focus = Before | Container | Control nat | After

datatype key = Escape | Tab bool | OtherKey

datatype key_effect = CloseDialog | MoveFocus focus

text \<open>Where the browser moves the focus for Tab and Shift+Tab, in a dialog of \<open>n\<close> controls.\<close>

fun default_tab :: "nat \<Rightarrow> bool \<Rightarrow> focus \<Rightarrow> focus" where
  "default_tab n shift Before = Before"
| "default_tab n shift After = After"
| "default_tab n shift Container = (if shift then Before else if n = 0 then After else Control 0)"
| "default_tab n shift (Control i) =
     (if shift then (if i = 0 then Before else Control (i - 1))
      else if Suc i < n then Control (Suc i) else After)"

text \<open>The focus when the dialog opens, and its \<open>handleKeyDown\<close>.\<close>

definition open_focus :: "nat \<Rightarrow> focus" where
  "open_focus n = (if n = 0 then Container else Control 0)"

fun handleKeyDown :: "nat \<Rightarrow> focus \<Rightarrow> key \<Rightarrow> key_effect" where
  "handleKeyDown n f Escape = CloseDialog"
| "handleKeyDown n f OtherKey = MoveFocus f"
| "handleKeyDown n f (Tab shift) =
     (if n = 0 then MoveFocus (default_tab n shift f)
      else if shift \<and> f = Control 0 then MoveFocus (Control (n - 1))
      else if \<not> shift \<and> f = Control (n - 1) then MoveFocus (Control 0)
      else MoveFocus (default_tab n shift f))"

text \<open>The focus after a sequence of keys, none if one of them closed the dialog.\<close>

fun focus_after :: "nat \<Rightarrow> focus \<Rightarrow> key list \<Rightarrow> focus option" where
  "focus_after n f [] = Some f"
| "focus_after n f (k # ks) =
     (case handleKeyDown n f k of CloseDialog \<Rightarrow> None | MoveFocus g \<Rightarrow> focus_after n g ks)"

lemma handleKeyDown_inside:
  "i < n \<Longrightarrow> handleKeyDown n (Control i) k = MoveFocus g \<Longrightarrow> \<exists>j < n. g = Control j"
  by (cases k) (auto split: if_splits)

lemma focus_after_inside:
  "i < n \<Longrightarrow> focus_after n (Control i) ks = Some g \<Longrightarrow> \<exists>j < n. g = Control j"
proof (induction ks arbitrary: i)
  case (Cons k ks)
  then obtain h where h: "handleKeyDown n (Control i) k = MoveFocus h" "focus_after n h ks = Some g"
    by (auto split: key_effect.splits)
  then obtain j where "j < n" "h = Control j" using handleKeyDown_inside Cons.prems(1) by blast
  then show ?case using Cons.IH h(2) by blast
qed auto

text \<open>Between two renderings an open dialog keeps the keyboard focus. When it has a control the focus starts on the
  first one, and after any sequence of keys it is on one of the dialog's controls or the dialog has
  been closed, which Escape alone does; Tab from the last control comes round to the first and
  Shift+Tab from the first to the last. The exception is a focus that a click has put on the
  dialog's own element: Shift+Tab from there leaves the dialog.\<close>

theorem modal_traps_focus:
  assumes "0 < n"
  shows "(case focus_after n (open_focus n) ks of
       None \<Rightarrow> Escape \<in> set ks
     | Some f \<Rightarrow> Escape \<notin> set ks \<and> (\<exists>i < n. f = Control i)) \<and>
    focus_after n (Control (n - 1)) [Tab False] = Some (Control 0) \<and>
    focus_after n (Control 0) [Tab True] = Some (Control (n - 1)) \<and>
    focus_after n Container [Tab True] = Some Before"
proof -
  have "focus_after n f ks = None \<longleftrightarrow> Escape \<in> set ks" for f
  proof (induction ks arbitrary: f)
    case (Cons k ks)
    have "(\<exists>g. handleKeyDown n f k = MoveFocus g) \<or> k = Escape" by (cases k) auto
    then show ?case using Cons by (cases k) auto
  qed simp
  then show ?thesis
    using assms focus_after_inside [of 0 n ks] by (auto simp: open_focus_def split: option.split)
qed

theorem modal_traps_focus_witness:
  "focus_after 3 (open_focus 3) [Tab False, Tab False, Tab False, Tab True] = Some (Control 2) \<and>
   focus_after 3 (Control 2) [Tab False] = Some (Control 0)"
  using modal_traps_focus [of 3 "[Tab False, Tab False, Tab False, Tab True]"]
  by (simp add: open_focus_def)

end
