(* ===== verification/App_Routes.thy ===== *)
theory App_Routes
  imports Auth_Context Ui_Components
begin

text \<open>
  \<open>src/App.tsx\<close>, \<open>src/auth/ProtectedRoute.tsx\<close> and \<open>src/components/Layout.tsx\<close>: the
  route table, what a guarded route shows in each state of the session, and the header. Matching a
  path against the table is the router's: here only literal paths are looked up, which match
  their own entry.
\<close>

section \<open>Guards\<close>

datatype page =
    HomePage | LoginPage | RegisterPage | BrowsePage | ListingDetailPage | ChangePasswordPage
  | CreateListingPage | EditListingPage | MyListingsPage | ProfilePage | AdminUsersPage | AdminListingsPage

datatype element = Page page | ProtectedRoute bool page | Navigate string

text \<open>What is on the screen: a page, the loading line, or a redirection, with the location that the
  login page is told to come back to.\<close>

datatype shown = ShowPage page | ShowLoading | Redirect string "string option"

definition protected :: "auth_state \<Rightarrow> string \<Rightarrow> bool \<Rightarrow> page \<Rightarrow> shown" where
  "protected state here requireAdmin children =
     (case state of
        AuthLoading \<Rightarrow> ShowLoading
      | Unauthenticated \<Rightarrow> Redirect ''/login'' (Some here)
      | PasswordChangeRequired \<Rightarrow> Redirect ''/change-password'' None
      | Authenticated user \<Rightarrow>
          if requireAdmin \<and> user_role user \<noteq> Admin then Redirect ''/'' None else ShowPage children)"

fun show_element :: "auth_state \<Rightarrow> string \<Rightarrow> element \<Rightarrow> shown" where
  "show_element state here (Page p) = ShowPage p"
| "show_element state here (ProtectedRoute requireAdmin p) = protected state here requireAdmin p"
| "show_element state here (Navigate target) = Redirect target None"

section \<open>The route table\<close>

definition routes :: "(string \<times> element) list" where
  "routes =
     [(''/'', Page HomePage),
      (''/login'', Page LoginPage),
      (''/register'', Page RegisterPage),
      (''/listings'', Page BrowsePage),
      (''/listings/:id'', Page ListingDetailPage),
      (''/change-password'', Page ChangePasswordPage),
      (''/listings/new'', ProtectedRoute False CreateListingPage),
      (''/listings/:id/edit'', ProtectedRoute False EditListingPage),
      (''/my-listings'', ProtectedRoute False MyListingsPage),
      (''/profile'', ProtectedRoute False ProfilePage),
      (''/admin/users'', ProtectedRoute True AdminUsersPage),
      (''/admin/listings'', ProtectedRoute True AdminListingsPage),
      (''*'', Navigate ''/'')]"

text \<open>Following redirections from an element; the fuel counts the elements shown. The targets are
  literal paths of the table.\<close>

fun follow :: "nat \<Rightarrow> auth_state \<Rightarrow> string \<Rightarrow> element \<Rightarrow> shown option" where
  "follow 0 state here e = None"
| "follow (Suc n) state here e =
     (case show_element state here e of
        Redirect target from \<Rightarrow>
          (case map_of routes target of None \<Rightarrow> None | Some e' \<Rightarrow> follow n state target e')
      | s \<Rightarrow> Some s)"

section \<open>The layout\<close>

datatype layout_action = CloseMenu | ToggleMenu | LogOut | CloseMenuAndLogOut | Goto string

record layout_state =
  isMenuOpen :: bool

fun layout_step :: "layout_action \<Rightarrow> layout_state \<Rightarrow> layout_state" where
  "layout_step CloseMenu s = s\<lparr>isMenuOpen := False\<rparr>"
| "layout_step ToggleMenu s = s\<lparr>isMenuOpen := \<not> isMenuOpen s\<rparr>"
| "layout_step LogOut s = s"
| "layout_step CloseMenuAndLogOut s = s\<lparr>isMenuOpen := False\<rparr>"
| "layout_step (Goto path) s = s"

definition starts_with :: "string \<Rightarrow> string \<Rightarrow> bool" where
  "starts_with s p \<longleftrightarrow> take (length p) s = p"

fun is_authenticated :: "auth_state \<Rightarrow> bool" where
  "is_authenticated (Authenticated u) = True"
| "is_authenticated _ = False"

fun is_admin :: "auth_state \<Rightarrow> bool" where
  "is_admin (Authenticated u) = (user_role u = Admin)"
| "is_admin _ = False"

text \<open>A \<open>NavLink\<close>; the router marks the current one.\<close>

definition nav_link :: "string \<Rightarrow> 'a handler list \<Rightarrow> string \<Rightarrow> 'a node" where
  "nav_link target hs s = Elem ANCHOR [(At_href, target)] hs [Text s]"

definition desktop_links :: "auth_state \<Rightarrow> layout_action node" where
  "desktop_links state =
     box DIV
      ([nav_link ''/listings'' [] ''Browse'', nav_link ''/listings/new'' [] ''List a copy''] @
       only_if (is_authenticated state)
        ([nav_link ''/my-listings'' [] ''My listings'', nav_link ''/profile'' [] ''Profile''] @
         only_if (is_admin state) [nav_link ''/admin/users'' [] ''Admin'']))"

definition desktop_account :: "auth_state \<Rightarrow> layout_action node" where
  "desktop_account state =
     box DIV
      (if is_authenticated state then [plain_button [] LogOut ''Log out'']
       else if state = Unauthenticated
         then [nav_link ''/login'' [] ''Log in'', action_button False False (Goto ''/register'') ''Register'']
       else [])"

definition mobile_menu :: "auth_state \<Rightarrow> layout_action node" where
  "mobile_menu state =
     Elem DIV [(At_id, ''mobile-nav'')] [] [box DIV
      ([nav_link ''/listings'' [OnClick CloseMenu] ''Browse'',
        nav_link ''/listings/new'' [OnClick CloseMenu] ''List a copy''] @
       (if is_authenticated state then
          [nav_link ''/my-listings'' [OnClick CloseMenu] ''My listings'',
           nav_link ''/profile'' [OnClick CloseMenu] ''Profile''] @
          only_if (is_admin state) [nav_link ''/admin/users'' [OnClick CloseMenu] ''Admin''] @
          [plain_button [] CloseMenuAndLogOut ''Log out'']
        else
          [nav_link ''/login'' [OnClick CloseMenu] ''Log in'',
           nav_link ''/register'' [OnClick CloseMenu] ''Register'']))]"

definition Layout :: "auth_state \<Rightarrow> string \<Rightarrow> layout_state \<Rightarrow> layout_action node list \<Rightarrow> layout_action node" where
  "Layout state pathname s outlet =
     box DIV
      ([Elem ANCHOR [(At_href, ''#main-content'')] [] [Text ''Skip to main content''],
        box HEADER
         ([Elem NAV [(At_label, ''Main navigation'')] []
            [Elem ANCHOR [(At_href, ''/'')] [OnClick CloseMenu] [Logo],
             desktop_links state,
             desktop_account state,
             plain_button
               [(At_expanded, bool_str (isMenuOpen s)), (At_controls, ''mobile-nav''),
                (At_label, if isMenuOpen s then ''Close menu'' else ''Open menu'')]
               ToggleMenu (if isMenuOpen s then ''Close'' else ''Menu'')]] @
          only_if (isMenuOpen s) [mobile_menu state]),
        Elem MAIN [(At_id, ''main-content'')] [] outlet] @
       only_if (\<not> starts_with pathname ''/admin'') [Footer (is_authenticated state)])"

section \<open>Properties\<close>

definition needs_admin :: "page \<Rightarrow> bool" where
  "needs_admin p \<longleftrightarrow> p \<in> {AdminUsersPage, AdminListingsPage}"

definition needs_user :: "page \<Rightarrow> bool" where
  "needs_user p \<longleftrightarrow> p \<in> {CreateListingPage, EditListingPage, MyListingsPage, ProfilePage} \<or> needs_admin p"

lemma routes_cases:
  assumes "(path, e) \<in> set routes"
  obtains p where "e = Page p" "\<not> needs_user p" | p where "e = ProtectedRoute False p" "\<not> needs_admin p"
    | p where "e = ProtectedRoute True p" | "e = Navigate ''/''"
  using assms by (auto simp: routes_def needs_user_def needs_admin_def)

lemma redirect_targets:
  "map_of routes ''/'' = Some (Page HomePage)" "map_of routes ''/login'' = Some (Page LoginPage)"
  "map_of routes ''/change-password'' = Some (Page ChangePasswordPage)"
  by (simp_all add: routes_def)

lemma follow_public:
  "\<not> needs_user HomePage" "\<not> needs_user LoginPage" "\<not> needs_user ChangePasswordPage"
  "\<not> needs_admin HomePage" "\<not> needs_admin LoginPage" "\<not> needs_admin ChangePasswordPage"
  by (simp_all add: needs_user_def needs_admin_def)

definition safe_screen :: "auth_state \<Rightarrow> shown \<Rightarrow> bool" where
  "safe_screen state s \<longleftrightarrow>
     (case s of
        ShowPage p \<Rightarrow> (needs_user p \<longrightarrow> is_authenticated state) \<and> (needs_admin p \<longrightarrow> is_admin state)
      | ShowLoading \<Rightarrow> state = AuthLoading
      | Redirect _ _ \<Rightarrow> False)"

lemma follow_safe:
  assumes "(path, e) \<in> set routes"
  shows "\<exists>s. follow 3 state here e = Some s \<and> safe_screen state s"
  using assms
proof (cases rule: routes_cases)
  case (1 p)
  then show ?thesis by (simp add: eval_nat_numeral safe_screen_def needs_user_def)
next
  case (2 p)
  then show ?thesis
    by (cases state) (auto simp: eval_nat_numeral protected_def redirect_targets safe_screen_def follow_public needs_user_def)
next
  case (3 p)
  then show ?thesis
    by (cases state) (auto simp: eval_nat_numeral protected_def redirect_targets safe_screen_def follow_public needs_user_def)
next
  case 4
  then show ?thesis by (simp add: eval_nat_numeral redirect_targets safe_screen_def follow_public needs_user_def needs_admin_def)
qed

text \<open>C12: The guards let nobody through who should not be, and redirect nobody in a circle. For every
  entry of the route table and every state of the session: a guarded page is on the screen only for
  an authenticated user, an admin page only for an administrator; and following the redirections
  from any entry ends, after at most two of them, on a page or on the loading line, which only the
  state \<open>loading\<close> shows.\<close>

theorem guards_are_safe:
  assumes "(path, e) \<in> set routes"
  shows "\<exists>s. follow 3 state here e = Some s \<and> safe_screen state s"
  by (rule follow_safe [OF assms])

theorem guards_are_safe_witness:
  "follow 3 Unauthenticated ''/admin/users'' (ProtectedRoute True AdminUsersPage) = Some (ShowPage LoginPage)"
proof -
  have "(''/admin/users'', ProtectedRoute True AdminUsersPage) \<in> set routes" by (simp add: routes_def)
  from guards_are_safe [OF this, of Unauthenticated "''/admin/users''"] show ?thesis
    by (simp add: eval_nat_numeral protected_def redirect_targets)
qed

lemma nav_link_simps [simp]:
  "links (nav_link u hs s) = [u]" "offers (nav_link u hs s) a \<longleftrightarrow> (\<exists>h \<in> set hs. triggers h a)"
  by (auto simp: nav_link_def)

lemma links_simps [simp]:
  "links (link_to u ks) = u # concat (map links ks)" "links Logo = []" "links (plain_button [] a s) = []"
  "links (action_button l d a s) = []"
  by (simp_all add: link_to_def Logo_def plain_button_def Button_def loader_icon_def only_if_def map_add_def
      split: option.split)

lemma links_Footer: "set (links (Footer b)) = {''/listings'', ''/listings/new'', if b then ''/my-listings'' else ''/login''}"
  by (simp add: Footer_def)

text \<open>The navigation follows the session and every link of it leads somewhere. Whatever the page
  and whether the phone menu is open: the header offers to log out exactly to an authenticated
  user, links to the administration exactly for an administrator, and has the Register button
  exactly when it is known that nobody is logged in; every link of header, menu and footer, the
  skip link apart, is an entry of the route table.\<close>

theorem navigation_follows_session:
  shows "(offers (Layout state pathname s []) LogOut \<longleftrightarrow> is_authenticated state) \<and>
    (''/admin/users'' \<in> set (links (Layout state pathname s [])) \<longleftrightarrow> is_admin state) \<and>
    set (links (Layout state pathname s [])) - {''#main-content''} \<subseteq> set (map fst routes) \<and>
    (offers (Layout state pathname s []) (Goto ''/register'') \<longleftrightarrow> state = Unauthenticated)"
proof -
  have "is_admin state \<Longrightarrow> is_authenticated state" by (cases state) auto
  then show ?thesis
    by (cases "isMenuOpen s"; cases "is_authenticated state"; cases "is_admin state"; cases "state = Unauthenticated";
        cases "starts_with pathname ''/admin''")
      (auto simp: Layout_def desktop_links_def desktop_account_def mobile_menu_def links_Footer routes_def plain_button_def
        Logo_def)
qed

end
