(* ===== verification/Form_Flow.thy ===== *)
theory Form_Flow
  imports Ui_Components
begin

text \<open>
  What every form of the application has in common. A user action updates the form's state and may
  send a request; when the request settles, its outcome updates the state and may send the next
  request of the same submission. The user can only do what the rendered page offers. The contract
  \<open>form_flow\<close> states what a form must respect; its consequence is that no submission starts
  while another is under way, however fast the user clicks.
\<close>

datatype ('a, 'out) form_event = Act 'a | Settle 'out

text \<open>A run of a form, with the number of requests whose answer is outstanding and the requests sent so
  far. An action happens only if the page offers it, and an answer only if it is outstanding.\<close>

fun form_run ::
    "('s \<Rightarrow> 'a node) \<Rightarrow> ('a \<Rightarrow> 's \<Rightarrow> 's \<times> 'r option) \<Rightarrow> ('out \<Rightarrow> 's \<Rightarrow> 's \<times> 'r option) \<Rightarrow>
     ('a, 'out) form_event list \<Rightarrow> 's \<times> nat \<times> 'r list \<Rightarrow> ('s \<times> nat \<times> 'r list) option" where
  "form_run view act settle [] r = Some r"
| "form_run view act settle (Act a # es) (s, n, sent) =
     (if offers (view s) a
      then form_run view act settle es
        (case act a s of
           (s', None) \<Rightarrow> (s', n, sent)
         | (s', Some q) \<Rightarrow> (s', Suc n, sent @ [q]))
      else None)"
| "form_run view act settle (Settle out # es) (s, n, sent) =
     (if n = 0 then None
      else form_run view act settle es
        (case settle out s of
           (s', None) \<Rightarrow> (s', n - 1, sent)
         | (s', Some q) \<Rightarrow> (s', n, sent @ [q])))"

text \<open>An invariant of the state and the requests sent, kept by every step, holds after every run.\<close>

lemma form_run_invariant:
  assumes "form_run view act settle es (s, n, sent) = Some (s', n', sent')" and "P s sent"
    and "\<And>a s sent. P s sent \<Longrightarrow> offers (view s) a \<Longrightarrow>
      (case act a s of (s', None) \<Rightarrow> P s' sent | (s', Some q) \<Rightarrow> P s' (sent @ [q]))"
    and "\<And>out s sent. P s sent \<Longrightarrow> (case settle out s of (s', None) \<Rightarrow> P s' sent | (s', Some q) \<Rightarrow> P s' (sent @ [q]))"
  shows "P s' sent'"
  using assms(1,2)
proof (induction es arbitrary: s n sent)
  case (Cons e es)
  show ?case
  proof (cases e)
    case (Act a)
    then have "offers (view s) a" using Cons.prems by (auto split: if_splits)
    from assms(3) [OF Cons.prems(2) this] show ?thesis
      using Cons.prems Act by (auto split: prod.splits option.splits if_splits intro: Cons.IH)
  next
    case (Settle out)
    from assms(4) [OF Cons.prems(2), of out] show ?thesis
      using Cons.prems Settle by (auto split: prod.splits option.splits if_splits intro: Cons.IH)
  qed
qed simp

locale form_flow =
  fixes view :: "'s \<Rightarrow> 'a node"
    and act :: "'a \<Rightarrow> 's \<Rightarrow> 's \<times> 'r option"
    and settle :: "'out \<Rightarrow> 's \<Rightarrow> 's \<times> 'r option"
    and busy :: "'s \<Rightarrow> bool"
  assumes act_sends: "snd (act a s) \<noteq> None \<Longrightarrow> busy (fst (act a s))"
    and act_quiet: "offers (view s) a \<Longrightarrow> snd (act a s) = None \<Longrightarrow> busy (fst (act a s)) = busy s"
    and settle_busy: "busy (fst (settle out s)) \<longleftrightarrow> snd (settle out s) \<noteq> None"
    and busy_locked: "busy s \<Longrightarrow> offers (view s) a \<Longrightarrow> snd (act a s) = None"
begin

lemma one_request:
  assumes "form_run view act settle es (s, n, sent) = Some (s', n', sent')" and "n = (if busy s then 1 else 0)"
  shows "n' = (if busy s' then 1 else 0)"
  using assms
proof (induction es arbitrary: s n sent)
  case (Cons e es)
  show ?case
  proof (cases e)
    case (Act a)
    obtain s1 q where s1: "act a s = (s1, q)" by fastforce
    have off: "offers (view s) a" using Act Cons.prems(1) by (auto split: if_splits)
    show ?thesis
    proof (cases q)
      case None
      then have "busy s1 = busy s" using act_quiet [OF off] s1 by simp
      then show ?thesis using Act None s1 off Cons.prems Cons.IH [of s1 n sent] by simp
    next
      case (Some r)
      then have "busy s1" "\<not> busy s" using act_sends [of a s] busy_locked [OF _ off] s1 by auto
      then show ?thesis using Act Some s1 off Cons.prems Cons.IH [of s1 "Suc n" "sent @ [r]"] by simp
    qed
  next
    case (Settle out)
    obtain s1 q where "settle out s = (s1, q)" by fastforce
    then show ?thesis
      using Settle Cons.prems settle_busy [of out s]
        Cons.IH [of s1 "n - 1" sent] Cons.IH [of s1 n "sent @ [the q]"]
      by (cases q) (auto split: if_splits)
  qed
qed simp

lemma at_most_one_request:
  "form_run view act settle es (s, 0, []) = Some (s', n, sent) \<Longrightarrow> \<not> busy s \<Longrightarrow> n \<le> 1 \<and> (n = 1 \<longleftrightarrow> busy s')"
  using one_request [of es s 0 "[]" s' n sent] by auto

end

end
