(* ===== verification/Account_Forms.thy ===== *)
theory Account_Forms
  imports Form_Flow App_Routes Auth_Safety
begin

text \<open>
  The account forms: \<open>src/pages/LoginPage.tsx\<close>, \<open>RegisterPage.tsx\<close>,
  \<open>ChangePasswordPage.tsx\<close>, \<open>ProfilePage.tsx\<close> and
  \<open>src/components/PasswordChangeForm.tsx\<close>. Each is its state, the user's actions with the
  request they send, the continuation of its submit handler after the request, and its view.
\<close>

definition MIN_PASSWORD_LENGTH :: nat where
  "MIN_PASSWORD_LENGTH = 10"

definition too_short :: string where
  "too_short = ''Password must be at least '' @ int_text (int MIN_PASSWORD_LENGTH) @ '' characters.''"

definition password_hint :: string where
  "password_hint = ''At least '' @ int_text (int MIN_PASSWORD_LENGTH) @ '' characters.''"

definition form_alert :: "string option \<Rightarrow> 'a node list" where
  "form_alert e = opt_node e alert"

section \<open>Logging in\<close>

record login_state =
  lg_email :: string
  lg_password :: string
  lg_fieldErrors :: "string js_object"
  lg_formError :: "string option"
  lg_isSubmitting :: bool

definition login_initial :: login_state where
  "login_initial = \<lparr>lg_email = [], lg_password = [], lg_fieldErrors = [], lg_formError = None, lg_isSubmitting = False\<rparr>"

datatype login_action = Login_email string | Login_password string | Login_submit

fun login_act :: "login_action \<Rightarrow> login_state \<Rightarrow> login_state \<times> login_request option" where
  "login_act (Login_email v) s = (s\<lparr>lg_email := v\<rparr>, None)"
| "login_act (Login_password v) s = (s\<lparr>lg_password := v\<rparr>, None)"
| "login_act Login_submit s =
     (s\<lparr>lg_fieldErrors := [], lg_formError := None, lg_isSubmitting := True\<rparr>,
      Some \<lparr>login_email = lg_email s, login_password = lg_password s\<rparr>)"

text \<open>The rest of \<open>handleSubmit\<close> once \<open>login()\<close> has returned or thrown.\<close>

definition login_done :: "js_exn option \<Rightarrow> login_state \<Rightarrow> login_state \<times> login_request option" where
  "login_done out s =
     ((case out of
         None \<Rightarrow> s
       | Some e \<Rightarrow> s\<lparr>lg_fieldErrors := error_fields (toFormErrors e), lg_formError := formMessage (toFormErrors e)\<rparr>)
      \<lparr>lg_isSubmitting := False\<rparr>, None)"

text \<open>The effect that sends an authenticated user on.\<close>

definition login_effect :: "auth_state \<Rightarrow> string option \<Rightarrow> string option" where
  "login_effect state from =
     (if is_authenticated state then Some (case from of Some path \<Rightarrow> path | None \<Rightarrow> ''/'') else None)"

definition login_view :: "login_state \<Rightarrow> login_action node" where
  "login_view s =
     AuthShell
      [words_of H1 ''Log in'',
       words_of PARA ''To list copies and manage the ones you've listed. Browsing doesn't need an account.'',
       Elem FORM [] [OnSubmit Login_submit]
        ([Input ((input_defaults ''email'' ''Email'')
            \<lparr>in_required := True, in_error := get_prop (lg_fieldErrors s) ''email'',
             in_rest := [(At_type, ''email''), (At_autocomplete, ''email''), (At_value, lg_email s)],
             in_handlers := [OnChange Login_email]\<rparr>),
          Input ((input_defaults ''password'' ''Password'')
            \<lparr>in_required := True, in_error := get_prop (lg_fieldErrors s) ''password'',
             in_rest := [(At_type, ''password''), (At_autocomplete, ''current-password''), (At_value, lg_password s)],
             in_handlers := [OnChange Login_password]\<rparr>)] @
         form_alert (lg_formError s) @
         [submit_button (lg_isSubmitting s) ''Log in'']),
       box PARA [Text ''No account? '', link_to ''/register'' [Text ''Register''],
         Text ''. It takes an email, a display name and a password.'']]"

section \<open>Registering\<close>

record register_state =
  rg_email :: string
  rg_password :: string
  rg_displayName :: string
  rg_fieldErrors :: "string js_object"
  rg_formError :: "string option"
  rg_isSubmitting :: bool
  rg_isRegistered :: bool

definition register_initial :: register_state where
  "register_initial = \<lparr>rg_email = [], rg_password = [], rg_displayName = [], rg_fieldErrors = [],
     rg_formError = None, rg_isSubmitting = False, rg_isRegistered = False\<rparr>"

datatype register_action =
    Register_email string | Register_password string | Register_name string | Register_submit

fun register_act :: "register_action \<Rightarrow> register_state \<Rightarrow> register_state \<times> register_request option" where
  "register_act (Register_email v) s = (s\<lparr>rg_email := v\<rparr>, None)"
| "register_act (Register_password v) s = (s\<lparr>rg_password := v\<rparr>, None)"
| "register_act (Register_name v) s = (s\<lparr>rg_displayName := v\<rparr>, None)"
| "register_act Register_submit s =
     (let s = s\<lparr>rg_fieldErrors := [], rg_formError := None\<rparr> in
      if length (rg_password s) < MIN_PASSWORD_LENGTH
      then (s\<lparr>rg_fieldErrors := [(''password'', too_short)]\<rparr>, None)
      else (s\<lparr>rg_isSubmitting := True\<rparr>,
        Some \<lparr>reg_email = rg_email s, reg_password = rg_password s, reg_display_name = rg_displayName s\<rparr>))"

definition register_done :: "js_exn option \<Rightarrow> register_state \<Rightarrow> register_state \<times> register_request option" where
  "register_done out s =
     ((case out of
         None \<Rightarrow> s\<lparr>rg_isRegistered := True\<rparr>
       | Some e \<Rightarrow> s\<lparr>rg_fieldErrors := error_fields (toFormErrors e), rg_formError := formMessage (toFormErrors e)\<rparr>)
      \<lparr>rg_isSubmitting := False\<rparr>, None)"

definition register_view :: "register_state \<Rightarrow> register_action node" where
  "register_view s =
     (if rg_isRegistered s then
        AuthShell [words_of H1 ''Account created'',
          words_of PARA ''Your account is ready. Log in to list your first copy.'',
          link_to ''/login'' [Text ''Log in'']]
      else
        AuthShell
         [words_of H1 ''Register'',
          words_of PARA (''An account lets you list copies for other readers and manage them. '' @
                         ''You don't need one to browse.''),
          Elem FORM [] [OnSubmit Register_submit]
           ([Input ((input_defaults ''name'' ''Display name'')
               \<lparr>in_required := True, in_error := get_prop (rg_fieldErrors s) ''display_name'',
                in_rest := [(At_autocomplete, ''name''), (At_value, rg_displayName s)],
                in_handlers := [OnChange Register_name]\<rparr>),
             Input ((input_defaults ''email'' ''Email'')
               \<lparr>in_required := True, in_error := get_prop (rg_fieldErrors s) ''email'',
                in_rest := [(At_type, ''email''), (At_autocomplete, ''email''), (At_value, rg_email s)],
                in_handlers := [OnChange Register_email]\<rparr>),
             Input ((input_defaults ''password'' ''Password'')
               \<lparr>in_required := True, in_hint := Some password_hint,
                in_error := get_prop (rg_fieldErrors s) ''password'',
                in_rest := [(At_type, ''password''), (At_autocomplete, ''new-password''), (At_value, rg_password s)],
                in_handlers := [OnChange Register_password]\<rparr>)] @
            form_alert (rg_formError s) @
            [submit_button (rg_isSubmitting s) ''Register'']),
          box PARA [Text ''Already have an account? '', link_to ''/login'' [Text ''Log in'']]])"

section \<open>Changing the password\<close>

record password_state =
  pw_current :: string
  pw_new :: string
  pw_fieldErrors :: "string js_object"
  pw_formError :: "string option"
  pw_isSubmitting :: bool

definition password_initial :: password_state where
  "password_initial = \<lparr>pw_current = [], pw_new = [], pw_fieldErrors = [], pw_formError = None, pw_isSubmitting = False\<rparr>"

datatype password_action = Password_current string | Password_new string | Password_submit

fun password_act :: "password_action \<Rightarrow> password_state \<Rightarrow> password_state \<times> password_change_request option" where
  "password_act (Password_current v) s = (s\<lparr>pw_current := v\<rparr>, None)"
| "password_act (Password_new v) s = (s\<lparr>pw_new := v\<rparr>, None)"
| "password_act Password_submit s =
     (let s = s\<lparr>pw_fieldErrors := [], pw_formError := None\<rparr> in
      if length (pw_new s) < MIN_PASSWORD_LENGTH
      then (s\<lparr>pw_fieldErrors := [(''new_password'', too_short)]\<rparr>, None)
      else (s\<lparr>pw_isSubmitting := True\<rparr>,
        Some \<lparr>current_password = pw_current s, new_password = pw_new s\<rparr>))"

text \<open>\<open>onSuccess\<close> is called exactly when the request has not thrown; the pages that hold the form
  act on that.\<close>

definition password_done :: "js_exn option \<Rightarrow> password_state \<Rightarrow> password_state \<times> password_change_request option" where
  "password_done out s =
     ((case out of
         None \<Rightarrow> s
       | Some e \<Rightarrow> s\<lparr>pw_fieldErrors := error_fields (toFormErrors e), pw_formError := formMessage (toFormErrors e)\<rparr>)
      \<lparr>pw_isSubmitting := False\<rparr>, None)"

definition PasswordChangeForm :: "string \<Rightarrow> password_state \<Rightarrow> password_action node" where
  "PasswordChangeForm currentPasswordLabel s =
     Elem FORM [] [OnSubmit Password_submit]
      ([Input ((input_defaults ''current'' currentPasswordLabel)
          \<lparr>in_required := True, in_error := get_prop (pw_fieldErrors s) ''current_password'',
           in_rest := [(At_type, ''password''), (At_autocomplete, ''current-password''), (At_value, pw_current s)],
           in_handlers := [OnChange Password_current]\<rparr>),
        Input ((input_defaults ''new'' ''New password'')
          \<lparr>in_required := True, in_hint := Some password_hint,
           in_error := get_prop (pw_fieldErrors s) ''new_password'',
           in_rest := [(At_type, ''password''), (At_autocomplete, ''new-password''), (At_value, pw_new s)],
           in_handlers := [OnChange Password_new]\<rparr>)] @
       form_alert (pw_formError s) @
       [submit_button (pw_isSubmitting s) ''Change password''])"

definition ChangePasswordPage_view :: "password_state \<Rightarrow> password_action node" where
  "ChangePasswordPage_view s =
     AuthShell
      [words_of H1 ''Change your password'',
       words_of PARA (''An administrator reset your password. Enter the temporary password you were given, '' @
                      ''then choose a new one, before continuing.''),
       box DIV [PasswordChangeForm ''Temporary password'' s]]"

section \<open>The profile\<close>

text \<open>The submit handler awaits the update, then \<open>refreshUser\<close>, which never throws; the button is
  busy while the update is pending only, so that a second submission can start before the first handler
  has come to its end.\<close>

record profile_state =
  pf_displayName :: string
  pf_fieldErrors :: "string js_object"
  pf_formError :: "string option"
  pf_saved :: bool
  pf_passwordChanged :: bool
  pf_updatePending :: bool
  pf_password :: password_state

definition profile_initial :: "auth_state \<Rightarrow> profile_state" where
  "profile_initial state =
     \<lparr>pf_displayName = (case state of Authenticated u \<Rightarrow> user_display_name u | _ \<Rightarrow> []),
      pf_fieldErrors = [], pf_formError = None, pf_saved = False, pf_passwordChanged = False,
      pf_updatePending = False, pf_password = password_initial\<rparr>"

datatype profile_action = Profile_name string | Profile_submit | Profile_password password_action

datatype profile_request = Update_profile string | Refresh_user | Change_password password_change_request

fun profile_act :: "profile_action \<Rightarrow> profile_state \<Rightarrow> profile_state \<times> profile_request option" where
  "profile_act (Profile_name v) s = (s\<lparr>pf_displayName := v\<rparr>, None)"
| "profile_act Profile_submit s =
     (s\<lparr>pf_fieldErrors := [], pf_formError := None, pf_saved := False, pf_updatePending := True\<rparr>,
      Some (Update_profile (pf_displayName s)))"
| "profile_act (Profile_password a) s =
     (s\<lparr>pf_password := fst (password_act a (pf_password s))\<rparr>,
      map_option Change_password (snd (password_act a (pf_password s))))"

definition profile_updated :: "js_exn option \<Rightarrow> profile_state \<Rightarrow> profile_state \<times> profile_request option" where
  "profile_updated out s =
     (case out of
        None \<Rightarrow> (s\<lparr>pf_updatePending := False\<rparr>, Some Refresh_user)
      | Some e \<Rightarrow>
          (s\<lparr>pf_updatePending := False, pf_fieldErrors := error_fields (toFormErrors e),
             pf_formError := formMessage (toFormErrors e)\<rparr>, None))"

definition profile_refreshed :: "profile_state \<Rightarrow> profile_state" where
  "profile_refreshed s = s\<lparr>pf_saved := True\<rparr>"

definition profile_password_done :: "js_exn option \<Rightarrow> profile_state \<Rightarrow> profile_state" where
  "profile_password_done out s =
     s\<lparr>pf_password := fst (password_done out (pf_password s)),
       pf_passwordChanged := (pf_passwordChanged s \<or> out = None)\<rparr>"

definition ProfileSection :: "string \<Rightarrow> 'a node list \<Rightarrow> 'a node" where
  "ProfileSection heading children = box SECTION [words_of H2 heading, box DIV children]"

definition profile_view ::
    "user_public \<Rightarrow> bool \<Rightarrow> js_exn option \<Rightarrow> listing_status_summary option \<Rightarrow> profile_state \<Rightarrow> profile_action node" where
  "profile_view user isPending err summary s =
     box DIV
      [PageHeader (user_display_name user) (Some (user_email user)) [],
       box DIV
        [ProfileSection ''Account''
          [Elem FORM [] [OnSubmit Profile_submit]
            ([Input ((input_defaults ''email'' ''Email'')
                \<lparr>in_hint := Some ''Email can't be changed.'',
                 in_rest := [(At_value, user_email user), (At_disabled, [])]\<rparr>),
              Input ((input_defaults ''name'' ''Display name'')
                \<lparr>in_required := True, in_hint := Some ''Shown to buyers on every copy you list.'',
                 in_error := get_prop (pf_fieldErrors s) ''display_name'',
                 in_rest := [(At_value, pf_displayName s)], in_handlers := [OnChange Profile_name]\<rparr>)] @
             form_alert (pf_formError s) @
             only_if (pf_saved s) [status_line ''Saved.''] @
             [submit_button (pf_updatePending s) ''Save changes''])],
         ProfileSection ''Your copies''
          (QueryState isPending err False ''Nothing to show yet.'' None None
            (case summary of
               None \<Rightarrow> []
             | Some d \<Rightarrow>
                 [box DIV
                   [box DLIST (map (\<lambda>(l, v). box DIV [words_of DTERM l, words_of DDESC (int_text v)])
                      [(''on offer'', count_available d), (''sold'', count_sold d), (''removed'', count_deleted d)]),
                    link_to ''/my-listings'' [Text ''Manage listings'']]])),
         ProfileSection ''Password''
          [if pf_passwordChanged s then status_line ''Password changed.''
           else box DIV [map_node Profile_password (PasswordChangeForm ''Current password'' (pf_password s))]]]]"

section \<open>The forms respect the contract\<close>

lemma form_alert_simps [simp]:
  "\<not> offers_any (form_alert e) a" "concat (map submit_buttons (form_alert e)) = []"
  "concat (map alerts (form_alert e)) = (case e of Some s \<Rightarrow> only_if (s \<noteq> []) [s] | None \<Rightarrow> [])"
  by (auto simp: form_alert_def opt_node_def only_if_def split: option.splits)

lemma login_offers:
  "offers (login_view s) a \<longleftrightarrow>
     (\<exists>v. a = Login_email v) \<or> (\<exists>v. a = Login_password v) \<or> a = Login_submit \<and> \<not> lg_isSubmitting s"
  by (auto simp: login_view_def can_submit_def input_defaults_def)

interpretation login: form_flow login_view login_act login_done lg_isSubmitting
proof unfold_locales
  fix a s
  show "snd (login_act a s) \<noteq> None \<Longrightarrow> lg_isSubmitting (fst (login_act a s))" by (cases a) auto
  show "snd (login_act a s) = None \<Longrightarrow> lg_isSubmitting (fst (login_act a s)) = lg_isSubmitting s" by (cases a) auto
  show "lg_isSubmitting s \<Longrightarrow> offers (login_view s) a \<Longrightarrow> snd (login_act a s) = None"
    by (auto simp: login_offers)
qed (simp add: login_done_def split: option.split)

lemma register_offers:
  "offers (register_view s) a \<longleftrightarrow> \<not> rg_isRegistered s \<and>
     ((\<exists>v. a = Register_email v) \<or> (\<exists>v. a = Register_password v) \<or> (\<exists>v. a = Register_name v) \<or>
      a = Register_submit \<and> \<not> rg_isSubmitting s)"
  by (auto simp: register_view_def can_submit_def input_defaults_def)

interpretation register: form_flow register_view register_act register_done rg_isSubmitting
proof unfold_locales
  fix a s
  show "snd (register_act a s) \<noteq> None \<Longrightarrow> rg_isSubmitting (fst (register_act a s))"
    by (cases a) (auto simp: Let_def split: if_splits)
  show "snd (register_act a s) = None \<Longrightarrow> rg_isSubmitting (fst (register_act a s)) = rg_isSubmitting s"
    by (cases a) (auto simp: Let_def split: if_splits)
  show "rg_isSubmitting s \<Longrightarrow> offers (register_view s) a \<Longrightarrow> snd (register_act a s) = None"
    by (auto simp: register_offers)
qed (simp add: register_done_def split: option.split)

lemma password_offers:
  "offers (PasswordChangeForm l s) a \<longleftrightarrow>
     (\<exists>v. a = Password_current v) \<or> (\<exists>v. a = Password_new v) \<or> a = Password_submit \<and> \<not> pw_isSubmitting s"
  by (auto simp: PasswordChangeForm_def can_submit_def input_defaults_def)

interpretation password: form_flow "PasswordChangeForm l" password_act password_done pw_isSubmitting for l
proof unfold_locales
  fix a s
  show "snd (password_act a s) \<noteq> None \<Longrightarrow> pw_isSubmitting (fst (password_act a s))"
    by (cases a) (auto simp: Let_def split: if_splits)
  show "snd (password_act a s) = None \<Longrightarrow> pw_isSubmitting (fst (password_act a s)) = pw_isSubmitting s"
    by (cases a) (auto simp: Let_def split: if_splits)
  show "pw_isSubmitting s \<Longrightarrow> offers (PasswordChangeForm l s) a \<Longrightarrow> snd (password_act a s) = None"
    by (auto simp: password_offers)
qed (simp add: password_done_def split: option.split)

section \<open>Properties\<close>



text \<open>A guarded page brings the visitor back. Whoever is sent from a guarded page to the login is
  sent on to the very page once logged in, and lands on it: for every guarded route, every visitor
  who is not logged in and every user who may see the page.\<close>

theorem login_returns_to_page:
  assumes "protected Unauthenticated here requireAdmin p = Redirect target from"
    and "requireAdmin \<longrightarrow> user_role u = Admin"
  shows "target = ''/login'' \<and> login_effect (Authenticated u) from = Some here \<and>
    protected (Authenticated u) here requireAdmin p = ShowPage p"
  using assms by (auto simp: protected_def login_effect_def)

theorem login_returns_to_page_witness:
  "login_effect (Authenticated alice) (Some ''/profile'') = Some ''/profile''"
  using login_returns_to_page [of "''/profile''" False ProfilePage "''/login''" "Some ''/profile''" alice]
  by (simp add: protected_def)

text \<open>The client asks for passwords of ten characters before it asks the server. The registration
  and the password form send a request exactly when the new password has at least ten characters,
  and then send the fields as typed; otherwise they send nothing and show the rule at the password
  field as their only alert.\<close>

theorem short_password_not_sent:
  "(case register_act Register_submit s of (s', r) \<Rightarrow>
      (if 10 \<le> length (rg_password s)
       then r = Some \<lparr>reg_email = rg_email s, reg_password = rg_password s, reg_display_name = rg_displayName s\<rparr>
       else r = None \<and> (\<not> rg_isRegistered s \<longrightarrow>
         alerts (register_view s') = [''Password must be at least 10 characters.'']))) \<and>
   (case password_act Password_submit t of (t', q) \<Rightarrow>
      (if 10 \<le> length (pw_new t)
       then q = Some \<lparr>current_password = pw_current t, new_password = pw_new t\<rparr>
       else q = None \<and> alerts (PasswordChangeForm l t') = [''Password must be at least 10 characters.'']))"
proof -
  have ts: "too_short = ''Password must be at least 10 characters.''"
    unfolding too_short_def MIN_PASSWORD_LENGTH_def by code_simp
  show ?thesis
    by (simp add: ts Let_def MIN_PASSWORD_LENGTH_def register_view_def PasswordChangeForm_def AuthShell_def
        input_defaults_def link_to_def split: option.split)
qed

theorem short_password_not_sent_witness:
  "snd (password_act Password_submit (password_initial\<lparr>pw_new := ''short''\<rparr>)) = None"
  using short_password_not_sent [of register_initial "password_initial\<lparr>pw_new := ''short''\<rparr>" "[]"]
  by (auto simp: password_initial_def split: prod.splits if_splits)

end
