(* ===== verification/Profile_Page.thy ===== *)
theory Profile_Page
  imports Account_Forms
begin

text \<open>
  Runs of \<open>src/pages/ProfilePage.tsx\<close>, which holds two forms: the name, whose handler awaits the update and
  then \<open>refreshUser\<close>, and the password. The state of a run has the requests that are outstanding.
\<close>

datatype profile_kind = Saving | Refreshing_user | Changing_password

datatype profile_event =
    Do profile_action | Update_answer "js_exn option" | Refresh_answer | Password_answer "js_exn option"

fun profile_kind_of :: "profile_request \<Rightarrow> profile_kind" where
  "profile_kind_of (Update_profile v) = Saving"
| "profile_kind_of Refresh_user = Refreshing_user"
| "profile_kind_of (Change_password r) = Changing_password"

definition with_request :: "profile_state \<times> profile_request option \<Rightarrow> profile_kind list \<Rightarrow> profile_state \<times> profile_kind list" where
  "with_request x ks = (case x of (s, None) \<Rightarrow> (s, ks) | (s, Some q) \<Rightarrow> (s, profile_kind_of q # ks))"

fun profile_step ::
    "(profile_state \<Rightarrow> profile_action node) \<Rightarrow> profile_event \<Rightarrow> profile_state \<times> profile_kind list \<Rightarrow>
     (profile_state \<times> profile_kind list) option" where
  "profile_step view (Do a) (s, ks) = (if offers (view s) a then Some (with_request (profile_act a s) ks) else None)"
| "profile_step view (Update_answer out) (s, ks) =
     (if Saving \<in> set ks then Some (with_request (profile_updated out s) (remove1 Saving ks)) else None)"
| "profile_step view Refresh_answer (s, ks) =
     (if Refreshing_user \<in> set ks then Some (profile_refreshed s, remove1 Refreshing_user ks) else None)"
| "profile_step view (Password_answer out) (s, ks) =
     (if Changing_password \<in> set ks then Some (profile_password_done out s, remove1 Changing_password ks) else None)"

fun profile_run ::
    "(profile_state \<Rightarrow> profile_action node) \<Rightarrow> profile_event list \<Rightarrow> profile_state \<times> profile_kind list \<Rightarrow>
     (profile_state \<times> profile_kind list) option" where
  "profile_run view [] r = Some r"
| "profile_run view (e # es) r = (case profile_step view e r of None \<Rightarrow> None | Some r' \<Rightarrow> profile_run view es r')"

section \<open>What the page offers\<close>

lemma saved_line_no_submit [simp]: "concat (map submit_buttons (only_if b [status_line x])) = []"
  by (simp add: only_if_def status_line_def)

lemma profile_offers:
  "offers (profile_view u p err d s) a \<longleftrightarrow>
     (\<exists>v. a = Profile_name v) \<or> a = Profile_submit \<and> \<not> pf_updatePending s \<or>
     \<not> pf_passwordChanged s \<and> (\<exists>b. a = Profile_password b \<and> offers (PasswordChangeForm ''Current password'' (pf_password s)) b)"
  by (auto simp: profile_view_def ProfileSection_def can_submit_def input_defaults_def offers_map_node
      split: option.split)

section \<open>Properties\<close>

definition profile_inv :: "profile_state \<times> profile_kind list \<Rightarrow> bool" where
  "profile_inv r \<longleftrightarrow> (case r of (s, ks) \<Rightarrow>
     count_list ks Saving = (if pf_updatePending s then 1 else 0) \<and>
     count_list ks Changing_password = (if pw_isSubmitting (pf_password s) then 1 else 0))"

lemma count_remove1: "count_list (remove1 x ks) y = (if x = y then count_list ks y - 1 else count_list ks y)"
  by (induction ks) auto

lemma profile_step_inv:
  assumes "profile_step (profile_view u p err d) e r = Some r'" and "profile_inv r"
  shows "profile_inv r'"
proof -
  obtain s ks where r: "r = (s, ks)" by fastforce
  show ?thesis
  proof (cases e)
    case (Do a)
    then have off: "offers (profile_view u p err d s) a" and r': "r' = with_request (profile_act a s) ks"
      using assms(1) r by (auto split: if_splits)
    show ?thesis
    proof (cases a)
      case (Profile_password b)
      then have "offers (PasswordChangeForm ''Current password'' (pf_password s)) b" using off by (simp add: profile_offers)
      then show ?thesis using assms(2) r r' Profile_password
        by (cases b) (auto simp: profile_inv_def with_request_def password_offers Let_def)
    qed (use assms(2) r r' off in \<open>auto simp: profile_inv_def with_request_def profile_offers\<close>)
  qed (use assms r in \<open>auto simp: profile_inv_def with_request_def profile_updated_def profile_refreshed_def
      profile_password_done_def password_done_def count_remove1 split: if_splits option.splits\<close>)
qed

lemma profile_run_inv:
  "profile_run (profile_view u p err d) es r = Some r' \<Longrightarrow> profile_inv r \<Longrightarrow> profile_inv r'"
  by (induction es arbitrary: r) (auto dest: profile_step_inv split: option.splits)

text \<open>The two forms of the profile page send no request twice: in every run, at most one update and at most
  one change of the password are outstanding, and each exactly while its button is busy.\<close>

theorem profile_one_each:
  assumes "profile_run (profile_view u p err d) es (profile_initial st, []) = Some (s, ks)"
  shows "count_list ks Saving \<le> 1 \<and> (Saving \<in> set ks \<longleftrightarrow> pf_updatePending s) \<and>
    count_list ks Changing_password \<le> 1 \<and> (Changing_password \<in> set ks \<longleftrightarrow> pw_isSubmitting (pf_password s))"
proof -
  have "profile_inv (profile_initial st, [])" by (simp add: profile_inv_def profile_initial_def password_initial_def)
  from profile_run_inv [OF assms this] show ?thesis
    using count_list_0_iff [of ks Saving] count_list_0_iff [of ks Changing_password]
    by (simp add: profile_inv_def split: if_splits)
qed

text \<open>The page can say that the name was saved beside the reason why it was not. The handler of a first
  submission is still awaiting \<open>refreshUser\<close> when the user submits another name; it comes to its end, which
  shows "Saved.", while the second update is outstanding; and that one fails.\<close>

definition saved_too_early :: "string \<Rightarrow> profile_event list" where
  "saved_too_early reason =
     [Do Profile_submit, Update_answer None, Do (Profile_name []), Do Profile_submit, Refresh_answer,
      Update_answer (Some (JsError reason))]"

theorem saved_beside_error:
  "\<exists>s. profile_run (profile_view u p err d) (saved_too_early reason) (profile_initial st, []) = Some (s, []) \<and>
     ''Saved.'' \<in> set (texts (profile_view u p err d s)) \<and>
     ''Something went wrong. Please try again.'' \<in> set (alerts (profile_view u p err d s))"
proof -
  obtain s where "profile_run (profile_view u p err d) (saved_too_early reason) (profile_initial st, []) = Some (s, [])"
    "pf_saved s" "pf_formError s = Some generic_message"
    by (simp add: saved_too_early_def profile_offers with_request_def profile_updated_def profile_refreshed_def profile_initial_def)
  then show ?thesis by (auto simp: profile_view_def ProfileSection_def generic_message_def)
qed

end
