(* ===== verification/Listing_Form.thy ===== *)
theory Listing_Form
  imports Form_Flow Endpoints
begin

text \<open>
  \<open>src/components/ListingForm.tsx\<close> and \<open>src/components/ImageUploadField.tsx\<close>: the
  fields of a listing with their validation, and the photos to upload. Selecting a photo hands the
  browser's list of files over; the preview URLs of \<open>ImageUploadField\<close> are tracked by the
  identity of the file (the type parameter \<open>'f\<close>).
\<close>

section \<open>The listing's fields\<close>

definition CATEGORY_OPTIONS :: "(string \<times> string) list" where
  "CATEGORY_OPTIONS = CATEGORY_LABELS"

definition CONDITION_OPTIONS :: "(string \<times> string) list" where
  "CONDITION_OPTIONS = CONDITION_LABELS"

record listing_form_values =
  v_title :: string
  v_author :: string
  v_description :: string
  v_category :: string
  v_condition :: string
  v_price :: string

definition EMPTY_LISTING_FORM_VALUES :: listing_form_values where
  "EMPTY_LISTING_FORM_VALUES =
     \<lparr>v_title = [], v_author = [], v_description = [], v_category = [], v_condition = [], v_price = []\<rparr>"

record listing_form_state =
  lf_values :: listing_form_values
  lf_clientErrors :: "string js_object"

definition listing_form_initial :: "listing_form_values \<Rightarrow> listing_form_state" where
  "listing_form_initial v = \<lparr>lf_values = v, lf_clientErrors = []\<rparr>"

definition bad_price :: "string \<Rightarrow> bool" where
  "bad_price p \<longleftrightarrow> p = [] \<or> isNaN (js_Number p) \<or> le_zero (js_Number p)"

definition validate :: "listing_form_values \<Rightarrow> string js_object" where
  "validate v =
     only_if (trim (v_title v) = []) [(''title'', ''Title is required.'')] @
     only_if (trim (v_author v) = []) [(''author'', ''Author is required.'')] @
     only_if (trim (v_description v) = []) [(''description'', ''Description is required.'')] @
     only_if (v_category v = []) [(''category'', ''Category is required.'')] @
     only_if (v_condition v = []) [(''condition'', ''Condition is required.'')] @
     only_if (bad_price (v_price v)) [(''price'', ''Price must be greater than 0.'')]"

definition submitted_values :: "listing_form_values \<Rightarrow> listing_create" where
  "submitted_values v =
     \<lparr>new_title = v_title v, new_author = v_author v, new_description = v_description v,
      new_category = v_category v, new_condition = v_condition v, new_price = js_Number (v_price v)\<rparr>"

datatype listing_form_action =
    Set_title string | Set_author string | Set_description string | Set_category string
  | Set_condition string | Set_price string | Submit_listing

text \<open>The second part of the result is the argument of \<open>onSubmit\<close>, if that is called.\<close>

fun listing_form_act :: "listing_form_action \<Rightarrow> listing_form_state \<Rightarrow> listing_form_state \<times> listing_create option" where
  "listing_form_act (Set_title x) s = (s\<lparr>lf_values := (lf_values s)\<lparr>v_title := x\<rparr>\<rparr>, None)"
| "listing_form_act (Set_author x) s = (s\<lparr>lf_values := (lf_values s)\<lparr>v_author := x\<rparr>\<rparr>, None)"
| "listing_form_act (Set_description x) s = (s\<lparr>lf_values := (lf_values s)\<lparr>v_description := x\<rparr>\<rparr>, None)"
| "listing_form_act (Set_category x) s = (s\<lparr>lf_values := (lf_values s)\<lparr>v_category := x\<rparr>\<rparr>, None)"
| "listing_form_act (Set_condition x) s = (s\<lparr>lf_values := (lf_values s)\<lparr>v_condition := x\<rparr>\<rparr>, None)"
| "listing_form_act (Set_price x) s = (s\<lparr>lf_values := (lf_values s)\<lparr>v_price := x\<rparr>\<rparr>, None)"
| "listing_form_act Submit_listing s =
     (let errors = validate (lf_values s) in
      (s\<lparr>lf_clientErrors := errors\<rparr>, if errors \<noteq> [] then None else Some (submitted_values (lf_values s))))"

text \<open>\<open>clientErrors[field] ?? serverFieldErrors[field]\<close>.\<close>

definition field_error :: "string js_object \<Rightarrow> listing_form_state \<Rightarrow> string \<Rightarrow> string option" where
  "field_error serverFieldErrors s f =
     (case get_prop (lf_clientErrors s) f of Some e \<Rightarrow> Some e | None \<Rightarrow> get_prop serverFieldErrors f)"

definition form_heading :: "string \<Rightarrow> string \<Rightarrow> 'a node" where
  "form_heading h p = box DIV [box DIV [words_of H2 h, words_of PARA p]]"

definition description_field :: "string option \<Rightarrow> string \<Rightarrow> listing_form_action node" where
  "description_field err value =
     box DIV
      ([Elem LABEL [(At_for, ''listing-description'')] [] [Text ''Description'', required_mark],
        Elem TEXTAREA
          ([(At_id, ''listing-description''), (At_required, []), (At_rows, ''5''), (At_value, value)] @
           opt_attr At_invalid (if truthy err then Some true_str else None) @
           opt_attr At_describedby (if truthy err then Some ''listing-description-error'' else None) @
           [(At_placeholder, ''Edition, any wear, why you're passing it on...'')])
          [OnChange Set_description] []] @
       opt_node err (\<lambda>e. Elem PARA [(At_id, ''listing-description-error''), (At_role, ''alert'')] [] [Text e]))"

definition ListingForm ::
    "(listing_form_action \<Rightarrow> 'a) \<Rightarrow> string \<Rightarrow> bool \<Rightarrow> string js_object \<Rightarrow> listing_form_state \<Rightarrow> 'a node list \<Rightarrow> 'a node" where
  "ListingForm act submitLabel isSubmitting serverFieldErrors s children =
     (let v = lf_values s; err = field_error serverFieldErrors s in
      Elem FORM [] [OnSubmit (act Submit_listing)]
       [box SECTION
         [form_heading ''Book details'' ''What is it, and what should a buyer know?'',
          Input ((input_defaults ''title'' ''Title'')
            \<lparr>in_required := True, in_rest := [(At_value, v_title v)], in_error := err ''title'',
             in_handlers := [OnChange (act \<circ> Set_title)]\<rparr>),
          Input ((input_defaults ''author'' ''Author'')
            \<lparr>in_required := True, in_rest := [(At_value, v_author v)], in_error := err ''author'',
             in_handlers := [OnChange (act \<circ> Set_author)]\<rparr>),
          map_node act (description_field (err ''description'') (v_description v))],
        box SECTION
         [form_heading ''Category, condition & price'' ''Help buyers filter to exactly what they want.'',
          box DIV
           [Select ((input_defaults ''category'' ''Category'')
              \<lparr>in_required := True, in_rest := [(At_value, v_category v)], in_error := err ''category'',
               in_handlers := [OnChange (act \<circ> Set_category)]\<rparr>)
              CATEGORY_OPTIONS (Some ''Select a category''),
            Select ((input_defaults ''condition'' ''Condition'')
              \<lparr>in_required := True, in_rest := [(At_value, v_condition v)], in_error := err ''condition'',
               in_hint := (if v_condition v \<noteq> [] then get_prop CONDITION_DESCRIPTIONS (v_condition v) else None),
               in_handlers := [OnChange (act \<circ> Set_condition)]\<rparr>)
              CONDITION_OPTIONS (Some ''Select a condition'')],
          Input ((input_defaults ''price'' ''Price'')
            \<lparr>in_required := True, in_hint := Some ''In USD.'', in_error := err ''price'',
             in_rest := [(At_type, ''number''), (At_min, ''0.01''), (At_step, ''0.01''), (At_value, v_price v)],
             in_handlers := [OnChange (act \<circ> Set_price)]\<rparr>)],
        box SECTION
         ([form_heading ''Photos'' ''A photo of your actual copy shows buyers what they're getting.''] @ children),
        submit_button isSubmitting submitLabel])"

section \<open>The photos\<close>

definition MAX_IMAGES_PER_LISTING :: int where "MAX_IMAGES_PER_LISTING = 6"
definition MAX_IMAGE_SIZE_BYTES :: int where "MAX_IMAGE_SIZE_BYTES = 5 * 1024 * 1024"

definition ACCEPTED_TYPES :: "string list" where
  "ACCEPTED_TYPES = [''image/jpeg'', ''image/png'', ''image/webp'']"

record image_state =
  im_files :: "js_file list"
  im_isDragActive :: bool

definition no_images :: image_state where
  "no_images = \<lparr>im_files = [], im_isDragActive = False\<rparr>"

definition remaining :: "int \<Rightarrow> js_file list \<Rightarrow> int" where
  "remaining existingCount files = MAX_IMAGES_PER_LISTING - existingCount - int (length files)"

definition addFiles :: "js_file list \<Rightarrow> image_state \<Rightarrow> image_state" where
  "addFiles selected s = (if selected = [] then s else s\<lparr>im_files := im_files s @ selected\<rparr>)"

definition handleSelect :: "js_file list \<Rightarrow> image_state \<Rightarrow> image_state" where
  "handleSelect selected s = addFiles selected s"

definition handleDrop :: "int \<Rightarrow> js_file list \<Rightarrow> image_state \<Rightarrow> image_state" where
  "handleDrop existingCount dropped s =
     (let s' = s\<lparr>im_isDragActive := False\<rparr> in
      if remaining existingCount (im_files s) \<le> 0 then s' else addFiles dropped s')"

definition removeFile :: "nat \<Rightarrow> image_state \<Rightarrow> image_state" where
  "removeFile index s =
     s\<lparr>im_files := map snd (filter (\<lambda>(i, _). i \<noteq> index) (zip [0..<length (im_files s)] (im_files s)))\<rparr>"

datatype image_action =
    Select_files "js_file list" | Drop_files "js_file list" | Drag_over | Drag_leave | Remove_file nat

fun image_step :: "int \<Rightarrow> image_action \<Rightarrow> image_state \<Rightarrow> image_state" where
  "image_step existingCount (Select_files fs) s = handleSelect fs s"
| "image_step existingCount (Drop_files fs) s = handleDrop existingCount fs s"
| "image_step existingCount Drag_over s =
     (if 0 < remaining existingCount (im_files s) then s\<lparr>im_isDragActive := True\<rparr> else s)"
| "image_step existingCount Drag_leave s = s\<lparr>im_isDragActive := False\<rparr>"
| "image_step existingCount (Remove_file i) s = removeFile i s"

text \<open>\<open>src\<close> gives the preview URL that the field has for a position of its list when it is rendered.\<close>

definition image_item :: "string option \<Rightarrow> nat \<Rightarrow> js_file \<Rightarrow> image_action node" where
  "image_item src index file =
     box LITEM
      ([box DIV [Elem IMG (opt_attr At_src src @ [(At_alt, file_name file)]) [] []]] @
       only_if (MAX_IMAGE_SIZE_BYTES < file_size file) [words_of PARA ''Too large''] @
       [plain_button [(At_label, ''Remove '' @ file_name file)] (Remove_file index) ''Remove''])"

definition ImageUploadField :: "int \<Rightarrow> string option \<Rightarrow> (nat \<Rightarrow> string option) \<Rightarrow> image_state \<Rightarrow> image_action node" where
  "ImageUploadField existingCount err src s =
     (let left = remaining existingCount (im_files s) in
      box DIV
       ([Elem LABEL
          [(At_for, ''listing-images''),
           (At_state, if left \<le> 0 then ''full'' else if im_isDragActive s then ''drag'' else ''open'')]
          [OnDragOver Drag_over, OnDragLeave Drag_leave, OnDrop Drop_files]
          [Elem ICON [(At_hidden, true_str)] [] [],
           box SPAN
            ([words_of SPAN (if 0 < left then ''Add a photo of your copy'' else ''Photo limit reached'')] @
             only_if (0 < left)
              [words_of SPAN (''Choose files or drop them here. The first photo is the one buyers see first.'')]),
           Elem INPUT
            ([(At_id, ''listing-images''), (At_type, ''file''), (At_multiple, []),
              (At_accept, join_with '','' ACCEPTED_TYPES)] @
             flag (left \<le> 0) At_disabled @ [(At_describedby, ''listing-images-hint'')])
            [OnFiles Select_files] []],
         Elem PARA [(At_id, ''listing-images-hint'')] []
          [Text (''JPEG, PNG, or WebP, up to 5 MB each. '' @ int_text (max left 0) @ '' more can be added ('' @
                 int_text MAX_IMAGES_PER_LISTING @ '' total per listing).'')]] @
        only_if (im_files s \<noteq> [])
         [box ULIST (map (\<lambda>(i, f). image_item (src i) i f) (zip [0..<length (im_files s)] (im_files s)))] @
        opt_node err alert))"

section \<open>Preview URLs\<close>

text \<open>The cache of object URLs (numbered as they are created), those revoked, and the next number.\<close>

record 'f preview_state =
  pv_cache :: "('f \<times> nat) list"
  pv_revoked :: "nat list"
  pv_next :: nat

definition no_previews :: "'f preview_state" where
  "no_previews = \<lparr>pv_cache = [], pv_revoked = [], pv_next = 0\<rparr>"

fun create_previews :: "'f list \<Rightarrow> 'f preview_state \<Rightarrow> 'f preview_state" where
  "create_previews [] s = s"
| "create_previews (f # fs) s =
     create_previews fs
       (if f \<in> fst ` set (pv_cache s) then s
        else s\<lparr>pv_cache := pv_cache s @ [(f, pv_next s)], pv_next := Suc (pv_next s)\<rparr>)"

definition previews_effect :: "'f list \<Rightarrow> 'f preview_state \<Rightarrow> 'f preview_state" where
  "previews_effect files s =
     create_previews files
       (s\<lparr>pv_cache := filter (\<lambda>(f, _). f \<in> set files) (pv_cache s),
          pv_revoked := pv_revoked s @ map snd (filter (\<lambda>(f, _). f \<notin> set files) (pv_cache s))\<rparr>)"

definition previews_unmount :: "'f preview_state \<Rightarrow> 'f preview_state" where
  "previews_unmount s = s\<lparr>pv_revoked := pv_revoked s @ map snd (pv_cache s)\<rparr>"

text \<open>What a rendering with these files reads from the cache, before its effect.\<close>

definition shown_previews :: "'f list \<Rightarrow> 'f preview_state \<Rightarrow> nat \<Rightarrow> nat option" where
  "shown_previews files s i = (if i < length files then map_of (pv_cache s) (files ! i) else None)"

section \<open>What the form offers and shows\<close>

lemma form_heading_simps [simp]:
  "\<not> offers (form_heading h p) a" "submit_buttons (form_heading h p) = []" "alerts (form_heading h p) = []"
  by (simp_all add: form_heading_def)

lemma description_field_simps [simp]:
  "offers (description_field e v) a \<longleftrightarrow> (\<exists>x. a = Set_description x)"
  "submit_buttons (description_field e v) = []"
  by (auto simp: description_field_def opt_node_def only_if_def split: option.split)

definition shown_error :: "string option \<Rightarrow> string list" where
  "shown_error e = (case e of Some s \<Rightarrow> only_if (s \<noteq> []) [s] | None \<Rightarrow> [])"

lemma alerts_description_field: "alerts (description_field e v) = shown_error e"
  by (auto simp: description_field_def opt_node_def only_if_def shown_error_def required_mark_def map_add_def
      split: option.split)

text \<open>What the form offers, given that the children are no submit buttons.\<close>

lemma ex_listing_form_action:
  "(\<exists>b. P b) \<longleftrightarrow> (\<exists>x. P (Set_title x)) \<or> (\<exists>x. P (Set_author x)) \<or> (\<exists>x. P (Set_description x)) \<or>
     (\<exists>x. P (Set_category x)) \<or> (\<exists>x. P (Set_condition x)) \<or> (\<exists>x. P (Set_price x)) \<or> P Submit_listing"
  by (metis listing_form_action.exhaust)

lemma ListingForm_offers:
  assumes "concat (map submit_buttons children) = []"
  shows "offers (ListingForm act l busy serr s children) a \<longleftrightarrow>
    (\<exists>b. a = act b \<and> (b = Submit_listing \<longrightarrow> \<not> busy)) \<or> offers_any children a"
  unfolding ex_listing_form_action
  by (auto simp: ListingForm_def Let_def can_submit_def input_defaults_def offers_map_node assms)

lemma alerts_ListingForm:
  "alerts (ListingForm act l busy serr s children) =
     concat (map (shown_error \<circ> field_error serr s) [''title'', ''author'', ''description'', ''category'', ''condition'', ''price'']) @
     concat (map alerts children)"
  by (simp add: ListingForm_def Let_def input_defaults_def alerts_description_field shown_error_def)

definition valid_values :: "listing_form_values \<Rightarrow> bool" where
  "valid_values v \<longleftrightarrow> trim (v_title v) \<noteq> [] \<and> trim (v_author v) \<noteq> [] \<and> trim (v_description v) \<noteq> [] \<and>
     v_category v \<noteq> [] \<and> v_condition v \<noteq> [] \<and> \<not> bad_price (v_price v)"

lemma validate_Nil: "validate v = [] \<longleftrightarrow> valid_values v"
  by (auto simp: validate_def valid_values_def only_if_def)

lemma validate_entries:
  "x \<in> set (validate v) \<Longrightarrow>
     fst x \<in> {''title'', ''author'', ''description'', ''category'', ''condition'', ''price''} \<and> snd x \<noteq> []"
  by (auto simp: validate_def)

lemma validate_known_field:
  assumes "validate v \<noteq> []"
  obtains f e where "f \<in> {''title'', ''author'', ''description'', ''category'', ''condition'', ''price''}"
    and "get_prop (validate v) f = Some e" and "e \<noteq> []"
proof -
  obtain x xs where x: "validate v = x # xs" using assms by (cases "validate v") auto
  then have "get_prop (validate v) (fst x) = Some (snd x)" by (cases x) simp
  then show thesis
    by (rule that [rotated]) (use validate_entries [of x v] x in simp_all)
qed

section \<open>Properties\<close>



lemma ImageUploadField_offers:
  "offers (ImageUploadField n err src s) a \<longleftrightarrow>
     a \<in> {Drag_over, Drag_leave} \<or> (\<exists>fs. a = Drop_files fs) \<or>
     (\<exists>fs. a = Select_files fs \<and> 0 < remaining n (im_files s)) \<or> (\<exists>i < length (im_files s). a = Remove_file i)"
  by (auto simp: ImageUploadField_def Let_def image_item_def offers_any_map opt_node_def set_zip only_if_def
      split: option.splits)

lemma removeFile_files:
  "i < length (im_files s) \<Longrightarrow> im_files (removeFile i s) = take i (im_files s) @ drop (Suc i) (im_files s)"
proof -
  have "map snd (filter (\<lambda>(j, _). j \<noteq> m + i) (zip [m..<m + length fs] fs)) = take i fs @ drop (Suc i) fs"
    if "i < length fs" for m i and fs :: "js_file list"
    using that
  proof (induction fs arbitrary: m i)
    case (Cons f fs)
    have all: "filter (\<lambda>(j, _). j \<noteq> m) (zip [Suc m..<Suc (m + length fs)] fs) = zip [Suc m..<Suc (m + length fs)] fs"
      by (rule filter_True) (auto dest: set_zip_leftD)
    show ?case
    proof (cases i)
      case 0
      then show ?thesis using all by (simp add: upt_conv_Cons del: upt_Suc)
    next
      case (Suc k)
      then show ?thesis using Cons.IH [of k "Suc m"] Cons.prems by (simp add: upt_conv_Cons del: upt_Suc)
    qed
  qed simp
  from this [of i "im_files s" 0] show "i < length (im_files s) \<Longrightarrow> ?thesis" by (simp add: removeFile_def)
qed


definition photo :: js_file where
  "photo = \<lparr>file_name = ''a.jpg'', file_size = 1000, file_type = ''image/jpeg''\<rparr>"


definition preview_inv :: "'f preview_state \<Rightarrow> bool" where
  "preview_inv s \<longleftrightarrow> distinct (map fst (pv_cache s)) \<and> distinct (map snd (pv_cache s) @ pv_revoked s) \<and>
     set (map snd (pv_cache s) @ pv_revoked s) = {0..<pv_next s}"

lemma create_previews_inv:
  "preview_inv s \<Longrightarrow> preview_inv (create_previews fs s) \<and>
     fst ` set (pv_cache (create_previews fs s)) = fst ` set (pv_cache s) \<union> set fs \<and>
     pv_revoked (create_previews fs s) = pv_revoked s"
proof (induction fs arbitrary: s)
  case (Cons f fs)
  define s1 where "s1 = (if f \<in> fst ` set (pv_cache s) then s
      else s\<lparr>pv_cache := pv_cache s @ [(f, pv_next s)], pv_next := Suc (pv_next s)\<rparr>)"
  have "preview_inv s1" using Cons.prems by (auto simp: s1_def preview_inv_def)
  moreover have "fst ` set (pv_cache s1) = insert f (fst ` set (pv_cache s))" "pv_revoked s1 = pv_revoked s"
    by (auto simp: s1_def)
  ultimately show ?case using Cons.IH [of s1] by (simp add: s1_def [symmetric]) 
qed simp

lemma previews_effect_inv:
  assumes "preview_inv s"
  shows "preview_inv (previews_effect files s) \<and> fst ` set (pv_cache (previews_effect files s)) = set files"
proof -
  define s1 where "s1 = s\<lparr>pv_cache := filter (\<lambda>(f, _). f \<in> set files) (pv_cache s),
      pv_revoked := pv_revoked s @ map snd (filter (\<lambda>(f, _). f \<notin> set files) (pv_cache s))\<rparr>"
  have "preview_inv s1"
  proof -
    have d: "distinct (map fst (pv_cache s))" "distinct (map snd (pv_cache s))" "distinct (pv_revoked s)"
      "set (map snd (pv_cache s)) \<inter> set (pv_revoked s) = {}"
      "set (map snd (pv_cache s)) \<union> set (pv_revoked s) = {0..<pv_next s}"
      using assms by (auto simp: preview_inv_def)
    define K where "K = map snd (filter (\<lambda>(f, _). f \<in> set files) (pv_cache s))"
    define D where "D = map snd (filter (\<lambda>(f, _). f \<notin> set files) (pv_cache s))"
    have KD: "distinct K" "distinct D" "set K \<inter> set D = {}"
      using d(2) by (auto simp: K_def D_def distinct_map_filter distinct_map inj_on_def)
    have C: "set K \<union> set D = set (map snd (pv_cache s))" by (force simp: K_def D_def)
    have "set (K @ pv_revoked s @ D) = {0..<pv_next s}"
      unfolding set_append d(5) [symmetric] C [symmetric] by blast
    moreover have "distinct (K @ pv_revoked s @ D)"
      using KD d(3) d(4) [folded C] by auto
    moreover have "distinct (map fst (pv_cache s1))" using d(1) by (simp add: s1_def distinct_map_filter)
    ultimately show ?thesis unfolding preview_inv_def by (simp add: s1_def K_def D_def)
  qed
  moreover have "fst ` set (pv_cache s1) \<union> set files = set files" by (auto simp: s1_def)
  ultimately show ?thesis
    using create_previews_inv [of s1 files] by (simp add: previews_effect_def s1_def)
qed

lemma previews_after:
  "preview_inv (fold previews_effect selections no_previews) \<and>
     fst ` set (pv_cache (fold previews_effect selections no_previews)) =
       (if selections = [] then {} else set (last selections))"
proof (induction selections rule: rev_induct)
  case Nil
  then show ?case by (simp add: no_previews_def preview_inv_def)
next
  case (snoc x xs)
  then show ?case using previews_effect_inv [of "fold previews_effect xs no_previews" x] by simp
qed

lemma shown_previews_None: "i < length files \<Longrightarrow> shown_previews files s i = None \<longleftrightarrow> files ! i \<notin> fst ` set (pv_cache s)"
  by (simp add: shown_previews_def map_of_eq_None_iff)

text \<open>C38: The preview URLs do not leak, and come one rendering late. Whatever sequence of file selections
  the field renders, after each effect exactly the selected files have a URL, one each; when the field is
  unmounted every URL ever created has been revoked exactly once. But a rendering shows previews only of
  the files that the selection before had: a photo just selected has none until something else renders
  the field again.\<close>

theorem previews_do_not_leak:
  "(let s = fold previews_effect selections no_previews; before = (if selections = [] then {} else set (last selections)) in
    distinct (map fst (pv_cache s)) \<and> fst ` set (pv_cache s) = before \<and>
    distinct (pv_revoked (previews_unmount s)) \<and> set (pv_revoked (previews_unmount s)) = {0..<pv_next s} \<and>
    (\<forall>files i. i < length files \<longrightarrow>
      (shown_previews files s i = None \<longleftrightarrow> files ! i \<notin> before) \<and> shown_previews files (previews_effect files s) i \<noteq> None))"
  using previews_after [of selections] previews_effect_inv [of "fold previews_effect selections no_previews"]
  by (auto simp: Let_def preview_inv_def previews_unmount_def shown_previews_None)

theorem previews_do_not_leak_witness:
  "shown_previews [''a.jpg''] (fold previews_effect [] no_previews) 0 = None \<and>
   shown_previews [''a.jpg''] (previews_effect [''a.jpg''] no_previews) 0 \<noteq> None"
proof -
  have "\<forall>files i. i < length files \<longrightarrow>
      (shown_previews files no_previews i = None \<longleftrightarrow> files ! i \<notin> ({} :: string set)) \<and>
      shown_previews files (previews_effect files no_previews) i \<noteq> None"
    using previews_do_not_leak [of "[] :: string list list"] by (simp add: Let_def)
  from this [rule_format, of 0 "[''a.jpg'']"] show ?thesis by simp
qed

end
