(* ===== verification/Listing_Editors.thy ===== *)
theory Listing_Editors
  imports Listing_Form
begin

text \<open>
  \<open>src/pages/CreateListingPage.tsx\<close> and \<open>EditListingPage.tsx\<close>. The submit handlers run
  several requests one after the other; the stage records which one is awaited, with the photos as
  they were when the handler started (the closure's \<open>images\<close>). A page that has navigated away
  offers nothing.
\<close>

section \<open>Creating a listing\<close>

datatype editor_answer = Created string | Updated | Uploaded | Thrown js_exn

datatype editor_request =
    Create_listing listing_create | Update_listing string listing_create | Upload_images string "js_file list"

datatype create_stage = CreateIdle | Creating "js_file list" | CreateUploading string

record create_state =
  cr_form :: listing_form_state
  cr_images :: image_state
  cr_formError :: "string option"
  cr_serverFieldErrors :: "string js_object"
  cr_createdListingId :: "string option"
  cr_stage :: create_stage
  cr_left :: "string option"

definition create_initial :: create_state where
  "create_initial =
     \<lparr>cr_form = listing_form_initial EMPTY_LISTING_FORM_VALUES, cr_images = no_images, cr_formError = None,
      cr_serverFieldErrors = [], cr_createdListingId = None, cr_stage = CreateIdle, cr_left = None\<rparr>"

datatype create_action = Create_form listing_form_action | Create_images image_action

text \<open>From the point where the listing exists: upload the photos, or go to the listing.\<close>

definition create_upload :: "string \<Rightarrow> js_file list \<Rightarrow> create_state \<Rightarrow> create_state \<times> editor_request option" where
  "create_upload lid files s =
     (if files \<noteq> [] then (s\<lparr>cr_stage := CreateUploading lid\<rparr>, Some (Upload_images lid files))
      else (s\<lparr>cr_stage := CreateIdle, cr_left := Some (''/listings/'' @ lid)\<rparr>, None))"

definition create_submit :: "listing_create \<Rightarrow> create_state \<Rightarrow> create_state \<times> editor_request option" where
  "create_submit body s =
     (let s = s\<lparr>cr_formError := None, cr_serverFieldErrors := []\<rparr>;
          files = im_files (cr_images s)
      in if truthy (cr_createdListingId s) then create_upload (the (cr_createdListingId s)) files s
         else (s\<lparr>cr_stage := Creating files\<rparr>, Some (Create_listing body)))"

fun create_act :: "create_action \<Rightarrow> create_state \<Rightarrow> create_state \<times> editor_request option" where
  "create_act (Create_form a) s =
     (case listing_form_act a (cr_form s) of
        (f, None) \<Rightarrow> (s\<lparr>cr_form := f\<rparr>, None)
      | (f, Some body) \<Rightarrow> create_submit body (s\<lparr>cr_form := f\<rparr>))"
| "create_act (Create_images a) s = (s\<lparr>cr_images := image_step 0 a (cr_images s)\<rparr>, None)"

definition create_failed :: "js_exn \<Rightarrow> create_state \<Rightarrow> create_state" where
  "create_failed e s =
     s\<lparr>cr_stage := CreateIdle, cr_serverFieldErrors := error_fields (toFormErrors e),
       cr_formError := formMessage (toFormErrors e)\<rparr>"

text \<open>The continuation of the handler; an answer that does not fit the request ends it.\<close>

definition create_done :: "editor_answer \<Rightarrow> create_state \<Rightarrow> create_state \<times> editor_request option" where
  "create_done out s =
     (case (out, cr_stage s) of
        (Thrown e, _) \<Rightarrow> (create_failed e s, None)
      | (Created lid, Creating files) \<Rightarrow> create_upload lid files (s\<lparr>cr_createdListingId := Some lid\<rparr>)
      | (Uploaded, CreateUploading lid) \<Rightarrow>
          (s\<lparr>cr_stage := CreateIdle, cr_left := Some (''/listings/'' @ lid)\<rparr>, None)
      | _ \<Rightarrow> (s\<lparr>cr_stage := CreateIdle\<rparr>, None))"

definition create_busy :: "create_state \<Rightarrow> bool" where
  "create_busy s \<longleftrightarrow> cr_stage s \<noteq> CreateIdle"

definition form_error_line :: "string option \<Rightarrow> 'a node list" where
  "form_error_line e = opt_node e alert"

definition create_view :: "(nat \<Rightarrow> string option) \<Rightarrow> create_state \<Rightarrow> create_action node" where
  "create_view src s =
     (if cr_left s \<noteq> None then box DIV []
      else
        box DIV
         [PageHeader ''List a copy''
            (Some ''A few details now, and it's live on Punah-Pustak for other readers to find.'') [],
          box DIV
           [ListingForm Create_form ''Create listing'' (create_busy s) (cr_serverFieldErrors s) (cr_form s)
             ([map_node Create_images
                 (ImageUploadField 0 (get_prop (cr_serverFieldErrors s) ''images'') src (cr_images s))] @
              only_if (truthy (cr_createdListingId s))
                [words_of PARA (''Your listing was saved. Fix the image issue below and submit again to finish adding '' @
                                ''photos, or come back to it later from My Listings.'')] @
              form_error_line (cr_formError s))]])"

section \<open>Editing a listing\<close>

datatype edit_stage = EditIdle | Updating_listing "js_file list" | EditUploading

record edit_state =
  ed_form :: listing_form_state
  ed_images :: image_state
  ed_formError :: "string option"
  ed_serverFieldErrors :: "string js_object"
  ed_stage :: edit_stage
  ed_left :: "string option"

definition initial_values :: "'l listing_public_scheme \<Rightarrow> listing_form_values" where
  "initial_values l =
     \<lparr>v_title = listing_title l, v_author = listing_author l, v_description = listing_description l,
      v_category = category_value (listing_category l), v_condition = condition_value (listing_condition l),
      v_price = listing_price l\<rparr>"

definition edit_initial :: "'l listing_public_scheme \<Rightarrow> edit_state" where
  "edit_initial l =
     \<lparr>ed_form = listing_form_initial (initial_values l), ed_images = no_images, ed_formError = None,
      ed_serverFieldErrors = [], ed_stage = EditIdle, ed_left = None\<rparr>"

datatype edit_action = Edit_form listing_form_action | Edit_images image_action

fun edit_act :: "string \<Rightarrow> 'l listing_public_scheme \<Rightarrow> edit_action \<Rightarrow> edit_state \<Rightarrow> edit_state \<times> editor_request option" where
  "edit_act pageId l (Edit_form a) s =
     (case listing_form_act a (ed_form s) of
        (f, None) \<Rightarrow> (s\<lparr>ed_form := f\<rparr>, None)
      | (f, Some body) \<Rightarrow>
          (s\<lparr>ed_form := f, ed_formError := None, ed_serverFieldErrors := [],
             ed_stage := Updating_listing (im_files (ed_images s))\<rparr>,
           Some (Update_listing pageId body)))"
| "edit_act pageId l (Edit_images a) s =
     (s\<lparr>ed_images := image_step (int (length (listing_images l))) a (ed_images s)\<rparr>, None)"

definition edit_done :: "string \<Rightarrow> editor_answer \<Rightarrow> edit_state \<Rightarrow> edit_state \<times> editor_request option" where
  "edit_done pageId out s =
     (case (out, ed_stage s) of
        (Thrown e, _) \<Rightarrow>
          (s\<lparr>ed_stage := EditIdle, ed_serverFieldErrors := error_fields (toFormErrors e),
             ed_formError := formMessage (toFormErrors e)\<rparr>, None)
      | (Updated, Updating_listing files) \<Rightarrow>
          if files \<noteq> [] \<and> pageId \<noteq> []
          then (s\<lparr>ed_stage := EditUploading\<rparr>, Some (Upload_images pageId files))
          else (s\<lparr>ed_stage := EditIdle, ed_left := Some (''/listings/'' @ pageId)\<rparr>, None)
      | (Uploaded, EditUploading) \<Rightarrow>
          (s\<lparr>ed_stage := EditIdle, ed_left := Some (''/listings/'' @ pageId)\<rparr>, None)
      | _ \<Rightarrow> (s\<lparr>ed_stage := EditIdle\<rparr>, None))"

definition edit_busy :: "edit_state \<Rightarrow> bool" where
  "edit_busy s \<longleftrightarrow> ed_stage s \<noteq> EditIdle"

definition is_owner :: "user_public option \<Rightarrow> 'l listing_public_scheme \<Rightarrow> bool" where
  "is_owner user l \<longleftrightarrow> (case user of Some u \<Rightarrow> user_id u = owner_id l | None \<Rightarrow> False)"

definition edit_form_view :: "(nat \<Rightarrow> string option) \<Rightarrow> 'l listing_public_scheme \<Rightarrow> edit_state \<Rightarrow> edit_action node" where
  "edit_form_view src l s =
     box DIV
      [PageHeader ''Edit listing'' (Some ''Keep your listing accurate and up to date.'') [],
       box DIV
        [ListingForm Edit_form ''Save changes'' (edit_busy s) (ed_serverFieldErrors s) (ed_form s)
          ([map_node Edit_images
              (ImageUploadField (int (length (listing_images l))) (get_prop (ed_serverFieldErrors s) ''images'') src
                (ed_images s))] @
           form_error_line (ed_formError s))]]"

definition edit_view ::
    "(nat \<Rightarrow> string option) \<Rightarrow> user_public option \<Rightarrow> bool \<Rightarrow> js_exn option \<Rightarrow> 'l listing_public_scheme option \<Rightarrow> edit_state \<Rightarrow> edit_action node list" where
  "edit_view src user isPending err listing s =
     (if ed_left s \<noteq> None then []
      else QueryState isPending err False ''Nothing to show yet.'' None None
       (case listing of
          None \<Rightarrow> []
        | Some l \<Rightarrow>
            only_if (\<not> is_owner user l) [alert ''You don't have permission to edit this listing.''] @
            only_if (is_owner user l \<and> listing_status l \<noteq> Available)
             [box DIV [box DIV
               [words_of PARA (''This listing is '' @ status_value (listing_status l) @ '' and can no longer be edited.''),
                link_to (''/listings/'' @ listing_id l) [Text ''Back to listing'']]]] @
            only_if (is_owner user l \<and> listing_status l = Available) [edit_form_view src l s]))"

section \<open>The pages respect the contract of forms\<close>

lemma ImageUploadField_no_submit [simp]: "submit_buttons (ImageUploadField n err src s) = []"
  by (auto simp: ImageUploadField_def Let_def image_item_def opt_node_def only_if_def split: option.split)

lemma form_error_line_simps [simp]:
  "\<not> offers_any (form_error_line e) a" "concat (map submit_buttons (form_error_line e)) = []"
  by (auto simp: form_error_line_def opt_node_def only_if_def split: option.splits)

lemma create_offers:
  "offers (create_view src s) a \<longleftrightarrow> cr_left s = None \<and>
     ((\<exists>b. a = Create_form b \<and> (b = Submit_listing \<longrightarrow> \<not> create_busy s)) \<or>
      (\<exists>b. a = Create_images b \<and> offers (ImageUploadField 0 (get_prop (cr_serverFieldErrors s) ''images'') src (cr_images s)) b))"
proof -
  have "concat (map submit_buttons ([map_node Create_images (ImageUploadField 0 (get_prop (cr_serverFieldErrors s) ''images'') src (cr_images s))] @
      only_if (truthy (cr_createdListingId s)) [words_of PARA x] @ form_error_line (cr_formError s))) = []" for x
    by (cases "truthy (cr_createdListingId s)") simp_all
  from ListingForm_offers [OF this] show ?thesis
    by (auto simp: create_view_def offers_map_node)
qed

lemma listing_form_quiet: "b \<noteq> Submit_listing \<Longrightarrow> snd (listing_form_act b f) = None"
  by (cases b) auto

interpretation create: form_flow "create_view src" create_act create_done create_busy
  for src
proof unfold_locales
  fix a s
  show "snd (create_act a s) \<noteq> None \<Longrightarrow> create_busy (fst (create_act a s))"
    by (cases a) (auto simp: create_submit_def create_upload_def create_busy_def Let_def split: prod.splits option.splits if_splits)
  show "offers (create_view src s) a \<Longrightarrow> snd (create_act a s) = None \<Longrightarrow> create_busy (fst (create_act a s)) = create_busy s"
  proof (cases a)
    case (Create_form b)
    then show "offers (create_view src s) a \<Longrightarrow> snd (create_act a s) = None \<Longrightarrow> ?thesis"
      using listing_form_quiet [of b "cr_form s"]
      by (auto simp: create_offers create_submit_def create_upload_def create_busy_def Let_def
          split: prod.splits option.splits if_splits)
  qed (simp add: create_busy_def)
  show "create_busy s \<Longrightarrow> offers (create_view src s) a \<Longrightarrow> snd (create_act a s) = None"
  proof (cases a)
    case (Create_form b)
    assume "create_busy s" "offers (create_view src s) a"
    then have "snd (listing_form_act b (cr_form s)) = None"
      using Create_form by (intro listing_form_quiet) (auto simp: create_offers)
    then show ?thesis using Create_form by (auto split: prod.split option.split)
  qed simp
next
  fix out s
  show "create_busy (fst (create_done out s)) \<longleftrightarrow> snd (create_done out s) \<noteq> None"
    by (cases out; cases "cr_stage s")
      (auto simp: create_done_def create_failed_def create_upload_def create_busy_def)
qed

lemma edit_form_view_offers:
  "offers (edit_form_view src l s) a \<longleftrightarrow>
     (\<exists>b. a = Edit_form b \<and> (b = Submit_listing \<longrightarrow> \<not> edit_busy s)) \<or>
     (\<exists>b. a = Edit_images b \<and> offers (ImageUploadField (int (length (listing_images l)))
        (get_prop (ed_serverFieldErrors s) ''images'') src (ed_images s)) b)"
proof -
  have "concat (map submit_buttons ([map_node Edit_images (ImageUploadField (int (length (listing_images l)))
      (get_prop (ed_serverFieldErrors s) ''images'') src (ed_images s))] @ form_error_line (ed_formError s))) = []"
    by simp
  from ListingForm_offers [OF this] show ?thesis
    by (auto simp: edit_form_view_def offers_map_node)
qed

lemma edit_offers:
  "offers_any (edit_view src user isPending err listing s) a \<Longrightarrow>
     \<exists>l. listing = Some l \<and> \<not> isPending \<and> err = None \<and> ed_left s = None \<and> is_owner user l \<and>
       listing_status l = Available \<and> offers (edit_form_view src l s) a"
  by (auto simp: edit_view_def split: if_splits option.splits)

interpretation edit: form_flow "edit_form_view src l" "edit_act pageId l" "edit_done pageId" edit_busy for src l pageId
proof unfold_locales
  fix a s
  show "snd (edit_act pageId l a s) \<noteq> None \<Longrightarrow> edit_busy (fst (edit_act pageId l a s))"
    by (cases a) (auto simp: edit_busy_def split: prod.splits option.splits)
  show "snd (edit_act pageId l a s) = None \<Longrightarrow> edit_busy (fst (edit_act pageId l a s)) = edit_busy s"
    by (cases a) (auto simp: edit_busy_def split: prod.splits option.splits)
  show "edit_busy s \<Longrightarrow> offers (edit_form_view src l s) a \<Longrightarrow> snd (edit_act pageId l a s) = None"
  proof (cases a)
    case (Edit_form b)
    assume "edit_busy s" "offers (edit_form_view src l s) a"
    then have "snd (listing_form_act b (ed_form s)) = None"
      using Edit_form by (intro listing_form_quiet) (auto simp: edit_form_view_offers)
    then show ?thesis using Edit_form by (auto split: prod.split option.split)
  qed simp
next
  fix out s
  show "edit_busy (fst (edit_done pageId out s)) \<longleftrightarrow> snd (edit_done pageId out s) \<noteq> None"
    by (cases out; cases "ed_stage s") (auto simp: edit_done_def edit_busy_def)
qed

section \<open>Properties\<close>

text \<open>What a run of the create page has sent: first requests to create, then uploads for the one
  listing that exists.\<close>

definition create_log :: "create_state \<Rightarrow> editor_request list \<Rightarrow> bool" where
  "create_log s sent \<longleftrightarrow>
     (\<exists>bodies uploads. sent = map Create_listing bodies @ uploads \<and>
        (case cr_createdListingId s of
           None \<Rightarrow> uploads = [] \<and> (\<forall>i. cr_stage s \<noteq> CreateUploading i)
         | Some lid \<Rightarrow> lid \<noteq> [] \<and> (\<forall>q \<in> set uploads. \<exists>fs. q = Upload_images lid fs) \<and>
             cr_stage s \<in> {CreateIdle, CreateUploading lid}))"

lemma create_log_cong:
  "cr_createdListingId s' = cr_createdListingId s \<Longrightarrow> cr_stage s' = cr_stage s \<Longrightarrow> create_log s' sent = create_log s sent"
  by (simp add: create_log_def cong: option.case_cong)

lemma create_log_act:
  assumes "create_log s sent" and "offers (create_view src s) a"
  shows "case create_act a s of (s', None) \<Rightarrow> create_log s' sent | (s', Some q) \<Rightarrow> create_log s' (sent @ [q])"
proof (cases a)
  case (Create_images b)
  then show ?thesis using assms(1) create_log_cong [of "fst (create_act a s)" s] by simp
next
  case (Create_form b)
  obtain f r where fr: "listing_form_act b (cr_form s) = (f, r)" by fastforce
  show ?thesis
  proof (cases r)
    case None
    then show ?thesis using assms(1) Create_form fr create_log_cong [of "s\<lparr>cr_form := f\<rparr>" s] by simp
  next
    case (Some body)
    then have "b = Submit_listing" using listing_form_quiet [of b "cr_form s"] fr by auto
    then have idle: "cr_stage s = CreateIdle" using assms(2) Create_form by (simp add: create_offers create_busy_def)
    obtain bodies uploads where log: "sent = map Create_listing bodies @ uploads"
      "case cr_createdListingId s of
           None \<Rightarrow> uploads = [] \<and> (\<forall>i. cr_stage s \<noteq> CreateUploading i)
         | Some lid \<Rightarrow> lid \<noteq> [] \<and> (\<forall>q \<in> set uploads. \<exists>fs. q = Upload_images lid fs) \<and>
             cr_stage s \<in> {CreateIdle, CreateUploading lid}"
      using assms(1) unfolding create_log_def by blast
    show ?thesis
    proof (cases "cr_createdListingId s")
      case None
      then have "sent @ [Create_listing body] = map Create_listing (bodies @ [body]) @ []" using log by simp
      then show ?thesis using Create_form fr Some None
        by (auto simp: create_submit_def create_log_def Let_def intro!: exI [of _ "bodies @ [body]"])
    next
      case (Some lid)
      note facts = Create_form fr \<open>r = Some body\<close> log idle Some
      show ?thesis
      proof (cases "im_files (cr_images s) = []")
        case True
        then show ?thesis using facts
          by (auto simp: create_submit_def create_upload_def create_log_def Let_def
              intro!: exI [of _ bodies] exI [of _ uploads])
      next
        case False
        then show ?thesis using facts
          by (auto simp: create_submit_def create_upload_def create_log_def Let_def
              intro!: exI [of _ bodies] exI [of _ "uploads @ [Upload_images lid (im_files (cr_images s))]"])
      qed
    qed
  qed
qed

lemma create_log_done:
  assumes "create_log s sent" and "out \<noteq> Created []"
  shows "case create_done out s of (s', None) \<Rightarrow> create_log s' sent | (s', Some q) \<Rightarrow> create_log s' (sent @ [q])"
proof -
  obtain bodies uploads where log: "sent = map Create_listing bodies @ uploads"
    "case cr_createdListingId s of
         None \<Rightarrow> uploads = [] \<and> (\<forall>i. cr_stage s \<noteq> CreateUploading i)
       | Some lid \<Rightarrow> lid \<noteq> [] \<and> (\<forall>q \<in> set uploads. \<exists>fs. q = Upload_images lid fs) \<and>
           cr_stage s \<in> {CreateIdle, CreateUploading lid}"
    using assms(1) unfolding create_log_def by blast
  have idle: "create_log s' sent" if "cr_createdListingId s' = cr_createdListingId s" "cr_stage s' = CreateIdle" for s'
    unfolding create_log_def
    by (intro exI [of _ bodies] exI [of _ uploads]) (use log that in \<open>auto split: option.splits\<close>)
  show ?thesis
  proof (cases "\<exists>lid files. out = Created lid \<and> cr_stage s = Creating files")
    case True
    then obtain lid files where c: "out = Created lid" "cr_stage s = Creating files" by blast
    then have none: "cr_createdListingId s = None" "uploads = []" using log(2) by (auto split: option.splits)
    show ?thesis
    proof (cases "files = []")
      case True
      then show ?thesis unfolding create_log_def using c none log(1) assms(2)
        by (auto simp: create_done_def create_upload_def intro!: exI [of _ bodies] exI [of _ "[] :: editor_request list"])
    next
      case False
      then show ?thesis unfolding create_log_def using c none log(1) assms(2)
        by (auto simp: create_done_def create_upload_def intro!: exI [of _ bodies] exI [of _ "[Upload_images lid files]"])
    qed
  next
    case False
    then have "\<exists>s'. create_done out s = (s', None) \<and> cr_createdListingId s' = cr_createdListingId s \<and> cr_stage s' = CreateIdle"
      by (cases out; cases "cr_stage s") (auto simp: create_done_def create_failed_def)
    then show ?thesis using idle by auto
  qed
qed

lemma create_run_log:
  assumes "form_run (create_view src) create_act create_done es (s, n, sent) = Some (s', n', sent')"
    and "create_log s sent" and "Settle (Created []) \<notin> set es"
  shows "create_log s' sent'"
  using assms
proof (induction es arbitrary: s n sent)
  case (Cons e es)
  show ?case
  proof (cases e)
    case (Act a)
    then have "offers (create_view src s) a" using Cons.prems by (auto split: if_splits)
    from create_log_act [OF Cons.prems(2) this] show ?thesis
      using Cons.prems Act by (auto split: prod.splits option.splits if_splits intro: Cons.IH)
  next
    case (Settle out)
    then have "out \<noteq> Created []" using Cons.prems(3) by auto
    from create_log_done [OF Cons.prems(2) this] show ?thesis
      using Cons.prems Settle by (auto split: prod.splits option.splits if_splits intro: Cons.IH)
  qed
qed simp

lemma create_log_initial: "create_log create_initial []"
  by (simp add: create_log_def create_initial_def)

text \<open>C22: The create page never makes a second listing. In every run of the page (whose created
  listings have an id), made of actions it offers and of answers, at most one request is outstanding;
  the requests sent are attempts to create, then uploads for the one listing that came of them; and
  once it exists, submitting again sends no other request than an upload for it.\<close>

theorem create_makes_one_listing:
  assumes "form_run (create_view src) create_act create_done es (create_initial, 0, []) = Some (s, n, sent)"
    and "Settle (Created []) \<notin> set es"
  shows "n \<le> 1 \<and> (\<exists>bodies uploads. sent = map Create_listing bodies @ uploads \<and>
    (case cr_createdListingId s of
       None \<Rightarrow> uploads = []
     | Some lid \<Rightarrow> (\<forall>q \<in> set uploads. \<exists>fs. q = Upload_images lid fs) \<and>
         (\<forall>a q. snd (create_act a s) = Some q \<longrightarrow> (\<exists>fs. q = Upload_images lid fs))))"
proof
  show "n \<le> 1" using create.at_most_one_request [OF assms(1)] by (simp add: create_busy_def create_initial_def)
  have log: "create_log s sent" using create_run_log [OF assms(1) create_log_initial assms(2)] .
  have later: "\<exists>fs. q = Upload_images lid fs" if "cr_createdListingId s = Some lid" "snd (create_act a s) = Some q" for lid a q
  proof -
    have "lid \<noteq> []" using log that(1) by (auto simp: create_log_def)
    then show ?thesis using that
      by (cases a) (auto simp: create_submit_def create_upload_def Let_def split: prod.splits option.splits if_splits)
  qed
  show "\<exists>bodies uploads. sent = map Create_listing bodies @ uploads \<and>
    (case cr_createdListingId s of
       None \<Rightarrow> uploads = []
     | Some lid \<Rightarrow> (\<forall>q \<in> set uploads. \<exists>fs. q = Upload_images lid fs) \<and>
         (\<forall>a q. snd (create_act a s) = Some q \<longrightarrow> (\<exists>fs. q = Upload_images lid fs)))"
  proof -
    obtain bodies uploads where parts: "sent = map Create_listing bodies @ uploads"
      "case cr_createdListingId s of
           None \<Rightarrow> uploads = [] \<and> (\<forall>i. cr_stage s \<noteq> CreateUploading i)
         | Some lid \<Rightarrow> lid \<noteq> [] \<and> (\<forall>q \<in> set uploads. \<exists>fs. q = Upload_images lid fs) \<and>
             cr_stage s \<in> {CreateIdle, CreateUploading lid}"
      using log unfolding create_log_def by blast
    show ?thesis
      by (rule exI [of _ bodies], rule exI [of _ uploads])
        (use parts later in \<open>auto split: option.splits\<close>)
  qed
qed

text \<open>A page on which a listing was created and its upload failed.\<close>

definition upload_failed :: "(create_action, editor_answer) form_event list" where
  "upload_failed =
     [Act (Create_form (Set_title ''Emma'')), Act (Create_form (Set_author ''Austen'')),
      Act (Create_form (Set_description ''Worn'')), Act (Create_form (Set_category ''fiction'')),
      Act (Create_form (Set_condition ''good'')), Act (Create_form (Set_price ''4'')),
      Act (Create_images (Select_files [photo])), Act (Create_form Submit_listing), Settle (Created ''l1''),
      Settle (Thrown NotAnError)]"

definition emma :: listing_form_values where
  "emma = \<lparr>v_title = ''Emma'', v_author = ''Austen'', v_description = ''Worn'', v_category = ''fiction'',
     v_condition = ''good'', v_price = ''4''\<rparr>"

lemma validate_emma: "validate emma = []" "validate (emma\<lparr>v_title := ''Persuasion''\<rparr>) = []"
  by code_simp+

lemma upload_failed_run:
  "\<exists>s sent. form_run (create_view src) create_act create_done upload_failed (create_initial, 0, []) = Some (s, 0, sent) \<and>
     cr_createdListingId s = Some ''l1'' \<and> cr_stage s = CreateIdle \<and> cr_left s = None \<and>
     lf_values (cr_form s) = emma \<and> im_files (cr_images s) = [photo]"
  using validate_emma(1)
  by (simp add: upload_failed_def create_offers create_initial_def listing_form_initial_def no_images_def
      EMPTY_LISTING_FORM_VALUES_def handleSelect_def addFiles_def create_submit_def create_upload_def create_busy_def
      create_done_def create_failed_def ImageUploadField_offers remaining_def MAX_IMAGES_PER_LISTING_def emma_def)

theorem create_makes_one_listing_witness:
  "\<exists>s sent. form_run (create_view (\<lambda>_. None)) create_act create_done upload_failed (create_initial, 0, []) = Some (s, 0, sent) \<and>
     (\<forall>a q. snd (create_act a s) = Some q \<longrightarrow> (\<exists>fs. q = Upload_images ''l1'' fs))"
proof -
  obtain s sent where run: "form_run (create_view (\<lambda>_. None)) create_act create_done upload_failed (create_initial, 0, []) = Some (s, 0, sent)"
      "cr_createdListingId s = Some ''l1''" using upload_failed_run by blast
  have "Settle (Created []) \<notin> set upload_failed" by (simp add: upload_failed_def)
  from create_makes_one_listing [OF run(1) this] run show ?thesis by auto
qed

text \<open>After a failed upload, edits to the listing's fields are dropped without notice. There is a run
  in which the listing has been created, its upload has failed, and the user corrects the title and
  submits again: the page accepts this, sends only the photos, and goes to the listing as if all had
  been saved; the corrected title is never sent.\<close>

theorem edits_after_failed_upload_lost:
  "\<exists>s sent s' sent'.
     form_run (create_view src) create_act create_done upload_failed (create_initial, 0, []) = Some (s, 0, sent) \<and>
     form_run (create_view src) create_act create_done
       [Act (Create_form (Set_title ''Persuasion'')), Act (Create_form Submit_listing), Settle Uploaded]
       (s, 0, sent) = Some (s', 0, sent') \<and>
     v_title (lf_values (cr_form s')) = ''Persuasion'' \<and> cr_left s' = Some ''/listings/l1'' \<and>
     sent' = sent @ [Upload_images ''l1'' [photo]]"
proof -
  obtain s sent where run: "form_run (create_view src) create_act create_done upload_failed (create_initial, 0, []) = Some (s, 0, sent)"
      "cr_createdListingId s = Some ''l1''" "cr_stage s = CreateIdle" "cr_left s = None"
      "lf_values (cr_form s) = emma" "im_files (cr_images s) = [photo]" using upload_failed_run by blast
  show ?thesis
    by (rule exI [of _ s], rule exI [of _ sent])
      (use run validate_emma(2) in \<open>simp add: create_offers create_submit_def create_upload_def create_busy_def
        create_done_def\<close>)
qed

definition edits_of :: "string \<Rightarrow> editor_request list \<Rightarrow> bool" where
  "edits_of pageId sent \<longleftrightarrow>
     (\<forall>q \<in> set sent. (\<exists>body. q = Update_listing pageId body) \<or> (\<exists>fs. q = Upload_images pageId fs))"

lemma edit_run_edits:
  assumes "form_run (edit_form_view src l) (edit_act pageId l) (edit_done pageId) es (edit_initial l, 0, []) = Some (s, n, sent)"
  shows "edits_of pageId sent"
proof (rule form_run_invariant [where P = "\<lambda>_. edits_of pageId", OF assms])
  fix a t and sent :: "editor_request list"
  assume "edits_of pageId sent"
  then show "case edit_act pageId l a t of (s', None) \<Rightarrow> edits_of pageId sent | (s', Some q) \<Rightarrow> edits_of pageId (sent @ [q])"
    by (cases a) (auto simp: edits_of_def split: prod.splits option.splits)
next
  fix out t and sent :: "editor_request list"
  assume "edits_of pageId sent"
  then show "case edit_done pageId out t of (s', None) \<Rightarrow> edits_of pageId sent | (s', Some q) \<Rightarrow> edits_of pageId (sent @ [q])"
    by (cases out; cases "ed_stage t") (auto simp: edits_of_def edit_done_def)
qed (simp add: edits_of_def)

text \<open>C23: Only the owner can edit, only while the listing is available, and what the edit sends is for this
  listing. Whatever the query has returned, the edit page offers an action only if it has loaded a
  listing, the user is logged in as its owner and its status is available; and in every run its
  form sends nothing but updates of this listing and uploads to it, with one outstanding at most.\<close>

theorem edit_guarded:
  "(offers_any (edit_view src user isPending err listing s) a \<longrightarrow>
     (\<exists>l u. listing = Some l \<and> user = Some u \<and> user_id u = owner_id l \<and> listing_status l = Available)) \<and>
   (form_run (edit_form_view src l) (edit_act pageId l) (edit_done pageId) es (edit_initial l, 0, []) = Some (s', n, sent) \<longrightarrow>
     n \<le> 1 \<and> edits_of pageId sent)"
proof (intro conjI impI)
  assume "offers_any (edit_view src user isPending err listing s) a"
  from edit_offers [OF this] show "\<exists>l u. listing = Some l \<and> user = Some u \<and> user_id u = owner_id l \<and> listing_status l = Available"
    by (auto simp: is_owner_def split: option.splits)
next
  assume run: "form_run (edit_form_view src l) (edit_act pageId l) (edit_done pageId) es (edit_initial l, 0, []) = Some (s', n, sent)"
  show "n \<le> 1" using edit.at_most_one_request [OF run] by (simp add: edit_busy_def edit_initial_def)
  show "edits_of pageId sent" by (rule edit_run_edits [OF run])
qed

theorem edit_guarded_witness:
  "\<exists>s. form_run (edit_form_view (\<lambda>_. None) sample_listing) (edit_act ''l1'' sample_listing) (edit_done ''l1'')
      [Act (Edit_form Submit_listing)] (edit_initial sample_listing, 0, []) =
      Some (s, 1, [Update_listing ''l1'' (submitted_values (initial_values sample_listing))]) \<and>
     edits_of ''l1'' [Update_listing ''l1'' (submitted_values (initial_values sample_listing))]"
proof -
  have "validate (initial_values sample_listing) = []" by code_simp
  then obtain s where "form_run (edit_form_view (\<lambda>_. None) sample_listing) (edit_act ''l1'' sample_listing) (edit_done ''l1'')
      [Act (Edit_form Submit_listing)] (edit_initial sample_listing, 0, []) =
      Some (s, 1, [Update_listing ''l1'' (submitted_values (initial_values sample_listing))])"
    by (simp add: edit_form_view_offers edit_initial_def listing_form_initial_def edit_busy_def)
  then show ?thesis
    using edit_guarded [where pageId = "''l1''" and l = sample_listing and es = "[Act (Edit_form Submit_listing)]"] by blast
qed

end
