(* ===== verification/Query_Hooks.thy ===== *)
theory Query_Hooks
  imports Endpoints
begin

text \<open>
  \<open>src/hooks\<close>: the queries and mutations through which the pages read and write the server's state,
  with the keys under which TanStack Query caches the answers; the debounced value of the search
  field; the media query. The query client is not part of the program: a hook is modelled by what it
  passes to the client, and the pages take the client's answer as an argument.
\<close>

section \<open>Queries\<close>

text \<open>A key is an array of strings, closed by the parameters where the query has some.\<close>

datatype key_part = KStr string | KBrowse browse_filters | KPage page_params | KAdminListings "string option" page_params

type_synonym query_key = "key_part list"

definition listingKeys_browse :: "browse_filters \<Rightarrow> query_key" where
  "listingKeys_browse f = [KStr ''listings'', KStr ''browse'', KBrowse f]"

definition listingKeys_detail :: "string \<Rightarrow> query_key" where
  "listingKeys_detail lid = [KStr ''listings'', KStr ''detail'', KStr lid]"

definition listingKeys_mine :: query_key where
  "listingKeys_mine = [KStr ''listings'', KStr ''mine'']"

definition listingKeys_mySummary :: query_key where
  "listingKeys_mySummary = [KStr ''listings'', KStr ''mine'', KStr ''summary'']"

definition adminKeys_users :: "page_params \<Rightarrow> query_key" where
  "adminKeys_users p = [KStr ''admin'', KStr ''users'', KPage p]"

definition adminKeys_listings :: "string option \<Rightarrow> page_params \<Rightarrow> query_key" where
  "adminKeys_listings st p = [KStr ''admin'', KStr ''listings'', KAdminListings st p]"

text \<open>What a hook asks of the client: the key, the call to make, and whether the data of the previous
  key stays visible meanwhile.\<close>

record server_query =
  q_key :: query_key
  q_call :: api_call
  q_keepPrevious :: bool

definition useBrowseListings :: "browse_filters \<Rightarrow> server_query" where
  "useBrowseListings f = \<lparr>q_key = listingKeys_browse f, q_call = browseListings f, q_keepPrevious = True\<rparr>"

definition useListing :: "string \<Rightarrow> server_query" where
  "useListing lid = \<lparr>q_key = listingKeys_detail lid, q_call = getListing lid, q_keepPrevious = False\<rparr>"

definition useMyListings :: server_query where
  "useMyListings = \<lparr>q_key = listingKeys_mine, q_call = getMyListings, q_keepPrevious = False\<rparr>"

definition useMyListingsSummary :: server_query where
  "useMyListingsSummary = \<lparr>q_key = listingKeys_mySummary, q_call = getOwnListingsSummary, q_keepPrevious = False\<rparr>"

definition useAdminUsers :: "page_params \<Rightarrow> server_query" where
  "useAdminUsers p = \<lparr>q_key = adminKeys_users p, q_call = listUsers p, q_keepPrevious = True\<rparr>"

definition useAdminListings :: "string option \<Rightarrow> page_params \<Rightarrow> server_query" where
  "useAdminListings st p = \<lparr>q_key = adminKeys_listings st p, q_call = listAdminListings st p, q_keepPrevious = True\<rparr>"

lemmas query_hook_defs =
  useBrowseListings_def useListing_def useMyListings_def useMyListingsSummary_def useAdminUsers_def useAdminListings_def

lemmas query_key_defs =
  listingKeys_browse_def listingKeys_detail_def listingKeys_mine_def listingKeys_mySummary_def adminKeys_users_def
  adminKeys_listings_def

text \<open>The answer of the client, as far as the pages read it.\<close>

record 'd query_result =
  isPending :: bool
  query_error :: "js_exn option"
  query_data :: "'d option"

inductive hook_query :: "server_query \<Rightarrow> bool" where
  "hook_query (useBrowseListings f)"
| "hook_query (useListing lid)"
| "hook_query useMyListings"
| "hook_query useMyListingsSummary"
| "hook_query (useAdminUsers p)"
| "hook_query (useAdminListings st p)"

section \<open>Mutations\<close>

text \<open>A mutation makes a call and, on success, invalidates the queries under some keys.\<close>

record server_mutation =
  m_call :: api_call
  m_invalidates :: "query_key list"

definition invalidateListingLists :: "query_key list" where
  "invalidateListingLists = [[KStr ''listings'', KStr ''browse''], listingKeys_mine, listingKeys_mySummary]"

definition useCreateListing :: "listing_create \<Rightarrow> server_mutation" where
  "useCreateListing body = \<lparr>m_call = createListing body, m_invalidates = invalidateListingLists\<rparr>"

definition useUpdateListing :: "string \<Rightarrow> listing_create \<Rightarrow> server_mutation" where
  "useUpdateListing lid body =
     \<lparr>m_call = updateListing lid body, m_invalidates = listingKeys_detail lid # invalidateListingLists\<rparr>"

definition useDeleteListing :: "string \<Rightarrow> server_mutation" where
  "useDeleteListing lid =
     \<lparr>m_call = deleteListing lid, m_invalidates = listingKeys_detail lid # invalidateListingLists\<rparr>"

definition useMarkListingSold :: "string \<Rightarrow> server_mutation" where
  "useMarkListingSold lid =
     \<lparr>m_call = markListingSold lid, m_invalidates = listingKeys_detail lid # invalidateListingLists\<rparr>"

definition useUploadListingImages :: "string \<Rightarrow> js_file list \<Rightarrow> server_mutation" where
  "useUploadListingImages lid files =
     \<lparr>m_call = uploadListingImages lid files, m_invalidates = [listingKeys_detail lid]\<rparr>"

definition useSuspendUser :: "string \<Rightarrow> string \<Rightarrow> server_mutation" where
  "useSuspendUser userId reasonCode =
     \<lparr>m_call = suspendUser userId reasonCode, m_invalidates = [[KStr ''admin'', KStr ''users'']]\<rparr>"

definition useReinstateUser :: "string \<Rightarrow> server_mutation" where
  "useReinstateUser userId =
     \<lparr>m_call = reinstateUser userId, m_invalidates = [[KStr ''admin'', KStr ''users'']]\<rparr>"

definition useResetUserPassword :: "string \<Rightarrow> server_mutation" where
  "useResetUserPassword userId = \<lparr>m_call = resetUserPassword userId, m_invalidates = []\<rparr>"

definition useRemoveListing :: "string \<Rightarrow> string \<Rightarrow> server_mutation" where
  "useRemoveListing listingId reasonCode =
     \<lparr>m_call = removeListing listingId reasonCode, m_invalidates = [[KStr ''admin'', KStr ''listings'']]\<rparr>"

definition useUpdateOwnProfile :: "string \<Rightarrow> server_mutation" where
  "useUpdateOwnProfile display_name = \<lparr>m_call = updateOwnProfile display_name, m_invalidates = []\<rparr>"

lemmas mutation_hook_defs =
  useCreateListing_def useUpdateListing_def useDeleteListing_def useMarkListingSold_def useUploadListingImages_def
  useSuspendUser_def useReinstateUser_def useResetUserPassword_def useRemoveListing_def useUpdateOwnProfile_def
  invalidateListingLists_def

text \<open>\<open>matches key filter\<close> is the client's test of a query's key against the key given to
  \<open>invalidateQueries\<close>.\<close>

definition invalidated :: "(query_key \<Rightarrow> query_key \<Rightarrow> bool) \<Rightarrow> server_mutation \<Rightarrow> server_query \<Rightarrow> bool" where
  "invalidated matches m q \<longleftrightarrow> (\<exists>k \<in> set (m_invalidates m). matches (q_key q) k)"

section \<open>The debounced value\<close>

text \<open>The component's value as of its last render, the value shown, and the pending timer: the value
  it will show and when it is due.\<close>

record 'v debouncer =
  db_last :: 'v
  db_shown :: 'v
  db_timer :: "('v \<times> nat) option"

definition debounce_mount :: "nat \<Rightarrow> nat \<Rightarrow> 'v \<Rightarrow> 'v debouncer" where
  "debounce_mount now delay v = \<lparr>db_last = v, db_shown = v, db_timer = Some (v, now + delay)\<rparr>"

text \<open>The effect runs when the rendered value differs from the last one; its clean-up clears the timer.\<close>

definition debounce_render :: "nat \<Rightarrow> nat \<Rightarrow> 'v \<Rightarrow> 'v debouncer \<Rightarrow> 'v debouncer" where
  "debounce_render now delay v d =
     (if v = db_last d then d else d\<lparr>db_last := v, db_timer := Some (v, now + delay)\<rparr>)"

definition debounce_fire :: "nat \<Rightarrow> 'v debouncer \<Rightarrow> 'v debouncer option" where
  "debounce_fire now d =
     (case db_timer d of
        Some (v, due) \<Rightarrow> if due \<le> now then Some (d\<lparr>db_shown := v, db_timer := None\<rparr>) else None
      | None \<Rightarrow> None)"

datatype 'v debounce_event = Rendered nat 'v | Timer nat

text \<open>A run, with every value that came to be shown and when.\<close>

fun debounce_run ::
    "nat \<Rightarrow> 'v debounce_event list \<Rightarrow> 'v debouncer \<times> (nat \<times> 'v) list \<Rightarrow> ('v debouncer \<times> (nat \<times> 'v) list) option" where
  "debounce_run delay [] r = Some r"
| "debounce_run delay (Rendered now v # es) (d, shown) = debounce_run delay es (debounce_render now delay v d, shown)"
| "debounce_run delay (Timer now # es) (d, shown) =
     (case debounce_fire now d of
        None \<Rightarrow> None
      | Some d' \<Rightarrow> debounce_run delay es (d', shown @ [(now, db_shown d')]))"

section \<open>Media queries\<close>

definition useMediaQuery :: "(string \<Rightarrow> bool) option \<Rightarrow> string \<Rightarrow> bool \<Rightarrow> bool" where
  "useMediaQuery matchMedia query fallback = (case matchMedia of Some f \<Rightarrow> f query | None \<Rightarrow> fallback)"

definition MD_UP :: string where "MD_UP = ''(min-width: 48rem)''"
definition LG_UP :: string where "LG_UP = ''(min-width: 64rem)''"

section \<open>Properties\<close>

text \<open>A cached answer is never shown for another request. Whatever two queries the hooks build, if
  their keys are equal then so are their calls; and the key of a query never equals a key that a
  query of another hook has.\<close>

theorem keys_determine_calls:
  assumes "hook_query q" and "hook_query r" and "q_key q = q_key r"
  shows "q = r"
  using assms by (auto simp: query_hook_defs query_key_defs elim!: hook_query.cases)

theorem keys_determine_calls_witness:
  "useListing ''mine'' \<noteq> useMyListings \<and> q_key (useListing ''mine'') \<noteq> q_key useMyListings"
proof -
  have "useListing ''mine'' \<noteq> useMyListings" by (simp add: query_hook_defs query_key_defs)
  then show ?thesis using keys_determine_calls [of "useListing ''mine''" useMyListings] by (auto intro: hook_query.intros)
qed



text \<open>The administrator's removal reaches the administrator's pages only. Under the same matching it
  invalidates every page of the moderation list and no query of the public pages, the removed
  listing's own page included, so that these can show it as it was until their data is stale.\<close>

theorem removal_invalidates_admin_only:
  assumes "\<forall>k p. matches k p \<longleftrightarrow> take (length p) k = p"
  shows "invalidated matches (useRemoveListing lid reason) (useAdminListings st p) \<and>
    \<not> invalidated matches (useRemoveListing lid reason) (useListing lid) \<and>
    \<not> invalidated matches (useRemoveListing lid reason) (useBrowseListings f) \<and>
    \<not> invalidated matches (useRemoveListing lid reason) useMyListings"
  using assms by (simp add: invalidated_def mutation_hook_defs query_hook_defs query_key_defs)

theorem removal_invalidates_admin_only_witness:
  "\<not> invalidated (\<lambda>k p. take (length p) k = p) (useRemoveListing ''l1'' ''spam'') (useListing ''l1'')"
  using removal_invalidates_admin_only [of "\<lambda>k p. take (length p) k = p" "''l1''" "''spam''"] by simp

text \<open>The invariant of the debouncer: a pending timer is for the last value and was set when that value
  was first rendered; without one the last value is shown.\<close>

definition debounced :: "nat \<Rightarrow> nat \<Rightarrow> 'v debouncer \<Rightarrow> bool" where
  "debounced delay since d \<longleftrightarrow>
     (case db_timer d of None \<Rightarrow> db_shown d = db_last d | Some (v, due) \<Rightarrow> v = db_last d \<and> due = since + delay)"

text \<open>When the value shown last was first rendered.\<close>

fun last_change :: "'v debounce_event list \<Rightarrow> nat \<times> 'v \<Rightarrow> nat \<times> 'v" where
  "last_change [] r = r"
| "last_change (Rendered now v # es) (t, u) = last_change es (if v = u then (t, u) else (now, v))"
| "last_change (Timer now # es) r = last_change es r"

lemma last_change_append [simp]: "last_change (es @ fs) r = last_change fs (last_change es r)"
  by (induction es r rule: last_change.induct) auto

lemma debounce_run_append:
  "debounce_run delay (es @ fs) r = (case debounce_run delay es r of None \<Rightarrow> None | Some r' \<Rightarrow> debounce_run delay fs r')"
  by (induction delay es r rule: debounce_run.induct) (auto split: option.split)

lemma debounce_run_invariant:
  assumes "debounce_run delay es (d, shown) = Some (d', shown')" and "debounced delay t d"
    and "last_change es (t, db_last d) = (t', u)"
  shows "db_last d' = u \<and> debounced delay t' d'"
  using assms
proof (induction es arbitrary: d shown t)
  case (Cons e es)
  show ?case
  proof (cases e)
    case (Rendered now v)
    let ?d = "debounce_render now delay v d"
    have "debounced delay (if v = db_last d then t else now) ?d" "db_last ?d = v"
      using Cons.prems(2) by (auto simp: debounce_render_def debounced_def)
    with Cons.IH [of ?d shown "if v = db_last d then t else now"] Cons.prems Rendered show ?thesis
      by (auto split: if_splits)
  next
    case (Timer now)
    then obtain d1 where fire: "debounce_fire now d = Some d1"
      using Cons.prems(1) by (auto split: option.splits)
    then have "debounced delay t d1" "db_last d1 = db_last d"
      using Cons.prems(2) by (auto simp: debounce_fire_def debounced_def split: option.splits if_splits)
    with Cons.IH [of d1 "shown @ [(now, db_shown d1)]" t] Cons.prems Timer fire show ?thesis by simp
  qed
qed simp

text \<open>C29: The search waits for the typing to pause. In every run of the debounced value, whatever the
  renderings and timers, a value comes to be shown only at a time at which it has been the current one,
  unchanged, for the whole delay; while no timer is pending the value shown is the current one; and
  a pending timer shows the current value as soon as it fires, which it can do once the delay since
  the last change has passed.\<close>

theorem debounce_waits:
  assumes "debounce_run delay es (debounce_mount start delay first, []) = Some (d, shown)"
  shows "(\<forall>(now, v) \<in> set shown. \<exists>before after t. es = before @ Timer now # after \<and>
      last_change before (start, first) = (t, v) \<and> t + delay \<le> now) \<and>
    (case last_change es (start, first) of (t, v) \<Rightarrow>
      if db_timer d = None then db_shown d = v
      else \<forall>now. t + delay \<le> now \<longrightarrow> (\<exists>d'. debounce_fire now d = Some d' \<and> db_shown d' = v))"
proof
  have mount: "debounced delay start (debounce_mount start delay first)" "db_last (debounce_mount start delay first) = first"
    by (simp_all add: debounced_def debounce_mount_def)
  note inv = debounce_run_invariant [OF _ mount(1), unfolded mount(2)]
  show "case last_change es (start, first) of (t, v) \<Rightarrow>
      if db_timer d = None then db_shown d = v
      else \<forall>now. t + delay \<le> now \<longrightarrow> (\<exists>d'. debounce_fire now d = Some d' \<and> db_shown d' = v)"
    using inv [OF assms] by (auto simp: debounced_def debounce_fire_def split: option.splits)
  show "\<forall>(now, v) \<in> set shown. \<exists>before after t. es = before @ Timer now # after \<and>
      last_change before (start, first) = (t, v) \<and> t + delay \<le> now"
    using assms
  proof (induction es arbitrary: d shown rule: rev_induct)
    case (snoc e es)
    obtain d1 shown1 where run: "debounce_run delay es (debounce_mount start delay first, []) = Some (d1, shown1)"
      "debounce_run delay [e] (d1, shown1) = Some (d, shown)"
      using snoc.prems by (auto simp: debounce_run_append split: option.splits)
    have earlier: "\<exists>before after t. es @ [e] = before @ Timer now # after \<and>
        last_change before (start, first) = (t, v) \<and> t + delay \<le> now" if "(now, v) \<in> set shown1" for now v
      using snoc.IH [OF run(1)] that by (fastforce intro: exI [of _ "_ @ [e]"])
    show ?case
    proof (cases e)
      case (Rendered now v)
      then show ?thesis using run(2) earlier by auto
    next
      case (Timer now)
      obtain t u where lc: "last_change es (start, first) = (t, u)" by fastforce
      from inv [OF run(1) lc] have "debounced delay t d1" "db_last d1 = u" by auto
      then obtain d' where "debounce_fire now d1 = Some d'" "db_shown d' = u" "t + delay \<le> now"
        "shown = shown1 @ [(now, u)]"
        using run(2) Timer by (auto simp: debounced_def debounce_fire_def split: option.splits if_splits)
      then show ?thesis using earlier lc Timer by auto
    qed
  qed (auto simp: debounce_mount_def)
qed

theorem debounce_waits_witness:
  "\<exists>d. debounce_run 300 [Rendered 100 ''em'', Rendered 250 ''emma'', Timer 560] (debounce_mount 0 300 [], []) =
      Some (d, [(560, ''emma'')]) \<and> db_shown d = ''emma''"
proof -
  obtain d where run: "debounce_run 300 [Rendered 100 ''em'', Rendered 250 ''emma'', Timer 560] (debounce_mount 0 300 [], []) =
      Some (d, [(560, ''emma'')])" "db_timer d = None"
    by (simp add: debounce_mount_def debounce_render_def debounce_fire_def)
  from debounce_waits [OF run(1)] run show ?thesis by auto
qed

end
