(* ===== verification/Browse_Page.thy ===== *)
theory Browse_Page
  imports Query_Hooks Ui_Components
begin

text \<open>
  \<open>src/pages/BrowsePage.tsx\<close>: the search field, the filters and the page number as the state of the
  page, seeded from the URL; the query they stand for; the tree that shows them, with the filters both
  in the side column and in the sheet. A rendering hands the search to the debounced value, so an
  action happens at a time. Of a category or condition that only the prototype of the label tables
  has, the label is no string in the source; here it is the empty one.
\<close>

section \<open>Seeding from the URL\<close>

definition PAGE_SIZE :: int where "PAGE_SIZE = 24"

definition FEW_RESULTS :: int where "FEW_RESULTS = 3"

definition SEARCH_DELAY :: nat where "SEARCH_DELAY = 300"

definition CATEGORIES :: "string list" where "CATEGORIES = map fst CATEGORY_LABELS"

record price_preset =
  preset_label :: string
  preset_min :: string
  preset_max :: string

definition PRICE_PRESETS :: "price_preset list" where
  "PRICE_PRESETS =
     [\<lparr>preset_label = ''Under $5'', preset_min = [], preset_max = ''4.99''\<rparr>,
      \<lparr>preset_label = ''$5-15'', preset_min = ''5'', preset_max = ''15''\<rparr>,
      \<lparr>preset_label = ''$15+'', preset_min = ''15'', preset_max = []\<rparr>]"

definition param_or_empty :: "search_params \<Rightarrow> string \<Rightarrow> string" where
  "param_or_empty ps k = (case params_get ps k of Some v \<Rightarrow> v | None \<Rightarrow> [])"

definition categoryFromParams :: "search_params \<Rightarrow> string" where
  "categoryFromParams ps =
     (let v = param_or_empty ps ''category'' in if v \<noteq> [] \<and> js_in v CATEGORY_LABELS then v else [])"

definition conditionFromParams :: "search_params \<Rightarrow> string" where
  "conditionFromParams ps =
     (let v = param_or_empty ps ''condition'' in if v \<noteq> [] \<and> js_in v CONDITION_LABELS then v else [])"

definition priceFromParams :: "search_params \<Rightarrow> string \<Rightarrow> string" where
  "priceFromParams ps k = (let v = param_or_empty ps k in if v \<noteq> [] \<and> \<not> isNaN (js_Number v) then v else [])"

definition priceLabel :: "string \<Rightarrow> string \<Rightarrow> string" where
  "priceLabel mn mx =
     (case find (\<lambda>p. preset_min p = mn \<and> preset_max p = mx) PRICE_PRESETS of
        Some p \<Rightarrow> preset_label p
      | None \<Rightarrow>
          if mn \<noteq> [] \<and> mx \<noteq> [] then ''$'' @ mn @ ''-$'' @ mx
          else if mn \<noteq> [] then ''From $'' @ mn else ''Up to $'' @ mx)"

section \<open>State\<close>

record browse_state =
  b_search :: string
  b_category :: string
  b_condition :: string
  b_minPrice :: string
  b_maxPrice :: string
  b_page :: int
  b_sheetOpen :: bool
  b_debounce :: "string debouncer"
  b_paramsKey :: string
  b_photos :: "string \<Rightarrow> photo_state"

definition reseed :: "search_params \<Rightarrow> browse_state \<Rightarrow> browse_state" where
  "reseed ps s =
     s\<lparr>b_search := param_or_empty ps ''search'', b_category := categoryFromParams ps,
       b_condition := conditionFromParams ps, b_minPrice := priceFromParams ps ''min_price'',
       b_maxPrice := priceFromParams ps ''max_price'', b_page := 1\<rparr>"

definition browse_initial :: "nat \<Rightarrow> search_params \<Rightarrow> browse_state" where
  "browse_initial now ps = reseed ps
     \<lparr>b_search = [], b_category = [], b_condition = [], b_minPrice = [], b_maxPrice = [], b_page = 1,
      b_sheetOpen = False, b_debounce = debounce_mount now SEARCH_DELAY (param_or_empty ps ''search''),
      b_paramsKey = serialize_params ps, b_photos = (\<lambda>_. initial_photo)\<rparr>"

text \<open>The filters as the query has them: empty strings become \<open>undefined\<close>.\<close>

definition browse_filters_of :: "browse_state \<Rightarrow> browse_filters" where
  "browse_filters_of s =
     \<lparr>f_search = or_undefined (db_shown (b_debounce s)), f_category = or_undefined (b_category s),
      f_condition = or_undefined (b_condition s),
      f_minPrice = map_option js_Number (or_undefined (b_minPrice s)),
      f_maxPrice = map_option js_Number (or_undefined (b_maxPrice s)),
      f_page = Some (b_page s), f_pageSize = Some PAGE_SIZE\<rparr>"

section \<open>Actions\<close>

datatype browse_action =
    Set_search string | Set_category string | Set_condition string | Set_min string | Set_max string
  | Set_prices string string | Clear_filters | Clear_all | Browse_category string | Set_page int
  | Open_sheet | Close_sheet | Ignore_submit | Photo_of string photo_action

definition setPriceRange :: "string \<Rightarrow> string \<Rightarrow> browse_state \<Rightarrow> browse_state" where
  "setPriceRange mn mx s = s\<lparr>b_minPrice := mn, b_maxPrice := mx, b_page := 1\<rparr>"

definition clearFilters :: "browse_state \<Rightarrow> browse_state" where
  "clearFilters s = setPriceRange [] [] (s\<lparr>b_category := [], b_condition := []\<rparr>)"

definition clearAll :: "browse_state \<Rightarrow> browse_state" where
  "clearAll s = (clearFilters s)\<lparr>b_search := []\<rparr>"

definition browseCategory :: "string \<Rightarrow> browse_state \<Rightarrow> browse_state" where
  "browseCategory c s = (clearAll s)\<lparr>b_category := c\<rparr>"

definition resetToFirstPage :: "(browse_state \<Rightarrow> browse_state) \<Rightarrow> browse_state \<Rightarrow> browse_state" where
  "resetToFirstPage setter s = (setter s)\<lparr>b_page := 1\<rparr>"

fun browse_step :: "browse_action \<Rightarrow> browse_state \<Rightarrow> browse_state" where
  "browse_step (Set_search v) s = resetToFirstPage (\<lambda>s. s\<lparr>b_search := v\<rparr>) s"
| "browse_step (Set_category v) s = resetToFirstPage (\<lambda>s. s\<lparr>b_category := v\<rparr>) s"
| "browse_step (Set_condition v) s = resetToFirstPage (\<lambda>s. s\<lparr>b_condition := v\<rparr>) s"
| "browse_step (Set_min v) s = resetToFirstPage (\<lambda>s. s\<lparr>b_minPrice := v\<rparr>) s"
| "browse_step (Set_max v) s = resetToFirstPage (\<lambda>s. s\<lparr>b_maxPrice := v\<rparr>) s"
| "browse_step (Set_prices mn mx) s = setPriceRange mn mx s"
| "browse_step Clear_filters s = clearFilters s"
| "browse_step Clear_all s = clearAll s"
| "browse_step (Browse_category c) s = browseCategory c s"
| "browse_step (Set_page p) s = s\<lparr>b_page := p\<rparr>"
| "browse_step Open_sheet s = s\<lparr>b_sheetOpen := True\<rparr>"
| "browse_step Close_sheet s = s\<lparr>b_sheetOpen := False\<rparr>"
| "browse_step Ignore_submit s = s"
| "browse_step (Photo_of lid a) s = s\<lparr>b_photos := (b_photos s)(lid := photo_step a (b_photos s lid))\<rparr>"

text \<open>The rendering that follows every change.\<close>

definition rendered :: "nat \<Rightarrow> browse_state \<Rightarrow> browse_state" where
  "rendered now s = s\<lparr>b_debounce := debounce_render now SEARCH_DELAY (b_search s) (b_debounce s)\<rparr>"

datatype browse_event = Browse nat browse_action | Params nat search_params | Search_timer nat

text \<open>One event: a user action, a location with other parameters, or the timer of the search.\<close>

fun browse_event_step :: "browse_event \<Rightarrow> browse_state \<Rightarrow> browse_state" where
  "browse_event_step (Browse now a) s = rendered now (browse_step a s)"
| "browse_event_step (Params now ps) s =
     rendered now (if serialize_params ps = b_paramsKey s then s else (reseed ps s)\<lparr>b_paramsKey := serialize_params ps\<rparr>)"
| "browse_event_step (Search_timer now) s =
     (case debounce_fire now (b_debounce s) of None \<Rightarrow> s | Some d \<Rightarrow> s\<lparr>b_debounce := d\<rparr>)"

section \<open>Active filters\<close>

record active_filter =
  af_key :: string
  af_label :: string
  af_clear :: browse_action

definition activeFilters :: "browse_state \<Rightarrow> active_filter list" where
  "activeFilters s =
     only_if (b_category s \<noteq> [])
       [\<lparr>af_key = ''category'', af_label = label_of CATEGORY_LABELS (b_category s), af_clear = Set_category []\<rparr>] @
     only_if (b_condition s \<noteq> [])
       [\<lparr>af_key = ''condition'', af_label = label_of CONDITION_LABELS (b_condition s), af_clear = Set_condition []\<rparr>] @
     only_if (b_minPrice s \<noteq> [] \<or> b_maxPrice s \<noteq> [])
       [\<lparr>af_key = ''price'', af_label = priceLabel (b_minPrice s) (b_maxPrice s), af_clear = Set_prices [] []\<rparr>]"

definition hasSearch :: "browse_state \<Rightarrow> bool" where
  "hasSearch s \<longleftrightarrow> 0 < length (trim (db_shown (b_debounce s)))"

definition isNarrowed :: "browse_state \<Rightarrow> bool" where
  "isNarrowed s \<longleftrightarrow> hasSearch s \<or> activeFilters s \<noteq> []"

section \<open>Filter fields\<close>

definition radio :: "string \<Rightarrow> bool \<Rightarrow> 'a \<Rightarrow> 'a node \<Rightarrow> 'a node" where
  "radio name isChecked a content =
     Elem LABEL [] []
       [Elem INPUT ([(At_type, ''radio''), (At_name, name)] @ flag isChecked At_checked) [OnChange (\<lambda>_. a)] [], content]"

definition category_fields :: "string \<Rightarrow> browse_state \<Rightarrow> browse_action node" where
  "category_fields idPrefix s =
     box FIELDSET (words_of LEGEND ''Category'' #
       map (\<lambda>v. radio (idPrefix @ ''-category'') (b_category s = v) (Set_category v)
              (Text (if v \<noteq> [] then label_of CATEGORY_LABELS v else ''Any category''))) ([] # CATEGORIES))"

definition condition_fields :: "string \<Rightarrow> browse_state \<Rightarrow> browse_action node" where
  "condition_fields idPrefix s =
     box FIELDSET (words_of LEGEND ''Condition'' #
       radio (idPrefix @ ''-condition'') (b_condition s = []) (Set_condition []) (Text ''Any condition'') #
       map (\<lambda>c. radio (idPrefix @ ''-condition'') (b_condition s = condition_value c) (Set_condition (condition_value c))
              (ConditionMeter c)) CONDITIONS_BEST_FIRST)"

definition price_input :: "string \<Rightarrow> string \<Rightarrow> string \<Rightarrow> string \<Rightarrow> (string \<Rightarrow> 'a) \<Rightarrow> 'a node" where
  "price_input uid label placeholder v f =
     Input ((input_defaults uid label)\<lparr>in_rest :=
         [(At_type, ''number''), (At_inputmode, ''decimal''), (At_min, ''0''), (At_placeholder, placeholder), (At_value, v)],
       in_handlers := [OnChange f]\<rparr>)"

definition preset_button :: "browse_state \<Rightarrow> price_preset \<Rightarrow> browse_action node" where
  "preset_button s p =
     (let isOn = (b_minPrice s = preset_min p \<and> b_maxPrice s = preset_max p) in
      plain_button [(At_pressed, bool_str isOn)]
        (if isOn then Set_prices [] [] else Set_prices (preset_min p) (preset_max p)) (preset_label p))"

definition price_fields :: "string \<Rightarrow> browse_state \<Rightarrow> browse_action node" where
  "price_fields idPrefix s =
     box FIELDSET
       [words_of LEGEND ''Price'',
        box DIV
          [box DIV [price_input (idPrefix @ ''-min-price'') ''Minimum price'' ''$ min'' (b_minPrice s) Set_min],
           Elem SPAN [(At_hidden, true_str)] [] [Text ''-''],
           box DIV [price_input (idPrefix @ ''-max-price'') ''Maximum price'' ''$ max'' (b_maxPrice s) Set_max]],
        Elem DIV [(At_role, ''group''), (At_label, ''Price ranges'')] [] (map (preset_button s) PRICE_PRESETS)]"

definition FilterFields :: "string \<Rightarrow> browse_state \<Rightarrow> browse_action node list" where
  "FilterFields idPrefix s = [category_fields idPrefix s, condition_fields idPrefix s, price_fields idPrefix s]"

section \<open>The page\<close>

definition copies :: "int \<Rightarrow> string" where
  "copies n = int_text n @ '' '' @ (if n = 1 then ''copy'' else ''copies'')"

definition filter_chip :: "active_filter \<Rightarrow> browse_action node" where
  "filter_chip f =
     box LITEM
       [Elem BUTTON [(At_type, ''button''), (At_label, ''Remove filter: '' @ af_label f)] [OnClick (af_clear f)]
         [Text (af_label f), Elem SPAN [(At_hidden, true_str)] [] [Text times_sign]]]"

definition search_bar :: "browse_state \<Rightarrow> browse_action node" where
  "search_bar s =
     box DIV
       [Elem FORM [(At_role, ''search''), (At_label, ''Filter books'')] [OnSubmit Ignore_submit]
          [Elem LABEL [(At_for, ''browse-search'')] [] [Text ''Search''],
           Elem INPUT [(At_id, ''browse-search''), (At_type, ''search''), (At_placeholder, ''Title or author''),
             (At_value, b_search s)] [OnChange Set_search] []],
        Button None False False [(At_haspopup, ''dialog'')] [OnClick Open_sheet]
          (Text ''Filters'' # only_if (activeFilters s \<noteq> [])
             [Text (middle_dot @ int_text (int (length (activeFilters s))))])]"

definition results_bar :: "int option \<Rightarrow> browse_state \<Rightarrow> browse_action node" where
  "results_bar count s =
     box DIV
       (Elem PARA [(At_live, ''polite'')] [] (case count of Some n \<Rightarrow> [Text (copies n)] | None \<Rightarrow> []) #
        (if activeFilters s \<noteq> []
         then [box ULIST (map filter_chip (activeFilters s)), plain_button [] Clear_filters ''Clear all'']
         else [words_of SPAN ''newest first'']))"

definition NoResults :: "bool \<Rightarrow> browse_action node" where
  "NoResults narrowed =
     (if \<not> narrowed then
        box SECTION [words_of H2 ''Nothing is listed yet'', words_of PARA ''No one has listed a copy so far.'',
          link_to ''/listings/new'' [Text ''List the first book'']]
      else
        box SECTION
         [box DIV [words_of H2 ''No books match your filters'',
            words_of PARA ''Try a shorter search term, or remove a filter above.''],
          box DIV [action_button False False Clear_all ''Clear search and filters''],
          box DIV [words_of H3 ''Or start from a category'',
            box ULIST (map (\<lambda>c. box LITEM [plain_button [] (Browse_category c) (label_of CATEGORY_LABELS c)]) CATEGORIES)]])"

definition few_results :: "int \<Rightarrow> browse_action node" where
  "few_results n =
     box PARA [Text (''Only '' @ int_text n @ '' '' @ (if n = 1 then ''copy matches'' else ''copies match'') @ ''. ''),
       plain_button [] Clear_all ''Clear the search and filters'', Text '' to see every copy.'']"

definition browse_results :: "listing_page query_result \<Rightarrow> browse_state \<Rightarrow> browse_action node" where
  "browse_results r s =
     (case query_data r of
        Some d \<Rightarrow>
          if page_items d = [] then NoResults (isNarrowed s)
          else box DIV
            ([box DIV (map (\<lambda>l. ListingCard (Photo_of (listing_id l)) (b_photos s (listing_id l)) False True True l) (page_items d))] @
             only_if (isNarrowed s \<and> page_total d \<le> FEW_RESULTS) [few_results (page_total d)] @
             Pagination (b_page s) PAGE_SIZE (page_total d) Set_page)
      | None \<Rightarrow> box DIV [box DIV []])"

definition filter_sheet :: "string \<Rightarrow> int option \<Rightarrow> browse_state \<Rightarrow> browse_action node list" where
  "filter_sheet titleId count s =
     Modal titleId (b_sheetOpen s) Close_sheet ''Filter copies'' Sheet
       (FilterFields ''sheet'' s @
        [box DIV
          [action_button False (activeFilters s = []) Clear_filters ''Clear all'',
           action_button False False Close_sheet
             (case count of None \<Rightarrow> ''Show copies'' | Some n \<Rightarrow> ''Show '' @ copies n)]])"

definition browse_view :: "string \<Rightarrow> listing_page query_result \<Rightarrow> browse_state \<Rightarrow> browse_action node" where
  "browse_view titleId r s =
     (let count = map_option page_total (query_data r) in
      box DIV
       ([box DIV [words_of H1 ''Browse copies'', search_bar s],
         box DIV
          [Elem ASIDE [(At_label, ''Filters'')] []
             (FilterFields ''side'' s @
              only_if (activeFilters s \<noteq> []) [plain_button [] Clear_filters ''Clear filters'']),
           Elem SECTION [(At_label, ''Results'')] []
             (results_bar count s #
              QueryState (isPending r) (query_error r) False ''Nothing to show yet.'' None (Some (ListingGridSkeleton 12))
                [browse_results r s])]] @
        filter_sheet titleId count s))"

section \<open>Properties\<close>

lemma offers_radio [simp]: "offers (radio n b a c) x \<longleftrightarrow> x = a \<or> offers c x"
  by (auto simp: radio_def)

lemma offers_price_input [simp]: "offers (price_input uid l ph v f) a \<longleftrightarrow> (\<exists>x. a = f x)"
  by (simp add: price_input_def input_defaults_def)

lemma offers_preset_button [simp]:
  "offers (preset_button s p) a \<longleftrightarrow>
     a = (if b_minPrice s = preset_min p \<and> b_maxPrice s = preset_max p then Set_prices [] []
          else Set_prices (preset_min p) (preset_max p))"
  by (simp add: preset_button_def Let_def)

lemma FilterFields_offers [simp]:
  "offers_any (FilterFields idPrefix s) a \<longleftrightarrow>
     (\<exists>v \<in> set ([] # CATEGORIES). a = Set_category v) \<or>
     a = Set_condition [] \<or> (\<exists>c. a = Set_condition (condition_value c)) \<or>
     (\<exists>v. a = Set_min v) \<or> (\<exists>v. a = Set_max v) \<or>
     (\<exists>p \<in> set PRICE_PRESETS. offers (preset_button s p) a)"
proof -
  have "set CONDITIONS_BEST_FIRST = UNIV" using conditions_best_first by blast
  then show ?thesis
    by (auto simp: FilterFields_def category_fields_def condition_fields_def price_fields_def offers_any_map
        simp del: offers_preset_button)
qed

lemma FilterFields_sheet: "offers_any (FilterFields ''sheet'' s) a \<longleftrightarrow> offers_any (FilterFields ''side'' s) a"
  by simp

lemma browse_offers:
  "offers (browse_view tid r s) a \<Longrightarrow>
     a \<in> {Ignore_submit, Open_sheet, Close_sheet, Clear_filters, Clear_all} \<or> (\<exists>v. a = Set_search v) \<or>
     offers_any (FilterFields ''side'' s) a \<or> (\<exists>f \<in> set (activeFilters s). a = af_clear f) \<or>
     (\<exists>c \<in> set CATEGORIES. a = Browse_category c) \<or> (\<exists>lid x. a = Photo_of lid x) \<or>
     (\<exists>d. query_data r = Some d \<and> offers_any (Pagination (b_page s) PAGE_SIZE (page_total d) Set_page) a)"
  by (auto simp: browse_view_def Let_def search_bar_def results_bar_def browse_results_def NoResults_def few_results_def
      filter_sheet_def filter_chip_def offers_any_map FilterFields_sheet
      simp del: FilterFields_offers Pagination_offers dest!: ListingCard_offers split: option.splits if_splits)

text \<open>A run of the page: each event with what the query client answers at that time. An action happens
  only if the page offers it.\<close>

fun browse_run :: "(listing_page query_result \<times> browse_event) list \<Rightarrow> browse_state \<Rightarrow> browse_state option" where
  "browse_run [] s = Some s"
| "browse_run ((r, e) # es) s =
     (if \<forall>now a. e = Browse now a \<longrightarrow> offers (browse_view [] r s) a
      then browse_run es (browse_event_step e s) else None)"

lemma browse_run_invariant:
  assumes "browse_run es s = Some s'" and "P s"
    and "\<And>r e s. (r, e) \<in> set es \<Longrightarrow> P s \<Longrightarrow> (\<And>now a. e = Browse now a \<Longrightarrow> offers (browse_view [] r s) a) \<Longrightarrow>
      P (browse_event_step e s)"
  shows "P s'"
  using assms
proof (induction es arbitrary: s)
  case (Cons x es)
  obtain r e where x: "x = (r, e)" by fastforce
  then have "P (browse_event_step e s)" "browse_run es (browse_event_step e s) = Some s'"
    using Cons.prems by (auto split: if_splits)
  then show ?case using Cons.prems(3) by (intro Cons.IH [of "browse_event_step e s"]) (auto simp: x)
qed simp

lemma rendered_simps [simp]:
  "b_page (rendered now s) = b_page s" "b_search (rendered now s) = b_search s" "b_category (rendered now s) = b_category s"
  "b_condition (rendered now s) = b_condition s" "b_minPrice (rendered now s) = b_minPrice s"
  "b_maxPrice (rendered now s) = b_maxPrice s" "b_sheetOpen (rendered now s) = b_sheetOpen s"
  by (simp_all add: rendered_def)

lemmas browse_setters = resetToFirstPage_def setPriceRange_def clearFilters_def clearAll_def browseCategory_def reseed_def

text \<open>The two copies of the filters cannot disagree. The filters in the side column and those in the
  sheet, whatever prefix their names have, offer the same actions, show the same text, and have the same
  boxes checked, presets pressed and prices filled in.\<close>

theorem filter_copies_agree:
  "(offers_any (FilterFields p s) a \<longleftrightarrow> offers_any (FilterFields q s) a) \<and>
   map texts (FilterFields p s) = map texts (FilterFields q s) \<and>
   map (attrs_of At_checked) (FilterFields p s) = map (attrs_of At_checked) (FilterFields q s) \<and>
   map (attrs_of At_pressed) (FilterFields p s) = map (attrs_of At_pressed) (FilterFields q s) \<and>
   map (attrs_of At_value) (FilterFields p s) = map (attrs_of At_value) (FilterFields q s)"
proof (intro conjI)
  show "offers_any (FilterFields p s) a \<longleftrightarrow> offers_any (FilterFields q s) a" by simp
qed (simp_all add: FilterFields_def category_fields_def condition_fields_def price_fields_def radio_def price_input_def
      Input_def field_notes_def input_defaults_def described_by_cases comp_def)

definition setting_of :: "browse_state \<Rightarrow> string \<times> string \<times> string \<times> string \<times> string" where
  "setting_of s = (b_search s, b_category s, b_condition s, b_minPrice s, b_maxPrice s)"

lemma page_positive:
  assumes "browse_run es s = Some s'" and "1 \<le> b_page s"
  shows "1 \<le> b_page s'"
proof (rule browse_run_invariant [where P = "\<lambda>s. 1 \<le> b_page s", OF assms])
  fix r e and s :: browse_state
  assume "1 \<le> b_page s" and off: "\<And>now a. e = Browse now a \<Longrightarrow> offers (browse_view [] r s) a"
  show "1 \<le> b_page (browse_event_step e s)"
  proof (cases e)
    case (Browse now a)
    then show ?thesis using off [OF Browse] \<open>1 \<le> b_page s\<close>
      by (cases a) (auto simp: browse_setters activeFilters_def split: if_splits dest!: browse_offers)
  qed (use \<open>1 \<le> b_page s\<close> in \<open>auto simp: reseed_def split: option.split\<close>)
qed

text \<open>C28: Changing what is looked for goes back to the first page. Any event, a user's action or a followed
  link, after which the search or a filter is another leaves the page number at 1; and no run of the
  page, made of actions it offers, followed links and timers, makes the number less than 1.\<close>

theorem filter_change_resets_page:
  "(setting_of (browse_event_step e s) \<noteq> setting_of s \<longrightarrow> b_page (browse_event_step e s) = 1) \<and>
   (browse_run es (browse_initial now ps) = Some s' \<longrightarrow> 1 \<le> b_page s')"
proof (intro conjI impI)
  assume "setting_of (browse_event_step e s) \<noteq> setting_of s"
  then show "b_page (browse_event_step e s) = 1"
  proof (cases e)
    case (Browse t a)
    then show ?thesis using \<open>setting_of (browse_event_step e s) \<noteq> setting_of s\<close>
      by (cases a) (auto simp: setting_of_def browse_setters)
  qed (auto simp: setting_of_def reseed_def split: option.splits)
next
  assume "browse_run es (browse_initial now ps) = Some s'"
  then show "1 \<le> b_page s'" by (rule page_positive) (simp add: browse_initial_def reseed_def)
qed

text \<open>An answer of the client with more pages.\<close>

definition three_pages :: "listing_page query_result" where
  "three_pages = \<lparr>isPending = False, query_error = None,
     query_data = Some \<lparr>page_items = [sample_listing], page_total = 60, page_number = 1, page_page_size = 24\<rparr>\<rparr>"

lemma three_pages_next:
  assumes "b_page s = 1"
  shows "offers (browse_view [] three_pages s) (Set_page 2)"
  using assms
  by (simp add: browse_view_def Let_def browse_results_def three_pages_def PAGE_SIZE_def total_pages_def)

lemma offers_search: "offers (browse_view [] r s) (Set_search v)"
  by (simp add: browse_view_def Let_def search_bar_def)

theorem filter_change_resets_page_witness:
  "b_page (browse_event_step (Browse 9 (Set_category ''fiction'')) (browse_initial 0 []\<lparr>b_page := 2\<rparr>)) = 1 \<and>
   (\<exists>s. browse_run [(three_pages, Browse 9 (Set_page 2))] (browse_initial 0 []) = Some s \<and> 1 \<le> b_page s)"
proof
  have "setting_of (browse_event_step (Browse 9 (Set_category ''fiction'')) (browse_initial 0 []\<lparr>b_page := 2\<rparr>)) \<noteq>
      setting_of (browse_initial 0 []\<lparr>b_page := 2\<rparr>)"
    by (simp add: setting_of_def browse_initial_def reseed_def resetToFirstPage_def categoryFromParams_def
        param_or_empty_def params_get_def)
  then show "b_page (browse_event_step (Browse 9 (Set_category ''fiction'')) (browse_initial 0 []\<lparr>b_page := 2\<rparr>)) = 1"
    using filter_change_resets_page by blast
  have "b_page (browse_initial 0 []) = 1" by (simp add: browse_initial_def reseed_def)
  then obtain s where "browse_run [(three_pages, Browse 9 (Set_page 2))] (browse_initial 0 []) = Some s"
    using three_pages_next by auto
  then show "\<exists>s. browse_run [(three_pages, Browse 9 (Set_page 2))] (browse_initial 0 []) = Some s \<and> 1 \<le> b_page s"
    using filter_change_resets_page by blast
qed

text \<open>A search can start on its second page. There is a run in which the user types a search, goes to
  the next page before the delay has passed, and the timer then fires: the query is for the second
  page of the new search, whose first page has never been shown.\<close>

theorem search_can_start_on_second_page:
  "\<exists>s. browse_run [(three_pages, Browse 1000 (Set_search ''emma'')), (three_pages, Browse 1200 (Set_page 2)),
       (three_pages, Search_timer 1300)] (browse_initial 0 []) = Some s \<and>
     f_search (browse_filters_of s) = Some ''emma'' \<and> f_page (browse_filters_of s) = Some 2"
proof -
  have "b_page (browse_event_step (Browse 1000 (Set_search ''emma'')) (browse_initial 0 [])) = 1"
    by (simp add: resetToFirstPage_def)
  from three_pages_next [OF this] show ?thesis
    by (simp add: offers_search browse_filters_of_def rendered_def resetToFirstPage_def browse_initial_def reseed_def
        debounce_render_def debounce_mount_def debounce_fire_def SEARCH_DELAY_def param_or_empty_def params_get_def)
qed

text \<open>Removing a filter removes that filter alone. The button of an active filter leaves the other active
  filters as they were and its own gone; clearing the filters leaves none; and choosing one of the
  price ranges shows it as the active price filter under the label of its button, which then offers
  to take it back.\<close>

theorem filters_clear:
  assumes "f \<in> set (activeFilters s)" and "p \<in> set PRICE_PRESETS"
  shows "activeFilters (browse_step (af_clear f) s) = filter (\<lambda>g. af_key g \<noteq> af_key f) (activeFilters s) \<and>
    activeFilters (browse_step Clear_filters s) = [] \<and>
    (let s' = browse_step (Set_prices (preset_min p) (preset_max p)) s in
      (\<exists>g \<in> set (activeFilters s'). af_key g = ''price'' \<and> af_label g = preset_label p) \<and>
      offers (preset_button s' p) (Set_prices [] []))"
proof (intro conjI)
  show "activeFilters (browse_step (af_clear f) s) = filter (\<lambda>g. af_key g \<noteq> af_key f) (activeFilters s)"
    using assms(1)
    by (cases "b_category s = []"; cases "b_condition s = []"; cases "b_minPrice s = [] \<and> b_maxPrice s = []")
      (auto simp: activeFilters_def resetToFirstPage_def setPriceRange_def)
  show "activeFilters (browse_step Clear_filters s) = []"
    by (simp add: activeFilters_def browse_setters)
  show "let s' = browse_step (Set_prices (preset_min p) (preset_max p)) s in
      (\<exists>g \<in> set (activeFilters s'). af_key g = ''price'' \<and> af_label g = preset_label p) \<and>
      offers (preset_button s' p) (Set_prices [] [])"
    using assms(2) by (auto simp: PRICE_PRESETS_def activeFilters_def setPriceRange_def priceLabel_def Let_def)
qed

theorem filters_clear_witness:
  "activeFilters (browse_step (Set_category []) (browse_initial 0 [(''category'', ''fiction''), (''condition'', ''good'')])) =
     [\<lparr>af_key = ''condition'', af_label = ''Good'', af_clear = Set_condition []\<rparr>]"
proof -
  let ?s = "browse_initial 0 [(''category'', ''fiction''), (''condition'', ''good'')]"
  have act: "activeFilters ?s =
      [\<lparr>af_key = ''category'', af_label = ''Fiction'', af_clear = Set_category []\<rparr>,
       \<lparr>af_key = ''condition'', af_label = ''Good'', af_clear = Set_condition []\<rparr>]"
    by (simp add: activeFilters_def browse_initial_def reseed_def categoryFromParams_def conditionFromParams_def
        priceFromParams_def param_or_empty_def params_get_def js_in_def label_of_def CATEGORY_LABELS_def
        CONDITION_LABELS_def Let_def)
  show ?thesis
    using filters_clear [of "\<lparr>af_key = ''category'', af_label = ''Fiction'', af_clear = Set_category []\<rparr>" ?s
        "\<lparr>preset_label = ''Under $5'', preset_min = [], preset_max = ''4.99''\<rparr>"]
    by (simp add: act PRICE_PRESETS_def)
qed

end
