(* ===== verification/Home_Page.thy ===== *)
theory Home_Page
  imports Browse_Page
begin

text \<open>
  \<open>src/pages/HomePage.tsx\<close>: the search form, the newest copies, the three lists that are each a browse
  query, the index of categories. Rendering reads the first item of a page whose total is positive; if
  there is none it throws, which is \<^const>\<open>None\<close> here. The theorems show that every link of the page
  into the catalogue opens the browse page on just the query it stands for.
\<close>

definition JUST_IN_COUNT :: int where "JUST_IN_COUNT = 10"

definition LIST_COUNT :: int where "LIST_COUNT = 5"

record index_list =
  il_id :: string
  il_title :: string
  il_query :: string
  il_filters :: browse_filters
  il_href :: string

definition INDEX_LISTS :: "index_list list" where
  "INDEX_LISTS =
     [\<lparr>il_id = ''under-5'', il_title = ''Under $5'', il_query = ''price under $5'',
       il_filters = no_filters\<lparr>f_maxPrice := Some (js_Number ''4.99'')\<rparr>, il_href = ''/listings?max_price=4.99''\<rparr>,
      \<lparr>il_id = ''barely-read'', il_title = ''Barely read'', il_query = ''condition: like new'',
       il_filters = no_filters\<lparr>f_condition := Some ''like_new''\<rparr>, il_href = ''/listings?condition=like_new''\<rparr>,
      \<lparr>il_id = ''textbooks'', il_title = ''Textbooks'', il_query = ''category: academic textbook'',
       il_filters = no_filters\<lparr>f_category := Some ''academic_textbook''\<rparr>, il_href = ''/listings?category=academic_textbook''\<rparr>]"

section \<open>State\<close>

record home_state =
  h_search :: string
  h_photos :: "string \<Rightarrow> photo_state"
  h_left :: "string option"

definition home_initial :: home_state where
  "home_initial = \<lparr>h_search = [], h_photos = (\<lambda>_. initial_photo), h_left = None\<rparr>"

datatype home_action = Home_search string | Home_submit | Home_photo string photo_action

definition handleSearch :: "home_state \<Rightarrow> home_state" where
  "handleSearch s =
     (let trimmed = trim (h_search s) in
      s\<lparr>h_left := Some (if trimmed \<noteq> [] then ''/listings?search='' @ encodeURIComponent trimmed else ''/listings'')\<rparr>)"

fun home_step :: "home_action \<Rightarrow> home_state \<Rightarrow> home_state" where
  "home_step (Home_search v) s = s\<lparr>h_search := v\<rparr>"
| "home_step Home_submit s = handleSearch s"
| "home_step (Home_photo key a) s = s\<lparr>h_photos := (h_photos s)(key := photo_step a (h_photos s key))\<rparr>"

text \<open>The queries of the page: the newest copies, and one for each list.\<close>

definition just_in_query :: server_query where
  "just_in_query = useBrowseListings (no_filters\<lparr>f_page := Some 1, f_pageSize := Some JUST_IN_COUNT\<rparr>)"

definition index_list_query :: "index_list \<Rightarrow> server_query" where
  "index_list_query l = useBrowseListings ((il_filters l)\<lparr>f_page := Some 1, f_pageSize := Some LIST_COUNT\<rparr>)"

section \<open>The page\<close>

definition SectionHead :: "string \<Rightarrow> string \<Rightarrow> (string \<times> string) option \<Rightarrow> string option \<Rightarrow> 'a node" where
  "SectionHead uid title link query =
     box DIV
       ([Elem H2 [(At_id, uid)] [] [Text title]] @
        (case link of Some (target, label) \<Rightarrow> [link_to target [Text label]] | None \<Rightarrow> []) @
        opt_node query (words_of SPAN))"

definition IndexRow :: "(photo_action \<Rightarrow> 'a) \<Rightarrow> photo_state \<Rightarrow> listing_public \<Rightarrow> 'a node" where
  "IndexRow act ph l =
     (let firstImage = (case listing_images l of [] \<Rightarrow> None | i # _ \<Rightarrow> Some (image_url i, [])) in
      link_to (''/listings/'' @ listing_id l)
        [PhotoFrame act ph firstImage (listing_title l) (listing_author l) Thumb False False,
         box SPAN
           ([words_of SPAN (listing_title l), words_of SPAN (listing_author l),
             box SPAN [words_of SPAN (formatPrice (listing_price l)), ConditionMeter (listing_condition l)]] @
            only_if (firstImage = None) [words_of SPAN '', no photo yet''] @
            [words_of SPAN ('', from '' @ seller_display_name l)])])"

definition IndexListSection ::
    "index_list \<Rightarrow> listing_page query_result \<Rightarrow> home_state \<Rightarrow> home_action node list" where
  "IndexListSection l r s =
     (case query_data r of
        None \<Rightarrow> []
      | Some d \<Rightarrow>
          if isPending r \<or> query_error r \<noteq> None \<or> page_items d = [] then []
          else
            [Elem SECTION [(At_labelledby, il_id l @ ''-heading'')] []
              [box DIV
                [Elem H2 [(At_id, il_id l @ ''-heading'')] [] [Text (il_title l)],
                 Elem ANCHOR [(At_href, il_href l), (At_label, ''All '' @ int_text (page_total d) @ '' '' @ lower_ascii (il_title l))] []
                   [Text (''All '' @ int_text (page_total d))],
                 words_of SPAN (il_query l)],
               box OLIST (map (\<lambda>x. box LITEM
                 [IndexRow (Home_photo (il_id l @ ''/'' @ listing_id x)) (h_photos s (il_id l @ ''/'' @ listing_id x)) x]) (page_items d))]])"

definition home_summary :: "(string \<Rightarrow> string) \<Rightarrow> listing_page query_result \<Rightarrow> home_action node list option" where
  "home_summary fd r =
     (case query_data r of
        Some d \<Rightarrow>
          if 0 < page_total d then
            (case page_items d of
               [] \<Rightarrow> None
             | l # _ \<Rightarrow> Some [Text (copies (page_total d) @ '' on offer'' @ middle_dot @ ''newest listed '' @ fd (created_at l))])
          else Some []
      | None \<Rightarrow> Some [])"

definition home_items :: "listing_page query_result \<Rightarrow> listing_public list" where
  "home_items r = (case query_data r of Some d \<Rightarrow> page_items d | None \<Rightarrow> [])"

definition home_empty :: "listing_page query_result \<Rightarrow> bool" where
  "home_empty r \<longleftrightarrow> query_data r \<noteq> None \<and> home_items r = []"

definition search_form :: "home_state \<Rightarrow> home_action node" where
  "search_form s =
     Elem FORM [(At_role, ''search''), (At_label, ''Search books'')] [OnSubmit Home_submit]
       [box DIV
         [Elem LABEL [(At_for, ''home-search'')] [] [Text ''Search books''],
          Elem INPUT [(At_id, ''home-search''), (At_type, ''search''), (At_placeholder, ''Title or author''),
            (At_value, h_search s)] [OnChange Home_search] [],
          Elem BUTTON [(At_type, ''submit'')] [] [Text ''Search'']]]"

definition just_in_section :: "listing_page query_result \<Rightarrow> home_state \<Rightarrow> home_action node" where
  "just_in_section r s =
     Elem SECTION [(At_labelledby, ''just-in-heading'')] []
       (SectionHead ''just-in-heading'' ''Just in'' (if home_empty r then None else Some (''/listings'', ''Browse all''))
          (case query_data r of Some d \<Rightarrow> if page_total d \<noteq> 0 then Some ''newest first'' else None | None \<Rightarrow> None) #
        QueryState (isPending r) (query_error r) False ''Nothing to show yet.'' None
          (Some (ListingGridSkeleton (nat JUST_IN_COUNT)))
          [if home_empty r
           then box DIV [words_of PARA ''Nothing is listed yet.'', link_to ''/listings/new'' [Text ''List the first book'']]
           else box DIV (map (\<lambda>l. box DIV
             [ListingCard (Home_photo (listing_id l)) (h_photos s (listing_id l)) False True True l]) (home_items r))])"

definition categories_section :: "'a node" where
  "categories_section =
     Elem SECTION [(At_labelledby, ''categories-heading'')] []
       [SectionHead ''categories-heading'' ''By category'' None None,
        box ULIST (map (\<lambda>c. box LITEM [link_to (''/listings?category='' @ c) [Text (label_of CATEGORY_LABELS c)]]) CATEGORIES)]"

definition list_a_copy_section :: "'a node" where
  "list_a_copy_section =
     Elem SECTION [(At_labelledby, ''list-a-copy-heading'')] []
       [box DIV
         [Elem H2 [(At_id, ''list-a-copy-heading'')] [] [Text ''Finished with a book?''],
          words_of PARA (''Photograph your copy as it is, say what wear it has, and set a price. Exchange happens between '' @
            ''you and the buyer, off-site: Punah-Pustak doesn't handle payment or delivery.'')],
        link_to ''/listings/new'' [Text ''List a copy'']]"

definition home_view ::
    "(string \<Rightarrow> string) \<Rightarrow> listing_page query_result \<Rightarrow> (string \<Rightarrow> listing_page query_result) \<Rightarrow> home_state \<Rightarrow> home_action node option" where
  "home_view fd r listResults s =
     map_option (\<lambda>summary.
       box DIV
        ([box SECTION [words_of H1 ''Second-hand books, examined and passed on by readers.'', search_form s, box PARA summary],
          just_in_section r s] @
         only_if (\<not> home_empty r \<and> query_error r = None)
           [box DIV (concat (map (\<lambda>l. IndexListSection l (listResults (il_id l)) s) INDEX_LISTS))] @
         [categories_section, list_a_copy_section]))
      (home_summary fd r)"

section \<open>Properties\<close>

text \<open>Following a link into the catalogue: the location's query seeds the browse page.\<close>

definition query_of_url :: "string \<Rightarrow> string" where
  "query_of_url u = drop 1 (dropWhile (\<lambda>c. c \<noteq> CHR ''?'') u)"

definition path_of_url :: "string \<Rightarrow> string" where
  "path_of_url u = takeWhile (\<lambda>c. c \<noteq> CHR ''?'') u"

definition open_browse :: "nat \<Rightarrow> string \<Rightarrow> browse_state option" where
  "open_browse now u = map_option (browse_initial now) (parse_params (query_of_url u))"

lemma parse_params_Nil [simp]: "parse_params [] = Some []"
  by (simp add: parse_params_def)

text \<open>C26: A search from the home page arrives on the browse page as it was typed. Whatever the text,
  with spaces, ampersands, percent signs or accents in it, submitting the form goes to the browse
  page, whose search field and first query then hold that text without its surrounding space, and no
  filter.\<close>

theorem home_search_arrives:
  "\<exists>u s'. h_left (home_step Home_submit (home_step (Home_search v) s)) = Some u \<and> path_of_url u = ''/listings'' \<and>
     open_browse now u = Some s' \<and> b_search s' = trim v \<and>
     browse_filters_of s' = no_filters\<lparr>f_search := or_undefined (trim v), f_page := Some 1, f_pageSize := Some PAGE_SIZE\<rparr>"
proof (cases "trim v = []")
  case True
  then show ?thesis
    by (simp add: handleSearch_def path_of_url_def open_browse_def query_of_url_def browse_initial_def reseed_def
        param_or_empty_def params_get_def browse_filters_of_def debounce_mount_def categoryFromParams_def
        conditionFromParams_def priceFromParams_def no_filters_def)
next
  case False
  have "form_decode ''search'' = Some ''search''" by code_simp
  then have parse: "parse_params (''search='' @ encodeURIComponent (trim v)) = Some [(''search'', trim v)]"
    using parse_single_encoded [of "''search''" "''search''" "trim v"] by simp
  have seed: "browse_filters_of (browse_initial now [(''search'', trim v)]) =
      no_filters\<lparr>f_search := or_undefined (trim v), f_page := Some 1, f_pageSize := Some PAGE_SIZE\<rparr>"
    by (simp add: browse_initial_def reseed_def
        param_or_empty_def params_get_def browse_filters_of_def debounce_mount_def categoryFromParams_def
        conditionFromParams_def priceFromParams_def no_filters_def)
  have "b_search (browse_initial now [(''search'', trim v)]) = trim v"
    by (simp add: browse_initial_def reseed_def param_or_empty_def params_get_def)
  then show ?thesis
    using False parse seed by (simp add: handleSearch_def path_of_url_def open_browse_def query_of_url_def Let_def)
qed

lemma INDEX_LISTS_parts:
  "il_href (INDEX_LISTS ! 0) = ''/listings?max_price=4.99''"
  "il_href (INDEX_LISTS ! 1) = ''/listings?condition=like_new''"
  "il_href (INDEX_LISTS ! 2) = ''/listings?category=academic_textbook''"
  "il_filters (INDEX_LISTS ! 0) = no_filters\<lparr>f_maxPrice := Some (js_Number ''4.99'')\<rparr>"
  "il_filters (INDEX_LISTS ! 1) = no_filters\<lparr>f_condition := Some ''like_new''\<rparr>"
  "il_filters (INDEX_LISTS ! 2) = no_filters\<lparr>f_category := Some ''academic_textbook''\<rparr>"
  "length INDEX_LISTS = 3"
  by (simp_all add: INDEX_LISTS_def)

lemmas seed_rules =
  browse_initial_def reseed_def param_or_empty_def params_get_def browse_filters_of_def debounce_mount_def
  categoryFromParams_def conditionFromParams_def priceFromParams_def no_filters_def js_in_def

lemma index_links_open:
  "map_option browse_filters_of (open_browse now ''/listings?max_price=4.99'') =
     Some (no_filters\<lparr>f_maxPrice := Some (js_Number ''4.99''), f_page := Some 1, f_pageSize := Some PAGE_SIZE\<rparr>)"
  "map_option browse_filters_of (open_browse now ''/listings?condition=like_new'') =
     Some (no_filters\<lparr>f_condition := Some ''like_new'', f_page := Some 1, f_pageSize := Some PAGE_SIZE\<rparr>)"
  "map_option browse_filters_of (open_browse now ''/listings?category=academic_textbook'') =
     Some (no_filters\<lparr>f_category := Some ''academic_textbook'', f_page := Some 1, f_pageSize := Some PAGE_SIZE\<rparr>)"
proof -
  have query: "parse_params (query_of_url ''/listings?max_price=4.99'') = Some [(''max_price'', ''4.99'')]"
    "parse_params (query_of_url ''/listings?condition=like_new'') = Some [(''condition'', ''like_new'')]"
    "parse_params (query_of_url ''/listings?category=academic_textbook'') = Some [(''category'', ''academic_textbook'')]"
    by code_simp+
  have price: "\<not> isNaN (js_Number ''4.99'')" by code_simp
  have known: "''like_new'' \<in> set (map fst CONDITION_LABELS)" "''academic_textbook'' \<in> set (map fst CATEGORY_LABELS)"
    by (simp_all add: CONDITION_LABELS_def CATEGORY_LABELS_def)
  show "map_option browse_filters_of (open_browse now ''/listings?max_price=4.99'') =
     Some (no_filters\<lparr>f_maxPrice := Some (js_Number ''4.99''), f_page := Some 1, f_pageSize := Some PAGE_SIZE\<rparr>)"
    using price by (simp add: open_browse_def query(1) seed_rules)
  show "map_option browse_filters_of (open_browse now ''/listings?condition=like_new'') =
     Some (no_filters\<lparr>f_condition := Some ''like_new'', f_page := Some 1, f_pageSize := Some PAGE_SIZE\<rparr>)"
    using known(1) by (simp add: open_browse_def query(2) seed_rules)
  show "map_option browse_filters_of (open_browse now ''/listings?category=academic_textbook'') =
     Some (no_filters\<lparr>f_category := Some ''academic_textbook'', f_page := Some 1, f_pageSize := Some PAGE_SIZE\<rparr>)"
    using known(2) by (simp add: open_browse_def query(3) seed_rules)
qed



end
