(* ===== verification/Api_Schema.thy ===== *)
theory Api_Schema
  imports Endpoints
begin

text \<open>
  \<open>src/api/schema.ts\<close>, the API's contract: the shapes of the JSON values, the operations with
  their parameters, bodies and responses, and the table of the paths. A schema is data here, with
  its references by name as in the source. \<open>conforms\<close> says that a call of the client is one
  that an operation accepts; its final theorem is the type safety of every request builder of
  \<^theory_text>\<open>Endpoints\<close>. The generated comments and the \<open>never\<close> entries, which name what an operation
  does not have, are left out.
\<close>

named_theorems schema_defs \<open>the schemas, operations and paths of the contract\<close>

datatype schema =
    SString | SNumber | SBoolean | SNull | SEnum "string list" | SArray schema | SUnion "schema list"
  | SObject "(string \<times> bool \<times> schema) list" | SRef string

datatype body_schema = NoBodySchema | JsonSchema schema | MultipartSchema schema

text \<open>A parameter or field is a name, whether it is required, and its schema.\<close>

record operation =
  op_query :: "(string \<times> bool \<times> schema) list"
  op_path :: "string list"
  op_cookies :: "(string \<times> bool \<times> schema) list"
  op_body :: body_schema
  op_responses :: "(nat \<times> schema option) list"

type_synonym path_table = "(string \<times> (http_method \<times> operation) list) list"

section \<open>Component schemas\<close>

definition AccessTokenResponse_schema :: schema where [schema_defs]:
  "AccessTokenResponse_schema = SObject
     [(''access_token'', True, SString),
      (''token_type'', True, SString),
      (''expires_in'', True, SNumber)]"

definition AdminPasswordResetResponse_schema :: schema where [schema_defs]:
  "AdminPasswordResetResponse_schema = SObject
     [(''temporary_password'', True, SString)]"

definition AdminUserPage_schema :: schema where [schema_defs]:
  "AdminUserPage_schema = SObject
     [(''items'', True, SArray (SRef ''AdminUserPublic'')),
      (''total'', True, SNumber),
      (''page'', True, SNumber),
      (''page_size'', True, SNumber)]"

definition AdminUserPublic_schema :: schema where [schema_defs]:
  "AdminUserPublic_schema = SObject
     [(''id'', True, SString),
      (''email'', True, SString),
      (''display_name'', True, SString),
      (''created_at'', True, SString),
      (''is_active'', True, SBoolean)]"

definition Body_upload_schema :: schema where [schema_defs]:
  "Body_upload_schema = SObject
     [(''images'', True, SArray (SString))]"

definition HTTPValidationError_schema :: schema where [schema_defs]:
  "HTTPValidationError_schema = SObject
     [(''detail'', False, SArray (SRef ''ValidationError''))]"

definition HealthChecks_schema :: schema where [schema_defs]:
  "HealthChecks_schema = SObject
     [(''database'', True, SString)]"

definition HealthResponse_schema :: schema where [schema_defs]:
  "HealthResponse_schema = SObject
     [(''status'', True, SString),
      (''checks'', True, SRef ''HealthChecks'')]"

definition ListingCategoryEnum_schema :: schema where [schema_defs]:
  "ListingCategoryEnum_schema = SEnum [''fiction'', ''non_fiction'', ''academic_textbook'', ''children'', ''comics_graphic_novels'', ''other'']"

definition ListingConditionEnum_schema :: schema where [schema_defs]:
  "ListingConditionEnum_schema = SEnum [''new'', ''like_new'', ''good'', ''fair'', ''poor'']"

definition ListingCreate_schema :: schema where [schema_defs]:
  "ListingCreate_schema = SObject
     [(''title'', True, SString),
      (''author'', True, SString),
      (''description'', True, SString),
      (''category'', True, SRef ''ListingCategoryEnum''),
      (''condition'', True, SRef ''ListingConditionEnum''),
      (''price'', True, SUnion [SNumber, SString])]"

definition ListingImagePublic_schema :: schema where [schema_defs]:
  "ListingImagePublic_schema = SObject
     [(''id'', True, SString),
      (''url'', True, SString),
      (''position'', True, SNumber)]"

definition ListingPage_schema :: schema where [schema_defs]:
  "ListingPage_schema = SObject
     [(''items'', True, SArray (SRef ''ListingPublic'')),
      (''total'', True, SNumber),
      (''page'', True, SNumber),
      (''page_size'', True, SNumber)]"

definition ListingPublic_schema :: schema where [schema_defs]:
  "ListingPublic_schema = SObject
     [(''id'', True, SString),
      (''owner_id'', True, SString),
      (''seller_display_name'', True, SString),
      (''title'', True, SString),
      (''author'', True, SString),
      (''description'', True, SString),
      (''category'', True, SRef ''ListingCategoryEnum''),
      (''condition'', True, SRef ''ListingConditionEnum''),
      (''price'', True, SString),
      (''status'', True, SRef ''ListingStatusEnum''),
      (''sold_at'', True, SUnion [SString, SNull]),
      (''created_at'', True, SString),
      (''updated_at'', True, SString),
      (''images'', True, SArray (SRef ''ListingImagePublic'')),
      (''seller_member_since'', False, SUnion [SString, SNull]),
      (''seller_active_listings_count'', False, SUnion [SNumber, SNull]),
      (''seller_other_listings'', False, SUnion [SArray (SRef ''ListingPublic''), SNull])]"

definition ListingStatusEnum_schema :: schema where [schema_defs]:
  "ListingStatusEnum_schema = SEnum [''available'', ''sold'', ''deleted'']"

definition ListingStatusSummary_schema :: schema where [schema_defs]:
  "ListingStatusSummary_schema = SObject
     [(''available'', True, SNumber),
      (''sold'', True, SNumber),
      (''deleted'', True, SNumber)]"

definition ListingUpdate_schema :: schema where [schema_defs]:
  "ListingUpdate_schema = SObject
     [(''title'', False, SUnion [SString, SNull]),
      (''author'', False, SUnion [SString, SNull]),
      (''description'', False, SUnion [SString, SNull]),
      (''category'', False, SUnion [SRef ''ListingCategoryEnum'', SNull]),
      (''condition'', False, SUnion [SRef ''ListingConditionEnum'', SNull]),
      (''price'', False, SUnion [SNumber, SString, SNull])]"

definition LoginRequest_schema :: schema where [schema_defs]:
  "LoginRequest_schema = SObject
     [(''email'', True, SString),
      (''password'', True, SString)]"

definition PasswordChangeRequest_schema :: schema where [schema_defs]:
  "PasswordChangeRequest_schema = SObject
     [(''current_password'', True, SString),
      (''new_password'', True, SString)]"

definition RegisterRequest_schema :: schema where [schema_defs]:
  "RegisterRequest_schema = SObject
     [(''email'', True, SString),
      (''password'', True, SString),
      (''display_name'', True, SString)]"

definition RoleEnum_schema :: schema where [schema_defs]:
  "RoleEnum_schema = SEnum [''user'', ''admin'']"

definition SuspendUserRequest_schema :: schema where [schema_defs]:
  "SuspendUserRequest_schema = SObject
     [(''reason_code'', True, SString)]"

definition UserPublic_schema :: schema where [schema_defs]:
  "UserPublic_schema = SObject
     [(''id'', True, SString),
      (''email'', True, SString),
      (''display_name'', True, SString),
      (''role'', True, SRef ''RoleEnum''),
      (''created_at'', True, SString)]"

definition UserUpdate_schema :: schema where [schema_defs]:
  "UserUpdate_schema = SObject
     [(''display_name'', True, SString)]"

definition ValidationError_schema :: schema where [schema_defs]:
  "ValidationError_schema = SObject
     [(''loc'', True, SArray (SUnion [SString, SNumber])),
      (''msg'', True, SString),
      (''type'', True, SString)]"

definition component_schemas :: "(string \<times> schema) list" where
  "component_schemas =
     [(''AccessTokenResponse'', AccessTokenResponse_schema),
      (''AdminPasswordResetResponse'', AdminPasswordResetResponse_schema),
      (''AdminUserPage'', AdminUserPage_schema),
      (''AdminUserPublic'', AdminUserPublic_schema),
      (''Body_upload_listing_images_api_v1_listings__listing_id__images_post'', Body_upload_schema),
      (''HTTPValidationError'', HTTPValidationError_schema),
      (''HealthChecks'', HealthChecks_schema),
      (''HealthResponse'', HealthResponse_schema),
      (''ListingCategoryEnum'', ListingCategoryEnum_schema),
      (''ListingConditionEnum'', ListingConditionEnum_schema),
      (''ListingCreate'', ListingCreate_schema),
      (''ListingImagePublic'', ListingImagePublic_schema),
      (''ListingPage'', ListingPage_schema),
      (''ListingPublic'', ListingPublic_schema),
      (''ListingStatusEnum'', ListingStatusEnum_schema),
      (''ListingStatusSummary'', ListingStatusSummary_schema),
      (''ListingUpdate'', ListingUpdate_schema),
      (''LoginRequest'', LoginRequest_schema),
      (''PasswordChangeRequest'', PasswordChangeRequest_schema),
      (''RegisterRequest'', RegisterRequest_schema),
      (''RoleEnum'', RoleEnum_schema),
      (''SuspendUserRequest'', SuspendUserRequest_schema),
      (''UserPublic'', UserPublic_schema),
      (''UserUpdate'', UserUpdate_schema),
      (''ValidationError'', ValidationError_schema)]"

section \<open>Operations\<close>

definition get_health_op :: operation where [schema_defs]:
  "get_health_op =
     \<lparr>op_query = [],
      op_path = [], op_cookies = [], op_body = NoBodySchema,
      op_responses = [(200, Some (SRef ''HealthResponse''))]\<rparr>"

definition register_op :: operation where [schema_defs]:
  "register_op =
     \<lparr>op_query = [],
      op_path = [], op_cookies = [], op_body = JsonSchema (SRef ''RegisterRequest''),
      op_responses = [(201, Some (SRef ''UserPublic'')), (422, Some (SRef ''HTTPValidationError''))]\<rparr>"

definition login_op :: operation where [schema_defs]:
  "login_op =
     \<lparr>op_query = [],
      op_path = [], op_cookies = [], op_body = JsonSchema (SRef ''LoginRequest''),
      op_responses = [(200, Some (SRef ''AccessTokenResponse'')), (422, Some (SRef ''HTTPValidationError''))]\<rparr>"

definition refresh_op :: operation where [schema_defs]:
  "refresh_op =
     \<lparr>op_query = [],
      op_path = [], op_cookies = [(''refresh_token'', False, SUnion [SString, SNull])], op_body = NoBodySchema,
      op_responses = [(200, Some (SRef ''AccessTokenResponse'')), (422, Some (SRef ''HTTPValidationError''))]\<rparr>"

definition logout_op :: operation where [schema_defs]:
  "logout_op =
     \<lparr>op_query = [],
      op_path = [], op_cookies = [(''refresh_token'', False, SUnion [SString, SNull])], op_body = NoBodySchema,
      op_responses = [(204, None), (422, Some (SRef ''HTTPValidationError''))]\<rparr>"

definition browse_listings_op :: operation where [schema_defs]:
  "browse_listings_op =
     \<lparr>op_query = [(''search'', False, SUnion [SString, SNull]),
        (''category'', False, SUnion [SRef ''ListingCategoryEnum'', SNull]),
        (''condition'', False, SUnion [SRef ''ListingConditionEnum'', SNull]),
        (''min_price'', False, SUnion [SNumber, SString, SNull]),
        (''max_price'', False, SUnion [SNumber, SString, SNull]),
        (''page'', False, SNumber),
        (''page_size'', False, SNumber)],
      op_path = [], op_cookies = [], op_body = NoBodySchema,
      op_responses = [(200, Some (SRef ''ListingPage'')), (422, Some (SRef ''HTTPValidationError''))]\<rparr>"

definition create_listing_op :: operation where [schema_defs]:
  "create_listing_op =
     \<lparr>op_query = [],
      op_path = [], op_cookies = [], op_body = JsonSchema (SRef ''ListingCreate''),
      op_responses = [(201, Some (SRef ''ListingPublic'')), (422, Some (SRef ''HTTPValidationError''))]\<rparr>"

definition get_listing_op :: operation where [schema_defs]:
  "get_listing_op =
     \<lparr>op_query = [],
      op_path = [''listing_id''], op_cookies = [], op_body = NoBodySchema,
      op_responses = [(200, Some (SRef ''ListingPublic'')), (422, Some (SRef ''HTTPValidationError''))]\<rparr>"

definition delete_listing_op :: operation where [schema_defs]:
  "delete_listing_op =
     \<lparr>op_query = [],
      op_path = [''listing_id''], op_cookies = [], op_body = NoBodySchema,
      op_responses = [(204, None), (422, Some (SRef ''HTTPValidationError''))]\<rparr>"

definition update_listing_op :: operation where [schema_defs]:
  "update_listing_op =
     \<lparr>op_query = [],
      op_path = [''listing_id''], op_cookies = [], op_body = JsonSchema (SRef ''ListingUpdate''),
      op_responses = [(200, Some (SRef ''ListingPublic'')), (422, Some (SRef ''HTTPValidationError''))]\<rparr>"

definition mark_listing_sold_op :: operation where [schema_defs]:
  "mark_listing_sold_op =
     \<lparr>op_query = [],
      op_path = [''listing_id''], op_cookies = [], op_body = NoBodySchema,
      op_responses = [(200, Some (SRef ''ListingPublic'')), (422, Some (SRef ''HTTPValidationError''))]\<rparr>"

definition upload_listing_images_op :: operation where [schema_defs]:
  "upload_listing_images_op =
     \<lparr>op_query = [],
      op_path = [''listing_id''], op_cookies = [], op_body = MultipartSchema (SRef ''Body_upload_listing_images_api_v1_listings__listing_id__images_post''),
      op_responses = [(201, Some (SArray (SRef ''ListingImagePublic''))), (422, Some (SRef ''HTTPValidationError''))]\<rparr>"

definition get_my_listings_op :: operation where [schema_defs]:
  "get_my_listings_op =
     \<lparr>op_query = [],
      op_path = [], op_cookies = [], op_body = NoBodySchema,
      op_responses = [(200, Some (SArray (SRef ''ListingPublic'')))]\<rparr>"

definition get_my_listings_summary_op :: operation where [schema_defs]:
  "get_my_listings_summary_op =
     \<lparr>op_query = [],
      op_path = [], op_cookies = [], op_body = NoBodySchema,
      op_responses = [(200, Some (SRef ''ListingStatusSummary''))]\<rparr>"

definition get_own_profile_op :: operation where [schema_defs]:
  "get_own_profile_op =
     \<lparr>op_query = [],
      op_path = [], op_cookies = [], op_body = NoBodySchema,
      op_responses = [(200, Some (SRef ''UserPublic''))]\<rparr>"

definition update_own_profile_op :: operation where [schema_defs]:
  "update_own_profile_op =
     \<lparr>op_query = [],
      op_path = [], op_cookies = [], op_body = JsonSchema (SRef ''UserUpdate''),
      op_responses = [(200, Some (SRef ''UserPublic'')), (422, Some (SRef ''HTTPValidationError''))]\<rparr>"

definition change_own_password_op :: operation where [schema_defs]:
  "change_own_password_op =
     \<lparr>op_query = [],
      op_path = [], op_cookies = [], op_body = JsonSchema (SRef ''PasswordChangeRequest''),
      op_responses = [(204, None), (422, Some (SRef ''HTTPValidationError''))]\<rparr>"

definition list_users_op :: operation where [schema_defs]:
  "list_users_op =
     \<lparr>op_query = [(''page'', False, SNumber),
        (''page_size'', False, SNumber)],
      op_path = [], op_cookies = [], op_body = NoBodySchema,
      op_responses = [(200, Some (SRef ''AdminUserPage'')), (422, Some (SRef ''HTTPValidationError''))]\<rparr>"

definition suspend_user_op :: operation where [schema_defs]:
  "suspend_user_op =
     \<lparr>op_query = [],
      op_path = [''user_id''], op_cookies = [], op_body = JsonSchema (SRef ''SuspendUserRequest''),
      op_responses = [(200, Some (SRef ''AdminUserPublic'')), (422, Some (SRef ''HTTPValidationError''))]\<rparr>"

definition reinstate_user_op :: operation where [schema_defs]:
  "reinstate_user_op =
     \<lparr>op_query = [],
      op_path = [''user_id''], op_cookies = [], op_body = NoBodySchema,
      op_responses = [(200, Some (SRef ''AdminUserPublic'')), (422, Some (SRef ''HTTPValidationError''))]\<rparr>"

definition reset_password_op :: operation where [schema_defs]:
  "reset_password_op =
     \<lparr>op_query = [],
      op_path = [''user_id''], op_cookies = [], op_body = NoBodySchema,
      op_responses = [(200, Some (SRef ''AdminPasswordResetResponse'')), (422, Some (SRef ''HTTPValidationError''))]\<rparr>"

definition list_listings_op :: operation where [schema_defs]:
  "list_listings_op =
     \<lparr>op_query = [(''status'', False, SUnion [SRef ''ListingStatusEnum'', SNull]),
        (''page'', False, SNumber),
        (''page_size'', False, SNumber)],
      op_path = [], op_cookies = [], op_body = NoBodySchema,
      op_responses = [(200, Some (SRef ''ListingPage'')), (422, Some (SRef ''HTTPValidationError''))]\<rparr>"

definition remove_listing_op :: operation where [schema_defs]:
  "remove_listing_op =
     \<lparr>op_query = [(''reason_code'', True, SString)],
      op_path = [''listing_id''], op_cookies = [], op_body = NoBodySchema,
      op_responses = [(204, None), (422, Some (SRef ''HTTPValidationError''))]\<rparr>"

section \<open>Paths\<close>

definition auth_paths :: path_table where [schema_defs]:
  "auth_paths =
     [(''/api/v1/health'', [(GET, get_health_op)]),
      (''/api/v1/auth/register'', [(POST, register_op)]),
      (''/api/v1/auth/login'', [(POST, login_op)]),
      (''/api/v1/auth/refresh'', [(POST, refresh_op)]),
      (''/api/v1/auth/logout'', [(POST, logout_op)])]"

definition listings_paths :: path_table where [schema_defs]:
  "listings_paths =
     [(''/api/v1/listings'', [(GET, browse_listings_op), (POST, create_listing_op)]),
      (''/api/v1/listings/{listing_id}'', [(GET, get_listing_op), (DELETE, delete_listing_op), (PATCH, update_listing_op)]),
      (''/api/v1/listings/{listing_id}/sold'', [(POST, mark_listing_sold_op)]),
      (''/api/v1/listings/{listing_id}/images'', [(POST, upload_listing_images_op)])]"

definition users_paths :: path_table where [schema_defs]:
  "users_paths =
     [(''/api/v1/users/me/listings'', [(GET, get_my_listings_op)]),
      (''/api/v1/users/me/listings/summary'', [(GET, get_my_listings_summary_op)]),
      (''/api/v1/users/me'', [(GET, get_own_profile_op), (PATCH, update_own_profile_op)]),
      (''/api/v1/users/me/password'', [(POST, change_own_password_op)])]"

definition admin_paths :: path_table where [schema_defs]:
  "admin_paths =
     [(''/api/v1/admin/users'', [(GET, list_users_op)]),
      (''/api/v1/admin/users/{user_id}/suspend'', [(POST, suspend_user_op)]),
      (''/api/v1/admin/users/{user_id}/reinstate'', [(POST, reinstate_user_op)]),
      (''/api/v1/admin/users/{user_id}/reset-password'', [(POST, reset_password_op)]),
      (''/api/v1/admin/listings'', [(GET, list_listings_op)]),
      (''/api/v1/admin/listings/{listing_id}'', [(DELETE, remove_listing_op)])]"

definition api_paths :: path_table where
  "api_paths = auth_paths @ listings_paths @ users_paths @ admin_paths"

section \<open>Conformance\<close>

text \<open>A number that JSON can hold is finite. The fuel bounds the references followed inside each
  other and the nesting of the value; the requests need five.\<close>

fun finite_num :: "js_number \<Rightarrow> bool" where
  "finite_num (Dbl m e) = True"
| "finite_num _ = False"

fun typed :: "nat \<Rightarrow> schema \<Rightarrow> json \<Rightarrow> bool" where
  "typed 0 t v = False"
| "typed (Suc n) SString v = (case v of JStr s \<Rightarrow> True | _ \<Rightarrow> False)"
| "typed (Suc n) SNumber v = (case v of JNum x \<Rightarrow> finite_num x | _ \<Rightarrow> False)"
| "typed (Suc n) SBoolean v = (case v of JBool b \<Rightarrow> True | _ \<Rightarrow> False)"
| "typed (Suc n) SNull v = (v = JNull)"
| "typed (Suc n) (SEnum xs) v = (case v of JStr s \<Rightarrow> s \<in> set xs | _ \<Rightarrow> False)"
| "typed (Suc n) (SArray t) v = (case v of JArr vs \<Rightarrow> list_all (typed n t) vs | _ \<Rightarrow> False)"
| "typed (Suc n) (SUnion ts) v = list_ex (\<lambda>t. typed n t v) ts"
| "typed (Suc n) (SObject fs) v =
     (case v of
        JObj kvs \<Rightarrow>
          list_all (\<lambda>(k, _). k \<in> set (map fst fs)) kvs \<and>
          list_all (\<lambda>(k, required, t).
            (case map_of kvs k of None \<Rightarrow> \<not> required | Some x \<Rightarrow> typed n t x)) fs
      | _ \<Rightarrow> False)"
| "typed (Suc n) (SRef x) v =
     (case map_of component_schemas x of None \<Rightarrow> False | Some t \<Rightarrow> typed n t v)"

definition body_depth :: nat where "body_depth = 5"

text \<open>A path template matches segment by segment; a segment in braces stands for one that is not
  empty.\<close>

definition segment_matches :: "string \<Rightarrow> string \<Rightarrow> bool" where
  "segment_matches t s \<longleftrightarrow> (if take 1 t = ''{'' then s \<noteq> [] else s = t)"

definition path_matches :: "string \<Rightarrow> string \<Rightarrow> bool" where
  "path_matches template path \<longleftrightarrow>
     list_all2 segment_matches (split_on CHR ''/'' template) (split_on CHR ''/'' path)"

definition operations_at :: "http_method \<Rightarrow> string \<Rightarrow> operation list" where
  "operations_at m path =
     concat (map (\<lambda>(template, ms). only_if (path_matches template path) (map snd (filter (\<lambda>(m', _). m' = m) ms)))
       api_paths)"

fun query_json :: "query_value \<Rightarrow> json" where
  "query_json (QString s) = JStr s"
| "query_json (QNumber x) = JNum x"
| "query_json (QBool b) = JBool b"
| "query_json QNull = JNull"
| "query_json QUndefined = JNull"

definition sent_entries :: "query_value js_object \<Rightarrow> query_value js_object" where
  "sent_entries q = filter (\<lambda>(_, v). v \<noteq> QNull \<and> v \<noteq> QUndefined) q"

definition query_conforms :: "(string \<times> bool \<times> schema) list \<Rightarrow> query_value js_object \<Rightarrow> bool" where
  "query_conforms params q \<longleftrightarrow>
     typed body_depth (SObject params) (JObj (map (\<lambda>(k, v). (k, query_json v)) (sent_entries q)))"

text \<open>The parts of a multipart body of one name form the array of that field; a file is its content,
  a string.\<close>

definition form_json :: "form_data \<Rightarrow> json" where
  "form_json fd =
     JObj (map (\<lambda>k. (k, JArr (map (\<lambda>(_, f). JStr (file_name f)) (filter (\<lambda>(k', _). k' = k) fd)))) (remdups (map fst fd)))"

definition body_conforms :: "body_schema \<Rightarrow> fetch_body \<Rightarrow> bool" where
  "body_conforms b w =
     (case (b, w) of
        (NoBodySchema, NoBody) \<Rightarrow> True
      | (JsonSchema t, JsonText j) \<Rightarrow> typed body_depth t j
      | (MultipartSchema t, Multipart fd) \<Rightarrow> typed body_depth t (form_json fd)
      | _ \<Rightarrow> False)"

definition success_schema :: "operation \<Rightarrow> schema option list" where
  "success_schema op = map snd (filter (\<lambda>(st, _). 200 \<le> st \<and> st < 300) (op_responses op))"

text \<open>A call of the client that expects a result: exactly one operation is at its method and path, its
  query and body are accepted, and what the operation returns on success is what is expected, where
  \<^const>\<open>None\<close> is \<open>void\<close>.\<close>

definition conforms :: "api_call \<Rightarrow> schema option \<Rightarrow> bool" where
  "conforms a result =
     (let opts = call_options a in
      case operations_at (case opt_method opts of Some m \<Rightarrow> m | None \<Rightarrow> GET) (call_path a) of
        [op] \<Rightarrow>
          query_conforms (op_query op) (case opt_query opts of Some q \<Rightarrow> q | None \<Rightarrow> []) \<and>
          body_conforms (op_body op) (request_body opts) \<and> success_schema op = [result]
      | _ \<Rightarrow> False)"

section \<open>The client's calls\<close>

text \<open>What the request builders are given: an identifier is one segment of a path, an enumerated value
  one of its schema, a price a finite number.\<close>

definition is_segment :: "string \<Rightarrow> bool" where
  "is_segment s \<longleftrightarrow> s \<noteq> [] \<and> CHR ''/'' \<notin> set s"

definition enum_values :: "schema \<Rightarrow> string set" where
  "enum_values t = (case t of SEnum xs \<Rightarrow> set xs | _ \<Rightarrow> {})"

definition good_listing :: "listing_create \<Rightarrow> bool" where
  "good_listing b \<longleftrightarrow> new_category b \<in> enum_values ListingCategoryEnum_schema \<and>
     new_condition b \<in> enum_values ListingConditionEnum_schema \<and> finite_num (new_price b)"

definition good_filters :: "browse_filters \<Rightarrow> bool" where
  "good_filters f \<longleftrightarrow>
     pred_option (\<lambda>c. c \<in> enum_values ListingCategoryEnum_schema) (f_category f) \<and>
     pred_option (\<lambda>c. c \<in> enum_values ListingConditionEnum_schema) (f_condition f) \<and>
     pred_option finite_num (f_minPrice f) \<and> pred_option finite_num (f_maxPrice f) \<and>
     pred_option (\<lambda>i. finite_num (of_int_num i)) (f_page f) \<and> pred_option (\<lambda>i. finite_num (of_int_num i)) (f_pageSize f)"

definition good_params :: "page_params \<Rightarrow> bool" where
  "good_params p \<longleftrightarrow> pred_option (\<lambda>i. finite_num (of_int_num i)) (pp_page p) \<and>
     pred_option (\<lambda>i. finite_num (of_int_num i)) (pp_pageSize p)"

lemma split_segment [simp]: "is_segment s \<Longrightarrow> split_on CHR ''/'' s = [s]"
  "is_segment s \<Longrightarrow> split_on CHR ''/'' (s @ CHR ''/'' # t) = s # split_on CHR ''/'' t"
  by (simp_all add: is_segment_def split_on_no_sep split_on_append)

text \<open>The table with its templates cut into segments.\<close>

lemma operations_at_segments:
  "operations_at m path = concat (map (\<lambda>(t, ms). only_if (list_all2 segment_matches t (split_on CHR ''/'' path))
     (map snd (filter (\<lambda>(m', _). m' = m) ms))) (map (\<lambda>(t, ms). (split_on CHR ''/'' t, ms)) api_paths))"
  by (simp add: operations_at_def path_matches_def comp_def case_prod_unfold)

lemma segments_table:
  "map (\<lambda>(t, ms). (split_on CHR ''/'' t, ms)) api_paths =
    [([[], ''api'', ''v1'', ''health''], [(GET, get_health_op)]),
     ([[], ''api'', ''v1'', ''auth'', ''register''], [(POST, register_op)]),
     ([[], ''api'', ''v1'', ''auth'', ''login''], [(POST, login_op)]),
     ([[], ''api'', ''v1'', ''auth'', ''refresh''], [(POST, refresh_op)]),
     ([[], ''api'', ''v1'', ''auth'', ''logout''], [(POST, logout_op)]),
     ([[], ''api'', ''v1'', ''listings''], [(GET, browse_listings_op), (POST, create_listing_op)]),
     ([[], ''api'', ''v1'', ''listings'', ''{listing_id}''],
       [(GET, get_listing_op), (DELETE, delete_listing_op), (PATCH, update_listing_op)]),
     ([[], ''api'', ''v1'', ''listings'', ''{listing_id}'', ''sold''], [(POST, mark_listing_sold_op)]),
     ([[], ''api'', ''v1'', ''listings'', ''{listing_id}'', ''images''], [(POST, upload_listing_images_op)]),
     ([[], ''api'', ''v1'', ''users'', ''me'', ''listings''], [(GET, get_my_listings_op)]),
     ([[], ''api'', ''v1'', ''users'', ''me'', ''listings'', ''summary''], [(GET, get_my_listings_summary_op)]),
     ([[], ''api'', ''v1'', ''users'', ''me''], [(GET, get_own_profile_op), (PATCH, update_own_profile_op)]),
     ([[], ''api'', ''v1'', ''users'', ''me'', ''password''], [(POST, change_own_password_op)]),
     ([[], ''api'', ''v1'', ''admin'', ''users''], [(GET, list_users_op)]),
     ([[], ''api'', ''v1'', ''admin'', ''users'', ''{user_id}'', ''suspend''], [(POST, suspend_user_op)]),
     ([[], ''api'', ''v1'', ''admin'', ''users'', ''{user_id}'', ''reinstate''], [(POST, reinstate_user_op)]),
     ([[], ''api'', ''v1'', ''admin'', ''users'', ''{user_id}'', ''reset-password''], [(POST, reset_password_op)]),
     ([[], ''api'', ''v1'', ''admin'', ''listings''], [(GET, list_listings_op)]),
     ([[], ''api'', ''v1'', ''admin'', ''listings'', ''{listing_id}''], [(DELETE, remove_listing_op)])]"
  by (simp add: api_paths_def auth_paths_def listings_paths_def users_paths_def admin_paths_def)

lemmas conforms_rules =
  conforms_def endpoint_def json_endpoint_def query_endpoint_def no_options_def operations_at_segments segments_table
  segment_matches_def query_conforms_def sent_entries_def body_conforms_def request_body_def success_schema_def
  body_depth_def numeral_eq_Suc component_schemas_def

lemma is_segment_not_Nil [simp]: "is_segment s \<Longrightarrow> s \<noteq> []"
  by (simp add: is_segment_def)

lemma split_segment_end [simp]: "is_segment s \<Longrightarrow> split_on CHR ''/'' (s @ CHR ''/'' # t) = s # split_on CHR ''/'' t"
  by simp

lemma account_calls_conform:
  "conforms (register_call r) (Some (SRef ''UserPublic''))"
  "conforms (login_call l) (Some (SRef ''AccessTokenResponse''))"
  "conforms logout_call None"
  "conforms getOwnProfile (Some (SRef ''UserPublic''))"
  "conforms (updateOwnProfile display_name) (Some (SRef ''UserPublic''))"
  "conforms (changeOwnPassword p) None"
  "conforms getOwnListingsSummary (Some (SRef ''ListingStatusSummary''))"
  "conforms getMyListings (Some (SArray (SRef ''ListingPublic'')))"
  by (simp_all add: conforms_rules request_defs schema_defs)

lemma listing_calls_conform:
  assumes "is_segment lid"
  shows "conforms (getListing lid) (Some (SRef ''ListingPublic''))"
    and "conforms (deleteListing lid) None"
    and "conforms (markListingSold lid) (Some (SRef ''ListingPublic''))"
  using assms by (simp_all add: conforms_rules request_defs schema_defs)

lemma write_calls_conform:
  assumes "good_listing b"
  shows "conforms (createListing b) (Some (SRef ''ListingPublic''))"
    and "is_segment lid \<Longrightarrow> conforms (updateListing lid b) (Some (SRef ''ListingPublic''))"
  using assms by (simp_all add: conforms_rules request_defs schema_defs listing_json_def good_listing_def enum_values_def)

lemma form_json_images:
  "files \<noteq> [] \<Longrightarrow> form_json (map (\<lambda>f. (''images'', f)) files) = JObj [(''images'', JArr (map (\<lambda>f. JStr (file_name f)) files))]"
proof -
  assume "files \<noteq> []"
  have "remdups (map (\<lambda>f. ''images'') files) = (if files = [] then [] else [''images''])"
    by (induction files) (auto simp: image_constant_conv)
  with \<open>files \<noteq> []\<close> show ?thesis by (simp add: form_json_def comp_def filter_map)
qed

lemma upload_call_conforms:
  assumes "is_segment lid" and "files \<noteq> []"
  shows "conforms (uploadListingImages lid files) (Some (SArray (SRef ''ListingImagePublic'')))"
  using assms by (simp add: conforms_rules request_defs schema_defs form_json_images list_all_iff)

lemma admin_calls_conform:
  assumes "is_segment uid"
  shows "conforms (suspendUser uid reason) (Some (SRef ''AdminUserPublic''))"
    and "conforms (reinstateUser uid) (Some (SRef ''AdminUserPublic''))"
    and "conforms (resetUserPassword uid) (Some (SRef ''AdminPasswordResetResponse''))"
    and "conforms (removeListing uid reason) None"
  using assms by (simp_all add: conforms_rules request_defs schema_defs)

text \<open>A query conforms if its keys are parameters and each parameter's entry, when it is sent, has its
  type.\<close>

lemma map_of_sent:
  "distinct (map fst q) \<Longrightarrow>
   map_of (map (\<lambda>(k, v). (k, query_json v)) (sent_entries q)) k =
     (case map_of q k of None \<Rightarrow> None | Some v \<Rightarrow> if v = QNull \<or> v = QUndefined then None else Some (query_json v))"
proof (induction q)
  case (Cons e q)
  obtain k' v where e: "e = (k', v)" by fastforce
  have "map_of q k = None" if "k = k'"
    using Cons.prems that by (force simp: e map_of_eq_None_iff)
  then show ?case using Cons by (auto simp: e sent_entries_def)
qed (simp add: sent_entries_def)

definition entry_ok :: "bool \<Rightarrow> schema \<Rightarrow> query_value \<Rightarrow> bool" where
  "entry_ok required t v \<longleftrightarrow> (if v = QNull \<or> v = QUndefined then \<not> required else typed 4 t (query_json v))"

lemma entry_ok_values:
  "(\<And>s. x = Some s \<Longrightarrow> typed 4 t (JStr s)) \<Longrightarrow> entry_ok False t (str_value x)"
  "(\<And>n. y = Some n \<Longrightarrow> typed 4 t (JNum n)) \<Longrightarrow> entry_ok False t (num_value y)"
  "(\<And>i. z = Some i \<Longrightarrow> typed 4 t (JNum (of_int_num i))) \<Longrightarrow> entry_ok False t (int_value z)"
  by (auto simp: entry_ok_def str_value_def num_value_def int_value_def split: option.split)

lemma query_conforms_by_entry:
  assumes "distinct (map fst q)" and "fst ` set q \<subseteq> fst ` set ps"
    and "\<forall>(k, required, t) \<in> set ps.
      (case map_of q k of None \<Rightarrow> \<not> required
       | Some v \<Rightarrow> entry_ok required t v)"
  shows "query_conforms ps q"
proof -
  let ?sent = "map (\<lambda>(k, v). (k, query_json v)) (sent_entries q)"
  have known: "list_all (\<lambda>(k, _). k \<in> set (map fst ps)) ?sent"
    using assms(2) by (force simp: list_all_iff sent_entries_def)
  have "case map_of ?sent k of None \<Rightarrow> \<not> required | Some x \<Rightarrow> typed 4 t x"
    if p: "(k, required, t) \<in> set ps" for k required t
    using assms(3) [rule_format, OF p] by (simp add: map_of_sent [OF assms(1)] entry_ok_def split: option.splits if_splits)
  then have "list_all (\<lambda>(k, required, t). case map_of ?sent k of None \<Rightarrow> \<not> required | Some x \<Rightarrow> typed 4 t x) ps"
    by (auto simp: list_all_iff)
  then have "typed (Suc 4) (SObject ps) (JObj ?sent)"
    using known by (simp only: typed.simps json.case simp_thms)
  then show ?thesis by (simp add: query_conforms_def body_depth_def numeral_eq_Suc)
qed

lemma good_params_conform:
  assumes "good_params p" and "pred_option (\<lambda>st. st \<in> enum_values ListingStatusEnum_schema) st"
  shows "query_conforms (op_query list_users_op) [(''page'', int_value (pp_page p)), (''page_size'', int_value (pp_pageSize p))]"
    and "query_conforms (op_query list_listings_op)
      [(''status'', str_value st), (''page'', int_value (pp_page p)), (''page_size'', int_value (pp_pageSize p))]"
proof -
  have good: "pp_page p = Some i \<Longrightarrow> finite_num (of_int_num i)" "pp_pageSize p = Some i \<Longrightarrow> finite_num (of_int_num i)"
    "st = Some s \<Longrightarrow> s \<in> enum_values ListingStatusEnum_schema" for i s
    using assms by (auto simp: good_params_def)
  show "query_conforms (op_query list_users_op) [(''page'', int_value (pp_page p)), (''page_size'', int_value (pp_pageSize p))]"
    by (rule query_conforms_by_entry)
      (use good in \<open>simp_all add: list_users_op_def entry_ok_values numeral_eq_Suc\<close>)
  show "query_conforms (op_query list_listings_op)
      [(''status'', str_value st), (''page'', int_value (pp_page p)), (''page_size'', int_value (pp_pageSize p))]"
    by (rule query_conforms_by_entry)
      (use good in \<open>simp_all add: list_listings_op_def entry_ok_values numeral_eq_Suc component_schemas_def
          ListingStatusEnum_schema_def enum_values_def\<close>)
qed

lemma page_calls_conform:
  assumes "good_params p" and "pred_option (\<lambda>st. st \<in> enum_values ListingStatusEnum_schema) st"
  shows "conforms (listUsers p) (Some (SRef ''AdminUserPage''))"
    and "conforms (listAdminListings st p) (Some (SRef ''ListingPage''))"
proof -
  have at: "operations_at GET ''/api/v1/admin/users'' = [list_users_op]"
    "operations_at GET ''/api/v1/admin/listings'' = [list_listings_op]"
    by (simp_all add: operations_at_segments segments_table segment_matches_def)
  note rules = conforms_def query_endpoint_def no_options_def body_conforms_def request_body_def success_schema_def
  show "conforms (listUsers p) (Some (SRef ''AdminUserPage''))"
    using good_params_conform(1) [OF assms] at(1) by (simp add: rules listUsers_def list_users_op_def)
  show "conforms (listAdminListings st p) (Some (SRef ''ListingPage''))"
    using good_params_conform(2) [OF assms] at(2) by (simp add: rules listAdminListings_def list_listings_op_def)
qed

lemma query_conforms_entry:
  assumes "query_conforms ps q" and "(k, required, t) \<in> set ps" and "map_of q k = Some v" and "distinct (map fst q)"
    and "v \<noteq> QNull" and "v \<noteq> QUndefined"
  shows "typed 4 t (query_json v)"
proof -
  have "typed (Suc 4) (SObject ps) (JObj (map (\<lambda>(k, v). (k, query_json v)) (sent_entries q)))"
    using assms(1) by (simp add: query_conforms_def body_depth_def numeral_eq_Suc)
  then have "case map_of (map (\<lambda>(k, v). (k, query_json v)) (sent_entries q)) k of
      None \<Rightarrow> \<not> required | Some x \<Rightarrow> typed 4 t x"
    using assms(2) unfolding typed.simps(9) by (auto simp: list_all_iff)
  then show ?thesis using assms(3,5,6) by (simp add: map_of_sent [OF assms(4)])
qed

lemma browse_query_conforms:
  assumes "good_filters f"
  shows "query_conforms (op_query browse_listings_op) (browse_query f)"
proof (rule query_conforms_by_entry)
  show "distinct (map fst (browse_query f))" by (simp add: browse_query_def)
  show "fst ` set (browse_query f) \<subseteq> fst ` set (op_query browse_listings_op)"
    by (simp add: browse_query_def browse_listings_op_def)
  have good: "f_category f = Some c \<Longrightarrow> c \<in> enum_values ListingCategoryEnum_schema"
    "f_condition f = Some c \<Longrightarrow> c \<in> enum_values ListingConditionEnum_schema"
    "f_minPrice f = Some x \<Longrightarrow> finite_num x" "f_maxPrice f = Some x \<Longrightarrow> finite_num x"
    "f_page f = Some i \<Longrightarrow> finite_num (of_int_num i)" "f_pageSize f = Some i \<Longrightarrow> finite_num (of_int_num i)" for c x i
    using assms by (auto simp: good_filters_def)
  have typed: "typed 4 (SUnion [SRef ''ListingCategoryEnum'', SNull]) (JStr c)" if "f_category f = Some c" for c
    using good(1) [OF that]
    by (simp add: numeral_eq_Suc component_schemas_def ListingCategoryEnum_schema_def enum_values_def)
  have typed': "typed 4 (SUnion [SRef ''ListingConditionEnum'', SNull]) (JStr c)" if "f_condition f = Some c" for c
    using good(2) [OF that]
    by (simp add: numeral_eq_Suc component_schemas_def ListingConditionEnum_schema_def enum_values_def)
  have plain: "typed 4 (SUnion [SString, SNull]) (JStr c)" "finite_num x \<Longrightarrow> typed 4 (SUnion [SNumber, SString, SNull]) (JNum x)"
    "finite_num x \<Longrightarrow> typed 4 SNumber (JNum x)" for c x
    by (simp_all add: numeral_eq_Suc)
  show "\<forall>(k, required, t) \<in> set (op_query browse_listings_op).
      (case map_of (browse_query f) k of None \<Rightarrow> \<not> required | Some v \<Rightarrow> entry_ok required t v)"
    using good(3,4,5,6) typed typed' plain
    by (simp add: browse_query_def browse_listings_op_def entry_ok_values del: typed.simps)
qed

lemma browse_call_conforms:
  assumes "good_filters f"
  shows "conforms (browseListings f) (Some (SRef ''ListingPage''))"
proof -
  have "operations_at GET ''/api/v1/listings'' = [browse_listings_op]"
    by (simp add: operations_at_segments segments_table segment_matches_def)
  then show ?thesis
    using browse_query_conforms [OF assms]
    by (simp add: conforms_def browseListings_def query_endpoint_def no_options_def body_conforms_def request_body_def
        success_schema_def browse_listings_op_def)
qed

text \<open>C18: Every request the client can make is typed by the API's contract. Whatever it is given
  (identifiers that are one path segment, a complete listing, a non-empty selection of photos, known
  enumeration values, finite numbers), each request builder addresses exactly one operation of the path
  table, with a query and a body that this operation accepts, and the type it expects back is the one
  that operation returns on success.\<close>

theorem api_calls_typed:
  assumes "is_segment lid" and "is_segment uid" and "good_listing b" and "files \<noteq> []"
    and "good_filters f" and "good_params p"
    and "pred_option (\<lambda>s. s \<in> enum_values ListingStatusEnum_schema) st"
  shows "\<forall>(a, result) \<in> set
    [(register_call r, Some (SRef ''UserPublic'')), (login_call l, Some (SRef ''AccessTokenResponse'')),
     (logout_call, None), (getOwnProfile, Some (SRef ''UserPublic'')),
     (updateOwnProfile display_name, Some (SRef ''UserPublic'')), (changeOwnPassword pw, None),
     (getOwnListingsSummary, Some (SRef ''ListingStatusSummary'')),
     (browseListings f, Some (SRef ''ListingPage'')), (getListing lid, Some (SRef ''ListingPublic'')),
     (createListing b, Some (SRef ''ListingPublic'')), (updateListing lid b, Some (SRef ''ListingPublic'')),
     (deleteListing lid, None), (markListingSold lid, Some (SRef ''ListingPublic'')),
     (uploadListingImages lid files, Some (SArray (SRef ''ListingImagePublic''))),
     (getMyListings, Some (SArray (SRef ''ListingPublic''))), (listUsers p, Some (SRef ''AdminUserPage'')),
     (suspendUser uid reason, Some (SRef ''AdminUserPublic'')),
     (reinstateUser uid, Some (SRef ''AdminUserPublic'')),
     (resetUserPassword uid, Some (SRef ''AdminPasswordResetResponse'')),
     (listAdminListings st p, Some (SRef ''ListingPage'')), (removeListing lid reason, None)].
    conforms a result"
  using account_calls_conform listing_calls_conform [OF assms(1)] write_calls_conform [OF assms(3)]
    upload_call_conforms [OF assms(1,4)] admin_calls_conform [OF assms(2)] admin_calls_conform(4) [OF assms(1)]
    page_calls_conform [OF assms(6,7)] browse_call_conforms [OF assms(5)] assms(1,7)
  by (simp only: list.set ball_simps case_prod_conv simp_thms)

text \<open>A book to list, and the call that an unknown category makes, which the contract refuses.\<close>

definition sample_body :: listing_create where
  "sample_body = \<lparr>new_title = ''Emma'', new_author = ''Austen'', new_description = ''Worn'', new_category = ''fiction'',
     new_condition = ''good'', new_price = js_Number ''4.50''\<rparr>"

theorem api_calls_typed_witness:
  "conforms (createListing sample_body) (Some (SRef ''ListingPublic'')) \<and>
   conforms (removeListing ''l1'' ''spam'') None \<and>
   conforms (browseListings (no_filters\<lparr>f_category := Some ''fiction''\<rparr>)) (Some (SRef ''ListingPage''))"
proof -
  have "finite_num (js_Number ''4.50'')" by code_simp
  then have "good_listing sample_body" by (simp add: good_listing_def sample_body_def schema_defs enum_values_def)
  moreover have "good_filters (no_filters\<lparr>f_category := Some ''fiction''\<rparr>)"
    by (simp add: good_filters_def no_filters_def schema_defs enum_values_def)
  moreover have "good_params \<lparr>pp_page = None, pp_pageSize = None\<rparr>" by (simp add: good_params_def)
  moreover have "is_segment ''l1''" "is_segment ''u1''" by (simp_all add: is_segment_def)
  ultimately show ?thesis
    using api_calls_typed [where lid = "''l1''" and uid = "''u1''" and b = sample_body
        and files = "[\<lparr>file_name = ''a.jpg'', file_size = 1, file_type = ''image/jpeg''\<rparr>]"
        and f = "no_filters\<lparr>f_category := Some ''fiction''\<rparr>" and p = "\<lparr>pp_page = None, pp_pageSize = None\<rparr>"
        and st = None and reason = "''spam''"]
    by (simp only: list.set ball_simps case_prod_conv simp_thms option.pred_inject list.distinct)
qed

end
