(* ===== verification/Page_Flow.thy ===== *)
theory Page_Flow
  imports Query_Hooks Ui_Components
begin

text \<open>
  Pages that show what the server has and change it only from a confirmation dialog. A run of such a
  page consists of user actions that the rendered page offers, answers to requests that are
  outstanding, and changes of what the page is given (a query's new answer, another location), at any
  time. The contract \<open>confirm_dialog\<close> states what makes a request safe: it is sent for the
  dialog's target alone, and only a permitted target gets a dialog.
\<close>

datatype ('a, 'out, 'w) page_event = Click 'a | Answer 'out | World 'w

fun page_run ::
    "('s \<Rightarrow> 'a node) \<Rightarrow> ('a \<Rightarrow> 's \<Rightarrow> 's \<times> 'r option) \<Rightarrow> ('out \<Rightarrow> 's \<Rightarrow> 's) \<Rightarrow> ('w \<Rightarrow> 's \<Rightarrow> 's) \<Rightarrow>
     ('a, 'out, 'w) page_event list \<Rightarrow> 's \<times> nat \<times> 'r list \<Rightarrow> ('s \<times> nat \<times> 'r list) option" where
  "page_run view act settle world [] r = Some r"
| "page_run view act settle world (Click a # es) (s, n, sent) =
     (if offers (view s) a
      then page_run view act settle world es
        (case act a s of (s', None) \<Rightarrow> (s', n, sent) | (s', Some q) \<Rightarrow> (s', Suc n, sent @ [q]))
      else None)"
| "page_run view act settle world (Answer out # es) (s, n, sent) =
     (if n = 0 then None else page_run view act settle world es (settle out s, n - 1, sent))"
| "page_run view act settle world (World w # es) (s, n, sent) =
     page_run view act settle world es (world w s, n, sent)"

lemma page_run_invariant:
  assumes "page_run view act settle world es (s, n, sent) = Some (s', n', sent')" and "P s sent"
    and "\<And>a s sent. P s sent \<Longrightarrow> offers (view s) a \<Longrightarrow>
      (case act a s of (s', None) \<Rightarrow> P s' sent | (s', Some q) \<Rightarrow> P s' (sent @ [q]))"
    and "\<And>out s sent. P s sent \<Longrightarrow> P (settle out s) sent"
    and "\<And>w s sent. World w \<in> set es \<Longrightarrow> P s sent \<Longrightarrow> P (world w s) sent"
  shows "P s' sent'"
  using assms(1,2,5)
proof (induction es arbitrary: s n sent)
  case (Cons e es)
  show ?case
  proof (cases e)
    case (Click a)
    then have "offers (view s) a" using Cons.prems by (auto split: if_splits)
    from assms(3) [OF Cons.prems(2) this] show ?thesis
      using Cons.prems Click by (auto split: prod.splits option.splits if_splits intro: Cons.IH)
  next
    case (Answer out)
    from assms(4) [OF Cons.prems(2)] show ?thesis
      using Cons.prems Answer by (auto split: if_splits intro: Cons.IH)
  next
    case (World w)
    with Cons.prems have "P (world w s) sent" by simp
    then show ?thesis
      using Cons.prems World by (auto intro: Cons.IH)
  qed
qed simp

lemma page_run_sent:
  assumes "page_run view act settle world es (s, n, sent) = Some (s', n', sent')"
  shows "\<exists>ys. sent' = sent @ ys"
proof -
  have "take (length sent) sent' = sent"
    by (rule page_run_invariant [where P = "\<lambda>_ x. take (length sent) x = sent", OF assms])
      (auto split: prod.splits option.splits dest: arg_cong [where f = length])
  then show ?thesis by (metis append_take_drop_id)
qed

text \<open>The states of a run, from the first.\<close>

fun page_trace ::
    "('a \<Rightarrow> 's \<Rightarrow> 's \<times> 'r option) \<Rightarrow> ('out \<Rightarrow> 's \<Rightarrow> 's) \<Rightarrow> ('w \<Rightarrow> 's \<Rightarrow> 's) \<Rightarrow> ('a, 'out, 'w) page_event list \<Rightarrow> 's \<Rightarrow> 's list" where
  "page_trace act settle world [] s = [s]"
| "page_trace act settle world (Click a # es) s = s # page_trace act settle world es (fst (act a s))"
| "page_trace act settle world (Answer out # es) s = s # page_trace act settle world es (settle out s)"
| "page_trace act settle world (World w # es) s = s # page_trace act settle world es (world w s)"

text \<open>Every request of a run was sent by an action that the page offered in one of its states.\<close>

lemma requests_offered_from:
  assumes "page_run view act settle world es (s, n, sent) = Some (s', n', sent')" and "q \<in> set (drop (length sent) sent')"
  shows "\<exists>s0 \<in> set (page_trace act settle world es s). \<exists>a. offers (view s0) a \<and> snd (act a s0) = Some q"
  using assms
proof (induction es arbitrary: s n sent)
  case (Cons e es)
  show ?case
  proof (cases e)
    case (Click a)
    have off: "offers (view s) a" using Cons.prems(1) Click by (auto split: if_splits)
    obtain s1 r where act: "act a s = (s1, r)" by fastforce
    show ?thesis
    proof (cases r)
      case None
      then have "page_run view act settle world es (s1, n, sent) = Some (s', n', sent')"
        using Cons.prems(1) Click off act by simp
      from Cons.IH [OF this Cons.prems(2)] show ?thesis using act Click by auto
    next
      case (Some q1)
      then have run: "page_run view act settle world es (s1, Suc n, sent @ [q1]) = Some (s', n', sent')"
        using Cons.prems(1) Click off act by simp
      from page_run_sent [OF run] obtain ys where "sent' = (sent @ [q1]) @ ys" by blast
      then consider "q = q1" | "q \<in> set (drop (length (sent @ [q1])) sent')"
        using Cons.prems(2) by auto
      then show ?thesis
      proof cases
        case 1
        then have "offers (view s) a \<and> snd (act a s) = Some q" using off act Some by simp
        then show ?thesis unfolding Click by auto
      next
        case 2
        from Cons.IH [OF run 2] show ?thesis using act Click by auto
      qed
    qed
  next
    case (Answer out)
    then have "page_run view act settle world es (settle out s, n - 1, sent) = Some (s', n', sent')"
      using Cons.prems(1) by (auto split: if_splits)
    from Cons.IH [OF this Cons.prems(2)] show ?thesis using Answer by auto
  next
    case (World w)
    then have "page_run view act settle world es (world w s, n, sent) = Some (s', n', sent')"
      using Cons.prems(1) by simp
    from Cons.IH [OF this Cons.prems(2)] show ?thesis using World by auto
  qed
qed simp

lemma requests_offered:
  assumes "page_run view act settle world es (s, 0, []) = Some (s', n, sent)" and "q \<in> set sent"
  shows "\<exists>s0 \<in> set (page_trace act settle world es s). \<exists>a. offers (view s0) a \<and> snd (act a s0) = Some q"
  using requests_offered_from [OF assms(1), of q] assms(2) by simp

text \<open>A dialog asks before a request. \<open>target\<close> is what the open dialog is about, \<open>permitted\<close> what it
  may be about, \<open>about t q\<close> that the request \<open>q\<close> is the one this dialog asks for.\<close>

locale confirm_dialog =
  fixes view :: "'s \<Rightarrow> 'a node"
    and act :: "'a \<Rightarrow> 's \<Rightarrow> 's \<times> 'r option"
    and settle :: "'out \<Rightarrow> 's \<Rightarrow> 's"
    and world :: "'w \<Rightarrow> 's \<Rightarrow> 's"
    and target :: "'s \<Rightarrow> 't option"
    and guarded :: "'r \<Rightarrow> bool"
    and about :: "'t \<Rightarrow> 'r \<Rightarrow> bool"
    and permitted :: "'s \<Rightarrow> 't \<Rightarrow> bool"
  assumes sends_for_target: "offers (view s) a \<Longrightarrow> snd (act a s) = Some q \<Longrightarrow> guarded q \<Longrightarrow>
      \<exists>t. target s = Some t \<and> about t q"
    and opens_permitted: "offers (view s) a \<Longrightarrow> target (fst (act a s)) = Some t \<Longrightarrow> target s = Some t \<or> permitted s t"
    and answer_keeps: "target (settle out s) = Some t \<Longrightarrow> target s = Some t"
    and world_keeps: "target (world w s) = Some t \<Longrightarrow> target s = Some t"
begin

definition targeted :: "('a, 'out, 'w) page_event list \<Rightarrow> 's \<Rightarrow> 't \<Rightarrow> bool" where
  "targeted es s t \<longleftrightarrow> target s = Some t \<or> (\<exists>s0 \<in> set (page_trace act settle world es s). permitted s0 t)"

lemma targeted_step:
  "offers (view s) a \<Longrightarrow> targeted es (fst (act a s)) t \<Longrightarrow> targeted (Click a # es) s t"
  "targeted es (settle out s) t \<Longrightarrow> targeted (Answer out # es) s t"
  "targeted es (world w s) t \<Longrightarrow> targeted (World w # es) s t"
  using opens_permitted [of s a t] answer_keeps [of out s t] world_keeps [of w s t]
  by (auto simp: targeted_def)

lemma requests_confirmed_from:
  assumes "page_run view act settle world es (s, n, sent) = Some (s', n', sent')"
    and "q \<in> set (drop (length sent) sent')" and "guarded q"
  shows "\<exists>t. about t q \<and> targeted es s t"
  using assms(1,2)
proof (induction es arbitrary: s n sent)
  case (Cons e es)
  show ?case
  proof (cases e)
    case (Click a)
    have off: "offers (view s) a" using Cons.prems(1) Click by (auto split: if_splits)
    obtain s1 r where act: "act a s = (s1, r)" by fastforce
    have later: ?thesis if "\<exists>t. about t q \<and> targeted es s1 t"
      using that targeted_step(1) [OF off] act unfolding Click by (metis fst_conv)
    show ?thesis
    proof (cases r)
      case None
      then have "page_run view act settle world es (s1, n, sent) = Some (s', n', sent')"
        using Cons.prems(1) Click off act by simp
      from Cons.IH [OF this Cons.prems(2)] show ?thesis by (rule later)
    next
      case (Some q1)
      then have run: "page_run view act settle world es (s1, Suc n, sent @ [q1]) = Some (s', n', sent')"
        using Cons.prems(1) Click off act by simp
      from page_run_sent [OF run] obtain ys where "sent' = (sent @ [q1]) @ ys" by blast
      then consider "q = q1" | "q \<in> set (drop (length (sent @ [q1])) sent')"
        using Cons.prems(2) by auto
      then show ?thesis
      proof cases
        case 1
        then obtain t where "target s = Some t" "about t q"
          using sends_for_target [OF off] act Some assms(3) by (metis snd_conv)
        then show ?thesis unfolding targeted_def by blast
      next
        case 2
        from Cons.IH [OF run 2] show ?thesis by (rule later)
      qed
    qed
  next
    case (Answer out)
    then have "page_run view act settle world es (settle out s, n - 1, sent) = Some (s', n', sent')"
      using Cons.prems(1) by (auto split: if_splits)
    from Cons.IH [OF this Cons.prems(2)] show ?thesis using targeted_step(2) Answer by blast
  next
    case (World w)
    then have "page_run view act settle world es (world w s, n, sent) = Some (s', n', sent')"
      using Cons.prems(1) by simp
    from Cons.IH [OF this Cons.prems(2)] show ?thesis using targeted_step(3) World by blast
  qed
qed simp

lemma requests_confirmed:
  assumes "page_run view act settle world es (s, 0, []) = Some (s', n, sent)"
    and "target s = None" and "q \<in> set sent" and "guarded q"
  shows "\<exists>t. about t q \<and> (\<exists>s0 \<in> set (page_trace act settle world es s). permitted s0 t)"
  using requests_confirmed_from [OF assms(1), of q] assms(2-4) by (auto simp: targeted_def)

end

end
