(* ===== verification/Admin_Users.thy ===== *)
theory Admin_Users
  imports Page_Flow
begin

text \<open>
  \<open>src/pages/admin/AdminUsersPage.tsx\<close>: the paginated list of accounts with the administrator's three
  actions. Suspending and resetting a password ask in a dialog, the first with a reason; reinstating
  does not. What the page is given (the query's answer, the session's user, the width) is part of
  the state, and changes of it are events.
\<close>

definition ADMIN_PAGE_SIZE :: int where "ADMIN_PAGE_SIZE = 20"

record users_state =
  u_page :: int
  u_result :: "admin_user_page query_result"
  u_session :: "user_public option"
  u_wide :: bool
  u_suspendTarget :: "admin_user_public option"
  u_reason :: string
  u_resetTarget :: "admin_user_public option"
  u_tempPassword :: "string option"
  u_error :: "string option"
  u_suspendPending :: bool
  u_reinstatePending :: bool
  u_resetPending :: bool

definition users_initial :: "user_public option \<Rightarrow> admin_user_page query_result \<Rightarrow> bool \<Rightarrow> users_state" where
  "users_initial session r wide =
     \<lparr>u_page = 1, u_result = r, u_session = session, u_wide = wide, u_suspendTarget = None, u_reason = [],
      u_resetTarget = None, u_tempPassword = None, u_error = None, u_suspendPending = False,
      u_reinstatePending = False, u_resetPending = False\<rparr>"

definition users_query :: "users_state \<Rightarrow> server_query" where
  "users_query s = useAdminUsers \<lparr>pp_page = Some (u_page s), pp_pageSize = Some ADMIN_PAGE_SIZE\<rparr>"

datatype users_action =
    Ask_suspend admin_user_public | Set_reason string | Close_suspend | Confirm_suspend
  | Reinstate admin_user_public | Ask_reset admin_user_public | Close_reset | Confirm_reset | Users_page int

datatype users_request = Suspend string string | Reinstate_user string | Reset_password string

definition handleSuspend :: "users_state \<Rightarrow> users_state \<times> users_request option" where
  "handleSuspend s =
     (case u_suspendTarget s of
        None \<Rightarrow> (s, None)
      | Some u \<Rightarrow> (s\<lparr>u_error := None, u_suspendPending := True\<rparr>, Some (Suspend (admin_user_id u) (u_reason s))))"

definition handleReinstate :: "admin_user_public \<Rightarrow> users_state \<Rightarrow> users_state \<times> users_request option" where
  "handleReinstate u s = (s\<lparr>u_error := None, u_reinstatePending := True\<rparr>, Some (Reinstate_user (admin_user_id u)))"

definition handleResetPassword :: "users_state \<Rightarrow> users_state \<times> users_request option" where
  "handleResetPassword s =
     (case u_resetTarget s of
        None \<Rightarrow> (s, None)
      | Some u \<Rightarrow> (s\<lparr>u_error := None, u_resetPending := True\<rparr>, Some (Reset_password (admin_user_id u))))"

definition closeResetModal :: "users_state \<Rightarrow> users_state" where
  "closeResetModal s = s\<lparr>u_resetTarget := None, u_tempPassword := None\<rparr>"

fun users_act :: "users_action \<Rightarrow> users_state \<Rightarrow> users_state \<times> users_request option" where
  "users_act (Ask_suspend u) s = (s\<lparr>u_error := None, u_suspendTarget := Some u\<rparr>, None)"
| "users_act (Set_reason v) s = (s\<lparr>u_reason := v\<rparr>, None)"
| "users_act Close_suspend s = (s\<lparr>u_suspendTarget := None\<rparr>, None)"
| "users_act Confirm_suspend s = handleSuspend s"
| "users_act (Reinstate u) s = handleReinstate u s"
| "users_act (Ask_reset u) s = (s\<lparr>u_error := None, u_resetTarget := Some u\<rparr>, None)"
| "users_act Close_reset s = (closeResetModal s, None)"
| "users_act Confirm_reset s = handleResetPassword s"
| "users_act (Users_page p) s = (s\<lparr>u_page := p\<rparr>, None)"

text \<open>The rest of each handler after its awaited mutation: an exception, or the result.\<close>

datatype users_answer =
    Suspend_answer "js_exn option" | Reinstate_answer "js_exn option" | Reset_answer "js_exn + string"

fun users_settle :: "users_answer \<Rightarrow> users_state \<Rightarrow> users_state" where
  "users_settle (Suspend_answer None) s = s\<lparr>u_suspendPending := False, u_suspendTarget := None, u_reason := []\<rparr>"
| "users_settle (Suspend_answer (Some e)) s = s\<lparr>u_suspendPending := False, u_error := Some (getErrorMessage e)\<rparr>"
| "users_settle (Reinstate_answer None) s = s\<lparr>u_reinstatePending := False\<rparr>"
| "users_settle (Reinstate_answer (Some e)) s = s\<lparr>u_reinstatePending := False, u_error := Some (getErrorMessage e)\<rparr>"
| "users_settle (Reset_answer (Inr pw)) s = s\<lparr>u_resetPending := False, u_tempPassword := Some pw\<rparr>"
| "users_settle (Reset_answer (Inl e)) s = s\<lparr>u_resetPending := False, u_error := Some (getErrorMessage e)\<rparr>"

datatype users_world = Users_answered "admin_user_page query_result" | Users_session "user_public option" | Users_width bool

fun users_world_step :: "users_world \<Rightarrow> users_state \<Rightarrow> users_state" where
  "users_world_step (Users_answered r) s = s\<lparr>u_result := r\<rparr>"
| "users_world_step (Users_session u) s = s\<lparr>u_session := u\<rparr>"
| "users_world_step (Users_width w) s = s\<lparr>u_wide := w\<rparr>"

section \<open>The page\<close>

definition currentUserId :: "users_state \<Rightarrow> string option" where
  "currentUserId s = map_option user_id (u_session s)"

definition renderActions :: "users_state \<Rightarrow> admin_user_public \<Rightarrow> users_action node list" where
  "renderActions s u =
     (if Some (admin_user_id u) = currentUserId s then []
      else
        [(if is_active u then plain_button [] (Ask_suspend u) ''Suspend''
          else plain_button (flag (u_reinstatePending s) At_disabled) (Reinstate u) ''Reinstate''),
         plain_button [] (Ask_reset u) ''Reset password''])"

definition renderStatus :: "users_state \<Rightarrow> admin_user_public \<Rightarrow> users_action node" where
  "renderStatus s u =
     box SPAN ([Badge (if is_active u then Success else Danger) True [Text (if is_active u then ''Active'' else ''Suspended'')]] @
       only_if (Some (admin_user_id u) = currentUserId s) [words_of SPAN ''you''])"

definition user_row :: "(string \<Rightarrow> string) \<Rightarrow> users_state \<Rightarrow> admin_user_public \<Rightarrow> users_action node" where
  "user_row fd s u =
     box TROW
       [words_of TDCELL (admin_user_name u), words_of TDCELL (admin_user_email u), words_of TDCELL (fd (admin_user_created u)),
        box TDCELL [renderStatus s u], words_of TDCELL (take 8 (admin_user_id u)),
        box TDCELL [box DIV (renderActions s u)]]"

definition user_record :: "(string \<Rightarrow> string) \<Rightarrow> users_state \<Rightarrow> admin_user_public \<Rightarrow> users_action node" where
  "user_record fd s u =
     box LITEM
       [words_of PARA (admin_user_name u),
        box DLIST
          [words_of DTERM ''Email'', words_of DDESC (admin_user_email u),
           words_of DTERM ''Joined'', words_of DDESC (fd (admin_user_created u)),
           words_of DTERM ''Status'', box DDESC [renderStatus s u]],
        box DIV (renderActions s u)]"

definition users_shown :: "users_state \<Rightarrow> admin_user_public list" where
  "users_shown s = (case query_data (u_result s) of Some d \<Rightarrow> user_items d | None \<Rightarrow> [])"

definition users_table :: "(string \<Rightarrow> string) \<Rightarrow> users_state \<Rightarrow> users_action node" where
  "users_table fd s =
     (if u_wide s then
        box TABLE
          [box THEAD [box TROW (map (words_of THCELL) [''Display name'', ''Email'', ''Joined'', ''Status'', ''ID'', ''Actions''])],
           box TBODY (map (user_row fd s) (users_shown s))]
      else box ULIST (map (user_record fd s) (users_shown s)))"

definition reason_input :: "string \<Rightarrow> (string \<Rightarrow> 'a) \<Rightarrow> 'a node" where
  "reason_input v f =
     Input ((input_defaults ''reason'' ''Reason code'')\<lparr>in_required := True, in_rest := [(At_value, v)], in_handlers := [OnChange f]\<rparr>)"

definition suspend_modal :: "users_state \<Rightarrow> users_action node list" where
  "suspend_modal s =
     Modal ''suspend'' (u_suspendTarget s \<noteq> None) Close_suspend
       (''Suspend '' @ (case u_suspendTarget s of Some u \<Rightarrow> admin_user_email u | None \<Rightarrow> []) @ ''?'') Dialog
       ([words_of PARA ''They will be immediately unable to log in. This requires a reason code for the audit log (FR-042).'',
         box DIV [reason_input (u_reason s) Set_reason]] @ opt_node (u_error s) alert @
        [box DIV
          [action_button False False Close_suspend ''Cancel'',
           action_button (u_suspendPending s) (trim (u_reason s) = []) Confirm_suspend ''Suspend'']])"

definition reset_modal :: "users_state \<Rightarrow> users_action node list" where
  "reset_modal s =
     Modal ''reset'' (u_resetTarget s \<noteq> None) Close_reset
       (''Reset password for '' @ (case u_resetTarget s of Some u \<Rightarrow> admin_user_email u | None \<Rightarrow> []) @ ''?'') Dialog
       (if truthy (u_tempPassword s) then
          [box DIV
            [words_of PARA ''Relay this temporary password to the user out-of-band. It will not be shown again (FR-045).'',
             words_of PARA (the (u_tempPassword s)), box DIV [action_button False False Close_reset ''Done'']]]
        else
          [box DIV
            ([words_of PARA ''This generates a new temporary password and requires the user to change it on next login.''] @
             opt_node (u_error s) alert @
             [box DIV
               [action_button False False Close_reset ''Cancel'',
                action_button (u_resetPending s) False Confirm_reset ''Reset password'']])])"

definition users_view :: "(string \<Rightarrow> string) \<Rightarrow> users_state \<Rightarrow> users_action node" where
  "users_view fd s =
     box DIV
       ([PageHeader ''Moderation''
           (Some ''Accounts, suspensions and password resets. Each action is written to the audit log.'') [],
         AdminNav] @
        opt_node (u_error s) alert @
        QueryState (isPending (u_result s)) (query_error (u_result s)) False ''Nothing to show yet.'' None None
          (users_table fd s #
           (case query_data (u_result s) of
              Some d \<Rightarrow> Pagination (u_page s) ADMIN_PAGE_SIZE (user_total d) Users_page | None \<Rightarrow> [])) @
        suspend_modal s @ reset_modal s)"

section \<open>What the page offers\<close>

lemma renderActions_offers [simp]:
  "offers_any (renderActions s u) a \<longleftrightarrow>
     Some (admin_user_id u) \<noteq> currentUserId s \<and>
     (a = Ask_reset u \<or> is_active u \<and> a = Ask_suspend u \<or>
      \<not> is_active u \<and> \<not> u_reinstatePending s \<and> a = Reinstate u)"
  by (auto simp: renderActions_def plain_button_def)

lemma users_table_offers [simp]:
  "offers (users_table fd s) a \<longleftrightarrow> (\<exists>u \<in> set (users_shown s). offers_any (renderActions s u) a)"
  by (auto simp: users_table_def offers_any_map user_row_def user_record_def renderStatus_def simp del: renderActions_offers)

lemma reason_input_offers [simp]: "offers (reason_input v f) a \<longleftrightarrow> (\<exists>x. a = f x)"
  by (simp add: reason_input_def input_defaults_def)

lemma users_modals_offer [simp]:
  "offers_any (suspend_modal s) a \<longleftrightarrow> u_suspendTarget s \<noteq> None \<and>
     (a = Close_suspend \<or> (\<exists>v. a = Set_reason v) \<or>
      \<not> u_suspendPending s \<and> trim (u_reason s) \<noteq> [] \<and> a = Confirm_suspend)"
  "offers_any (reset_modal s) a \<longleftrightarrow> u_resetTarget s \<noteq> None \<and>
     (a = Close_reset \<or> \<not> truthy (u_tempPassword s) \<and> \<not> u_resetPending s \<and> a = Confirm_reset)"
  by (auto simp: suspend_modal_def reset_modal_def)

definition listed :: "users_state \<Rightarrow> admin_user_public \<Rightarrow> bool" where
  "listed s u \<longleftrightarrow> \<not> isPending (u_result s) \<and> query_error (u_result s) = None \<and> u \<in> set (users_shown s) \<and>
     Some (admin_user_id u) \<noteq> currentUserId s"

lemma users_offers:
  "offers (users_view fd s) a \<longleftrightarrow>
     (\<exists>u. listed s u \<and> (a = Ask_reset u \<or> is_active u \<and> a = Ask_suspend u \<or>
        \<not> is_active u \<and> \<not> u_reinstatePending s \<and> a = Reinstate u)) \<or>
     (\<exists>d. \<not> isPending (u_result s) \<and> query_error (u_result s) = None \<and> query_data (u_result s) = Some d \<and>
        offers_any (Pagination (u_page s) ADMIN_PAGE_SIZE (user_total d) Users_page) a) \<or>
     offers_any (suspend_modal s) a \<or> offers_any (reset_modal s) a"
  by (auto simp: users_view_def listed_def split: option.split)

section \<open>The dialogs\<close>

lemma targets_kept:
  "u_suspendTarget (users_settle out s) = Some t \<Longrightarrow> u_suspendTarget s = Some t"
  "u_resetTarget (users_settle out s) = u_resetTarget s"
  "u_suspendTarget (users_world_step w s) = u_suspendTarget s"
  "u_resetTarget (users_world_step w s) = u_resetTarget s"
  by (cases "(out, s)" rule: users_settle.cases; cases w; simp)+

lemma targets_opened:
  assumes "offers (users_view fd s) a"
  shows "u_suspendTarget (fst (users_act a s)) = Some u \<Longrightarrow>
      u_suspendTarget s = Some u \<or> listed s u \<and> is_active u"
    and "u_resetTarget (fst (users_act a s)) = Some u \<Longrightarrow> u_resetTarget s = Some u \<or> listed s u"
    and "snd (users_act a s) = Some (Suspend i r) \<Longrightarrow>
      \<exists>u. u_suspendTarget s = Some u \<and> i = admin_user_id u \<and> trim r \<noteq> []"
    and "snd (users_act a s) = Some (Reset_password i) \<Longrightarrow> \<exists>u. u_resetTarget s = Some u \<and> i = admin_user_id u"
    and "snd (users_act a s) = Some (Reinstate_user i) \<Longrightarrow> \<exists>u. listed s u \<and> \<not> is_active u \<and> i = admin_user_id u"
  using assms unfolding users_offers
  by (cases a; auto simp: handleSuspend_def handleReinstate_def handleResetPassword_def closeResetModal_def
      split: option.splits)+

interpretation suspension: confirm_dialog "users_view fd" users_act users_settle users_world_step u_suspendTarget
    "\<lambda>q. \<exists>i r. q = Suspend i r" "\<lambda>u q. \<exists>r. q = Suspend (admin_user_id u) r \<and> trim r \<noteq> []"
    "\<lambda>s u. listed s u \<and> is_active u"
  for fd
  by unfold_locales (auto dest: targets_opened targets_kept(1) simp: targets_kept(3))

interpretation reset: confirm_dialog "users_view fd" users_act users_settle users_world_step u_resetTarget
    "\<lambda>q. \<exists>i. q = Reset_password i" "\<lambda>u q. q = Reset_password (admin_user_id u)" listed
  for fd
  by unfold_locales (auto dest: targets_opened simp: targets_kept(2,4))

section \<open>Properties\<close>

definition someone_listed ::
    "(users_action, users_answer, users_world) page_event list \<Rightarrow> users_state \<Rightarrow> (admin_user_public \<Rightarrow> bool) \<Rightarrow> string \<Rightarrow> bool" where
  "someone_listed es s0 P i \<longleftrightarrow>
     (\<exists>s \<in> set (page_trace users_act users_settle users_world_step es s0). \<exists>u. listed s u \<and> P u \<and> i = admin_user_id u)"

text \<open>C14: An administrator's action on an account is confirmed, reasoned and never on oneself. In every run of
  the page, whatever the list and the session do meanwhile: a suspension is sent only with a reason that
  is not blank and only for an account that was on the list as active; a reset only for one that was on
  the list; a reinstatement only for one on the list as suspended; and each was on the list as another
  account than that of the administrator logged in.\<close>

theorem moderation_confirmed:
  assumes "page_run (users_view fd) users_act users_settle users_world_step es (users_initial session r wide, 0, []) =
      Some (s, n, sent)"
  shows "(\<forall>i reason. Suspend i reason \<in> set sent \<longrightarrow>
      trim reason \<noteq> [] \<and> someone_listed es (users_initial session r wide) is_active i) \<and>
    (\<forall>i. Reset_password i \<in> set sent \<longrightarrow> someone_listed es (users_initial session r wide) (\<lambda>_. True) i) \<and>
    (\<forall>i. Reinstate_user i \<in> set sent \<longrightarrow> someone_listed es (users_initial session r wide) (\<lambda>u. \<not> is_active u) i)"
proof (intro conjI allI impI)
  fix i reason assume "Suspend i reason \<in> set sent"
  from suspension.requests_confirmed [OF assms _ this]
  obtain t where "trim reason \<noteq> []" "i = admin_user_id t"
    "\<exists>s0 \<in> set (page_trace users_act users_settle users_world_step es (users_initial session r wide)). listed s0 t \<and> is_active t"
    by (auto simp: users_initial_def)
  then show "trim reason \<noteq> []" "someone_listed es (users_initial session r wide) is_active i"
    unfolding someone_listed_def by blast+
next
  fix i assume "Reset_password i \<in> set sent"
  from reset.requests_confirmed [OF assms _ this]
  show "someone_listed es (users_initial session r wide) (\<lambda>_. True) i"
    unfolding someone_listed_def by (auto simp: users_initial_def)
next
  fix i assume "Reinstate_user i \<in> set sent"
  from requests_offered [OF assms this] targets_opened(5)
  show "someone_listed es (users_initial session r wide) (\<lambda>u. \<not> is_active u) i"
    unfolding someone_listed_def by metis
qed

definition admin :: user_public where
  "admin = \<lparr>user_id = ''a1'', user_email = ''admin@b'', user_display_name = ''Admin'', user_role = Admin, user_created = []\<rparr>"

definition account :: "string \<Rightarrow> admin_user_public" where
  "account i = \<lparr>admin_user_id = i, admin_user_email = i @ ''@b'', admin_user_name = i, admin_user_created = [], is_active = True\<rparr>"

definition two_accounts :: users_state where
  "two_accounts = users_initial (Some admin)
     \<lparr>isPending = False, query_error = None, query_data = Some \<lparr>user_items = [account ''x'', account ''y''], user_total = 2,
        user_page_number = 1, user_page_size = 20\<rparr>\<rparr> True"

lemma two_accounts_listed:
  "u_result s = u_result two_accounts \<Longrightarrow> u_session s = Some admin \<Longrightarrow> i = ''x'' \<or> i = ''y'' \<Longrightarrow> listed s (account i)"
  by (auto simp: listed_def two_accounts_def users_initial_def users_shown_def account_def admin_def currentUserId_def)

lemma two_accounts_given [simp]:
  "u_session two_accounts = Some admin" "u_suspendTarget two_accounts = None" "u_resetTarget two_accounts = None"
  "u_reason two_accounts = []" "u_suspendPending two_accounts = False" "u_resetPending two_accounts = False"
  "u_tempPassword two_accounts = None"
  by (simp_all add: two_accounts_def users_initial_def)

theorem moderation_confirmed_witness:
  "\<exists>s. page_run (users_view id) users_act users_settle users_world_step
      [Click (Ask_suspend (account ''x'')), Click (Set_reason ''spam''), Click Confirm_suspend] (two_accounts, 0, []) =
      Some (s, 1, [Suspend ''x'' ''spam'']) \<and> trim ''spam'' \<noteq> []"
proof -
  have "trim ''spam'' = ''spam''" by (rule trim_id) (simp add: js_space_def)
  then have "\<exists>s. page_run (users_view id) users_act users_settle users_world_step
      [Click (Ask_suspend (account ''x'')), Click (Set_reason ''spam''), Click Confirm_suspend] (two_accounts, 0, []) =
      Some (s, 1, [Suspend ''x'' ''spam''])"
    by (simp add: users_offers two_accounts_listed handleSuspend_def) (simp add: account_def)
  then obtain s where run: "page_run (users_view id) users_act users_settle users_world_step
      [Click (Ask_suspend (account ''x'')), Click (Set_reason ''spam''), Click Confirm_suspend] (two_accounts, 0, []) =
      Some (s, 1, [Suspend ''x'' ''spam''])" by blast
  then show ?thesis using moderation_confirmed [OF run [unfolded two_accounts_def]] by auto
qed

text \<open>A temporary password can be shown as another account's. There is a run in which the administrator
  asks to reset the password of one account, closes the dialog before the answer, and opens the dialog
  for another one; when the answer arrives, the open dialog, headed with the second account, shows the
  first one's new password, and no reset of the second account has been sent.\<close>

theorem temporary_password_of_another:
  "\<exists>s. page_run (users_view id) users_act users_settle users_world_step
      [Click (Ask_reset (account ''x'')), Click Confirm_reset, Click Close_reset, Click (Ask_reset (account ''y'')),
       Answer (Reset_answer (Inr ''secret''))] (two_accounts, 0, []) = Some (s, 0, [Reset_password ''x'']) \<and>
     u_resetTarget s = Some (account ''y'') \<and> ''secret'' \<in> set (concat (map texts (reset_modal s)))"
  by (simp add: users_offers two_accounts_listed handleResetPassword_def closeResetModal_def reset_modal_def Modal_def)
    (simp add: account_def)

text \<open>A reason given for one account can suspend another. There is a run in which the administrator types a
  reason in the dialog of one account, cancels, opens the dialog of another account and confirms: that
  account is suspended with the reason that was typed for the first.\<close>

theorem reason_carried_over:
  "\<exists>s. page_run (users_view id) users_act users_settle users_world_step
      [Click (Ask_suspend (account ''x'')), Click (Set_reason ''spam''), Click Close_suspend,
       Click (Ask_suspend (account ''y'')), Click Confirm_suspend] (two_accounts, 0, []) = Some (s, 1, [Suspend ''y'' ''spam''])"
proof -
  have "trim ''spam'' = ''spam''" by (rule trim_id) (simp add: js_space_def)
  then show ?thesis
    by (simp add: users_offers two_accounts_listed handleSuspend_def) (simp add: account_def)
qed

end
