(* ===== verification/My_Listings.thy ===== *)
theory My_Listings
  imports Page_Flow Browse_Page
begin

text \<open>
  \<open>src/pages/MyListingsPage.tsx\<close>: the seller's listings in every status, narrowed by status tabs with
  counts. A filter is a status, or \<^const>\<open>None\<close> for all.
\<close>

definition FILTERS :: "(listing_status option \<times> string) list" where
  "FILTERS = [(None, ''All''), (Some Available, status_label Available), (Some Sold, status_label Sold),
     (Some Deleted, status_label Deleted)]"

record ledger_state =
  lg_filter :: "listing_status option"
  lg_photos :: "string \<Rightarrow> photo_state"

definition ledger_initial :: ledger_state where
  "ledger_initial = \<lparr>lg_filter = None, lg_photos = (\<lambda>_. initial_photo)\<rparr>"

datatype ledger_action = Set_filter "listing_status option" | Ledger_photo string photo_action

fun ledger_step :: "ledger_action \<Rightarrow> ledger_state \<Rightarrow> ledger_state" where
  "ledger_step (Set_filter f) s = s\<lparr>lg_filter := f\<rparr>"
| "ledger_step (Ledger_photo key a) s = s\<lparr>lg_photos := (lg_photos s)(key := photo_step a (lg_photos s key))\<rparr>"

definition ledger_listings :: "listing_public list query_result \<Rightarrow> listing_public list" where
  "ledger_listings r = (case query_data r of Some ls \<Rightarrow> ls | None \<Rightarrow> [])"

definition ledger_counts :: "listing_public list \<Rightarrow> listing_status option \<Rightarrow> nat" where
  "ledger_counts ls f =
     (case f of None \<Rightarrow> length ls | Some st \<Rightarrow> length (filter (\<lambda>l. listing_status l = st) ls))"

definition ledger_visible :: "listing_public list \<Rightarrow> listing_status option \<Rightarrow> listing_public list" where
  "ledger_visible ls f = (case f of None \<Rightarrow> ls | Some st \<Rightarrow> filter (\<lambda>l. listing_status l = st) ls)"

definition ledger_date :: "(string \<Rightarrow> string) \<Rightarrow> listing_public \<Rightarrow> string" where
  "ledger_date fd l =
     (if listing_status l = Sold \<and> truthy (sold_at l) then ''Sold '' @ fd (the (sold_at l))
      else ''Listed '' @ fd (created_at l))"

definition row_link :: "string \<Rightarrow> string \<Rightarrow> string \<Rightarrow> 'a node" where
  "row_link target label content = Elem ANCHOR [(At_href, target), (At_label, label)] [] [Text content]"

definition LedgerRow :: "(string \<Rightarrow> string) \<Rightarrow> (photo_action \<Rightarrow> 'a) \<Rightarrow> photo_state \<Rightarrow> listing_public \<Rightarrow> 'a node" where
  "LedgerRow fd act ph l =
     (let detailHref = ''/listings/'' @ listing_id l; isInactive = (listing_status l \<noteq> Available) in
      box LITEM
       [box DIV [PhotoFrame act ph (case listing_images l of [] \<Rightarrow> None | i # _ \<Rightarrow> Some (image_url i, []))
          (listing_title l) (listing_author l) Thumb isInactive True],
        box DIV [box H2 [link_to detailHref [Text (listing_title l)]], words_of PARA (listing_author l)],
        words_of SPAN (formatPrice (listing_price l)),
        box DIV
         [box SPAN [ConditionMeter (listing_condition l)],
          box SPAN [Badge (STATUS_TONES (listing_status l)) True [Text (status_label (listing_status l))]]],
        words_of SPAN (ledger_date fd l),
        box DIV
          ([row_link detailHref (''View '' @ listing_title l) ''View''] @
           only_if (listing_status l = Available)
             [row_link (detailHref @ ''/edit'') (''Edit '' @ listing_title l) ''Edit''])])"

definition LedgerSkeleton :: "'a node" where
  "LedgerSkeleton = box ULIST (replicate 5 (box LITEM [Skeleton, box DIV [Skeleton, Skeleton]]))"

definition list_a_copy :: "'a node" where
  "list_a_copy = link_to ''/listings/new'' [Text ''List a copy'']"

definition filter_tab :: "listing_public list \<Rightarrow> ledger_state \<Rightarrow> listing_status option \<times> string \<Rightarrow> ledger_action node" where
  "filter_tab ls s opt =
     Elem BUTTON [(At_type, ''button''), (At_pressed, bool_str (lg_filter s = fst opt))] [OnClick (Set_filter (fst opt))]
       [Text (snd opt), words_of SPAN (int_text (int (ledger_counts ls (fst opt))))]"

definition ledger_rows :: "(string \<Rightarrow> string) \<Rightarrow> listing_public list \<Rightarrow> ledger_state \<Rightarrow> ledger_action node" where
  "ledger_rows fd ls s =
     (let visible = ledger_visible ls (lg_filter s) in
      if visible = [] then
        words_of PARA (case lg_filter s of None \<Rightarrow> ''No listings.''
          | Some st \<Rightarrow> ''No '' @ lower_ascii (status_label st) @ '' listings.'')
      else box ULIST (map (\<lambda>l. LedgerRow fd (Ledger_photo (listing_id l)) (lg_photos s (listing_id l)) l) visible))"

definition my_listings_view ::
    "(string \<Rightarrow> string) \<Rightarrow> listing_public list query_result \<Rightarrow> ledger_state \<Rightarrow> ledger_action node" where
  "my_listings_view fd r s =
     (let ls = ledger_listings r in
      box DIV
       (PageHeader ''My listings'' (Some ''Every copy you've listed, and where each one stands.'') [list_a_copy] #
        QueryState (isPending r) (query_error r) (query_data r = Some []) ''Nothing to show yet.''
          (Some (EmptyState ''You haven't listed anything yet''
             (Some ''Photograph a book you've finished, describe its wear, set a price, and it will appear here.'')
             (Some list_a_copy)))
          (Some LedgerSkeleton)
          [box DIV
            [Elem DIV [(At_role, ''group''), (At_label, ''Filter by status'')] [] (map (filter_tab ls s) FILTERS),
             Elem DIV [(At_hidden, true_str)] []
               (map (words_of SPAN) [[], ''Copy'', ''Price'', ''Condition'', ''Status'', ''Date'', []]),
             ledger_rows fd ls s]]))"

section \<open>Properties\<close>

lemma links_static [simp]:
  "links (PhotoFrame act ph img t u Thumb b True) = []" "links (ConditionMeter c) = []"
  "links (Badge tone True [Text w]) = []"
  by (auto simp: PhotoFrame_def NoCoverPlaceholder_def ConditionMeter_def Badge_def only_if_def Let_def split: option.split)

lemma links_LedgerRow:
  "links (LedgerRow fd act ph l) =
     [''/listings/'' @ listing_id l, ''/listings/'' @ listing_id l] @
     only_if (listing_status l = Available) [''/listings/'' @ listing_id l @ ''/edit'']"
  by (simp add: LedgerRow_def Let_def link_to_def row_link_def only_if_def)



end
