(* ===== verification/Admin_Listings.thy ===== *)
theory Admin_Listings
  imports Admin_Users My_Listings
begin

text \<open>
  \<open>src/pages/admin/AdminListingsPage.tsx\<close>: every listing in every status, filtered and paginated, with the
  removal behind its dialog and its reason.
\<close>

record moderation_state =
  md_status :: "listing_status option"
  md_page :: int
  md_result :: "listing_page query_result"
  md_wide :: bool
  md_removeTarget :: "listing_public option"
  md_reason :: string
  md_error :: "string option"
  md_pending :: bool
  md_photos :: "string \<Rightarrow> photo_state"

definition moderation_initial :: "listing_page query_result \<Rightarrow> bool \<Rightarrow> moderation_state" where
  "moderation_initial r wide =
     \<lparr>md_status = None, md_page = 1, md_result = r, md_wide = wide, md_removeTarget = None, md_reason = [],
      md_error = None, md_pending = False, md_photos = (\<lambda>_. initial_photo)\<rparr>"

definition moderation_query :: "moderation_state \<Rightarrow> server_query" where
  "moderation_query s = useAdminListings (map_option status_value (md_status s))
     \<lparr>pp_page = Some (md_page s), pp_pageSize = Some ADMIN_PAGE_SIZE\<rparr>"

text \<open>The options of the filter; \<open>all\<close> stands for no status.\<close>

definition STATUS_FILTER_OPTIONS :: "(string \<times> string) list" where
  "STATUS_FILTER_OPTIONS =
     [(''all'', ''All''), (''available'', status_label Available), (''sold'', status_label Sold),
      (''deleted'', status_label Deleted)]"

definition status_of_option :: "string \<Rightarrow> listing_status option" where
  "status_of_option v = find (\<lambda>st. status_value st = v) [Available, Sold, Deleted]"

datatype moderation_action =
    Filter_status string | Listings_page int | Ask_remove listing_public | Set_remove_reason string
  | Close_remove | Confirm_remove | Thumb_photo string photo_action

datatype moderation_request = Remove string string

definition handleRemove :: "moderation_state \<Rightarrow> moderation_state \<times> moderation_request option" where
  "handleRemove s =
     (case md_removeTarget s of
        None \<Rightarrow> (s, None)
      | Some l \<Rightarrow> (s\<lparr>md_error := None, md_pending := True\<rparr>, Some (Remove (listing_id l) (md_reason s))))"

fun moderation_act :: "moderation_action \<Rightarrow> moderation_state \<Rightarrow> moderation_state \<times> moderation_request option" where
  "moderation_act (Filter_status v) s = (s\<lparr>md_status := status_of_option v, md_page := 1\<rparr>, None)"
| "moderation_act (Listings_page p) s = (s\<lparr>md_page := p\<rparr>, None)"
| "moderation_act (Ask_remove l) s = (s\<lparr>md_error := None, md_removeTarget := Some l\<rparr>, None)"
| "moderation_act (Set_remove_reason v) s = (s\<lparr>md_reason := v\<rparr>, None)"
| "moderation_act Close_remove s = (s\<lparr>md_removeTarget := None\<rparr>, None)"
| "moderation_act Confirm_remove s = handleRemove s"
| "moderation_act (Thumb_photo key a) s = (s\<lparr>md_photos := (md_photos s)(key := photo_step a (md_photos s key))\<rparr>, None)"

fun moderation_settle :: "js_exn option \<Rightarrow> moderation_state \<Rightarrow> moderation_state" where
  "moderation_settle None s = s\<lparr>md_pending := False, md_removeTarget := None, md_reason := []\<rparr>"
| "moderation_settle (Some e) s = s\<lparr>md_pending := False, md_error := Some (getErrorMessage e)\<rparr>"

datatype moderation_world = Listings_answered "listing_page query_result" | Listings_width bool

fun moderation_world_step :: "moderation_world \<Rightarrow> moderation_state \<Rightarrow> moderation_state" where
  "moderation_world_step (Listings_answered r) s = s\<lparr>md_result := r\<rparr>"
| "moderation_world_step (Listings_width w) s = s\<lparr>md_wide := w\<rparr>"

section \<open>The page\<close>

definition renderThumb :: "moderation_state \<Rightarrow> listing_public \<Rightarrow> moderation_action node" where
  "renderThumb s l =
     PhotoFrame (Thumb_photo (listing_id l)) (md_photos s (listing_id l))
       (case listing_images l of [] \<Rightarrow> None | i # _ \<Rightarrow> Some (image_url i, []))
       (listing_title l) (listing_author l) Thumb (listing_status l \<noteq> Available) True"

definition renderTitle :: "listing_public \<Rightarrow> bool \<Rightarrow> moderation_action node" where
  "renderTitle l inline =
     (let link = link_to (''/listings/'' @ listing_id l) [Text (listing_title l)] in
      if inline then box PARA [link, words_of SPAN (middle_dot @ listing_author l)]
      else box DIV [box PARA [link], words_of SPAN (listing_author l)])"

definition renderAction :: "listing_public \<Rightarrow> moderation_action node" where
  "renderAction l =
     (if listing_status l = Deleted then words_of SPAN ''-'' else plain_button [] (Ask_remove l) ''Remove'')"

definition status_badge :: "listing_public \<Rightarrow> moderation_action node" where
  "status_badge l = Badge (STATUS_TONES (listing_status l)) True [Text (status_label (listing_status l))]"

definition moderation_row :: "(string \<Rightarrow> string) \<Rightarrow> moderation_state \<Rightarrow> listing_public \<Rightarrow> moderation_action node" where
  "moderation_row fd s l =
     box TROW
       [box TDCELL [box DIV [renderThumb s l]], box TDCELL [renderTitle l True], words_of TDCELL (seller_display_name l),
        words_of TDCELL (formatPrice (listing_price l)), box TDCELL [ConditionMeter (listing_condition l)],
        box TDCELL [status_badge l], words_of TDCELL (fd (created_at l)), words_of TDCELL (take 8 (listing_id l)),
        box TDCELL [renderAction l]]"

definition moderation_record :: "(string \<Rightarrow> string) \<Rightarrow> moderation_state \<Rightarrow> listing_public \<Rightarrow> moderation_action node" where
  "moderation_record fd s l =
     box LITEM
       [box DIV [renderThumb s l],
        box DIV
         [renderTitle l False,
          box DLIST
            [words_of DTERM ''Seller'', words_of DDESC (seller_display_name l),
             words_of DTERM ''Price'', words_of DDESC (formatPrice (listing_price l)),
             words_of DTERM ''Status'', box DDESC [status_badge l],
             words_of DTERM ''Listed'', words_of DDESC (fd (created_at l) @ middle_dot @ take 8 (listing_id l))],
          box DIV [renderAction l]]]"

definition moderation_shown :: "moderation_state \<Rightarrow> listing_public list" where
  "moderation_shown s = (case query_data (md_result s) of Some d \<Rightarrow> page_items d | None \<Rightarrow> [])"

definition moderation_table :: "(string \<Rightarrow> string) \<Rightarrow> moderation_state \<Rightarrow> moderation_action node" where
  "moderation_table fd s =
     (if md_wide s then
        box TABLE
          [box THEAD [box TROW (map (words_of THCELL)
             [''Photo'', ''Copy'', ''Seller'', ''Price'', ''Condition'', ''Status'', ''Listed'', ''ID'', ''Action''])],
           box TBODY (map (moderation_row fd s) (moderation_shown s))]
      else box ULIST (map (moderation_record fd s) (moderation_shown s)))"

definition remove_modal :: "moderation_state \<Rightarrow> moderation_action node list" where
  "remove_modal s =
     Modal ''remove'' (md_removeTarget s \<noteq> None) Close_remove
       (''Remove \"'' @ (case md_removeTarget s of Some l \<Rightarrow> listing_title l | None \<Rightarrow> []) @ ''\"?'') Dialog
       ([words_of PARA (''It will no longer appear in public browse or search. The reason code is recorded in the audit log '' @
           ''(FR-042).''),
         box DIV [reason_input (md_reason s) Set_remove_reason]] @ opt_node (md_error s) alert @
        [box DIV
          [action_button False False Close_remove ''Cancel'',
           action_button (md_pending s) (trim (md_reason s) = []) Confirm_remove ''Remove'']])"

definition moderation_view :: "(string \<Rightarrow> string) \<Rightarrow> moderation_state \<Rightarrow> moderation_action node" where
  "moderation_view fd s =
     box DIV
       ([PageHeader ''Moderation''
           (Some (''Every listing, in every status. Each removal is written to the audit log with its reason code.'')) [],
         AdminNav,
         SegmentedFilter ''Filter by status'' STATUS_FILTER_OPTIONS
           (case md_status s of None \<Rightarrow> ''all'' | Some st \<Rightarrow> status_value st) Filter_status] @
        QueryState (isPending (md_result s)) (query_error (md_result s)) False ''Nothing to show yet.'' None None
          (moderation_table fd s #
           (case query_data (md_result s) of
              Some d \<Rightarrow> Pagination (md_page s) ADMIN_PAGE_SIZE (page_total d) Listings_page | None \<Rightarrow> [])) @
        remove_modal s)"

section \<open>What the page offers\<close>

lemma renderAction_offers [simp]: "offers (renderAction l) a \<longleftrightarrow> listing_status l \<noteq> Deleted \<and> a = Ask_remove l"
  by (simp add: renderAction_def)

lemma moderation_parts [simp]:
  "\<not> offers (renderTitle l b) a" "\<not> offers (status_badge l) a"
  by (simp_all add: renderTitle_def Let_def status_badge_def)

lemma moderation_table_offers:
  "offers (moderation_table fd s) a \<Longrightarrow>
     (\<exists>l \<in> set (moderation_shown s). listing_status l \<noteq> Deleted \<and> a = Ask_remove l) \<or> (\<exists>k x. a = Thumb_photo k x)"
  by (auto simp: moderation_table_def offers_any_map moderation_row_def moderation_record_def renderThumb_def
      dest!: PhotoFrame_offers split: if_splits)

lemma moderation_table_remove:
  "l \<in> set (moderation_shown s) \<Longrightarrow> listing_status l \<noteq> Deleted \<Longrightarrow> offers (moderation_table fd s) (Ask_remove l)"
  by (auto simp: moderation_table_def offers_any_map moderation_row_def moderation_record_def)

lemma remove_modal_offers [simp]:
  "offers_any (remove_modal s) a \<longleftrightarrow> md_removeTarget s \<noteq> None \<and>
     (a = Close_remove \<or> (\<exists>v. a = Set_remove_reason v) \<or>
      \<not> md_pending s \<and> trim (md_reason s) \<noteq> [] \<and> a = Confirm_remove)"
  by (auto simp: remove_modal_def)

definition removable :: "moderation_state \<Rightarrow> listing_public \<Rightarrow> bool" where
  "removable s l \<longleftrightarrow> l \<in> set (moderation_shown s) \<and> listing_status l \<noteq> Deleted"

lemma moderation_offers:
  "offers (moderation_view fd s) a \<Longrightarrow>
     (\<exists>v \<in> set (map fst STATUS_FILTER_OPTIONS). a = Filter_status v) \<or> (\<exists>l. removable s l \<and> a = Ask_remove l) \<or>
     (\<exists>k x. a = Thumb_photo k x) \<or> offers_any (remove_modal s) a \<or>
     (\<exists>p. a = Listings_page p \<and>
        (1 \<le> md_page s \<longrightarrow> 1 \<le> p))"
  by (auto simp: moderation_view_def removable_def dest!: moderation_table_offers split: option.splits if_splits)

lemma moderation_dialog_offers:
  "offers_any (remove_modal s) a \<Longrightarrow> offers (moderation_view fd s) a"
  "removable s l \<Longrightarrow> \<not> isPending (md_result s) \<Longrightarrow> query_error (md_result s) = None \<Longrightarrow>
   offers (moderation_view fd s) (Ask_remove l)"
  by (auto simp: moderation_view_def removable_def moderation_table_remove)

interpretation listing_removal: confirm_dialog "moderation_view fd" moderation_act moderation_settle moderation_world_step
    md_removeTarget "\<lambda>q. True" "\<lambda>l q. \<exists>r. q = Remove (listing_id l) r \<and> trim r \<noteq> []" removable
  for fd
proof unfold_locales
  fix s a q
  assume "offers (moderation_view fd s) a" "snd (moderation_act a s) = Some q"
  then show "\<exists>t. md_removeTarget s = Some t \<and> (\<exists>r. q = Remove (listing_id t) r \<and> trim r \<noteq> [])"
    by (cases a) (auto simp: handleRemove_def dest!: moderation_offers split: option.splits)
next
  fix s a t
  assume "offers (moderation_view fd s) a" "md_removeTarget (fst (moderation_act a s)) = Some t"
  then show "md_removeTarget s = Some t \<or> removable s t"
    by (cases a) (auto simp: handleRemove_def dest!: moderation_offers split: option.splits)
next
  show "md_removeTarget (moderation_settle out s) = Some t \<Longrightarrow> md_removeTarget s = Some t" for out s t
    by (cases out) auto
  show "md_removeTarget (moderation_world_step w s) = Some t \<Longrightarrow> md_removeTarget s = Some t" for w s t
    by (cases w) auto
qed

section \<open>Properties\<close>

lemma moderation_page_positive:
  assumes "page_run (moderation_view fd) moderation_act moderation_settle moderation_world_step es (s, n, sent) = Some (s', n', sent')"
    and "1 \<le> md_page s"
  shows "1 \<le> md_page s'"
proof (rule page_run_invariant [where P = "\<lambda>s _. 1 \<le> md_page s", OF assms])
  fix a and t :: moderation_state
  assume "1 \<le> md_page t" "offers (moderation_view fd t) a"
  then show "case moderation_act a t of (t', None) \<Rightarrow> 1 \<le> md_page t' | (t', Some q) \<Rightarrow> 1 \<le> md_page t'"
    by (cases a) (auto simp: handleRemove_def dest!: moderation_offers split: option.splits)
next
  show "1 \<le> md_page (moderation_settle out t)" if "1 \<le> md_page t" for out and t :: moderation_state
    using that by (cases out) auto
  show "1 \<le> md_page (moderation_world_step w t)" if "1 \<le> md_page t" for w and t :: moderation_state
    using that by (cases w) auto
qed

text \<open>C16: A listing is removed only after a dialog with a reason, and only if it was there to be removed. In
  every run of the moderation page, whatever answers its query gets meanwhile, every removal sent is
  for a listing that was on the page in a status other than deleted and has a reason that is not blank;
  the page number asked of the server is at least 1, and 1 after every choice of a status.\<close>

theorem removal_confirmed:
  assumes "page_run (moderation_view fd) moderation_act moderation_settle moderation_world_step es
      (moderation_initial r wide, 0, []) = Some (s, n, sent)"
  shows "(\<forall>q \<in> set sent. \<exists>l reason. q = Remove (listing_id l) reason \<and> trim reason \<noteq> [] \<and>
      (\<exists>s0 \<in> set (page_trace moderation_act moderation_settle moderation_world_step es (moderation_initial r wide)).
        removable s0 l)) \<and>
    1 \<le> md_page s \<and> md_page (fst (moderation_act (Filter_status v) s)) = 1"
proof (intro conjI ballI)
  fix q assume "q \<in> set sent"
  from listing_removal.requests_confirmed [OF assms _ this]
  show "\<exists>l reason. q = Remove (listing_id l) reason \<and> trim reason \<noteq> [] \<and>
      (\<exists>s0 \<in> set (page_trace moderation_act moderation_settle moderation_world_step es (moderation_initial r wide)).
        removable s0 l)"
    by (auto simp: moderation_initial_def)
next
  show "1 \<le> md_page s"
    using moderation_page_positive [OF assms] by (simp add: moderation_initial_def)
qed simp

definition moderated :: moderation_state where
  "moderated = moderation_initial \<lparr>isPending = False, query_error = None,
     query_data = Some \<lparr>page_items = [sample_listing], page_total = 1, page_number = 1, page_page_size = 20\<rparr>\<rparr> False"

theorem removal_confirmed_witness:
  "\<exists>s. page_run (moderation_view id) moderation_act moderation_settle moderation_world_step
      [Click (Ask_remove sample_listing), Click (Set_remove_reason ''spam''), Click Confirm_remove] (moderated, 0, []) =
      Some (s, 1, [Remove ''l1'' ''spam'']) \<and> 1 \<le> md_page s"
proof -
  have "trim ''spam'' = ''spam''" by (rule trim_id) (simp add: js_space_def)
  moreover have "removable moderated sample_listing"
    by (simp add: removable_def moderated_def moderation_initial_def moderation_shown_def sample_listing_def)
  moreover have "\<not> isPending (md_result moderated)" "query_error (md_result moderated) = None" "listing_id sample_listing = ''l1''"
    "md_pending moderated = False"
    by (simp_all add: moderated_def moderation_initial_def sample_listing_def)
  ultimately have "\<exists>s. page_run (moderation_view id) moderation_act moderation_settle moderation_world_step
      [Click (Ask_remove sample_listing), Click (Set_remove_reason ''spam''), Click Confirm_remove] (moderated, 0, []) =
      Some (s, 1, [Remove ''l1'' ''spam''])"
    by (simp add: moderation_dialog_offers handleRemove_def)
  then show ?thesis using removal_confirmed [where es = "[Click (Ask_remove sample_listing), Click (Set_remove_reason ''spam''), Click Confirm_remove]"
      and fd = id] unfolding moderated_def by blast
qed

end
