(* ===== verification/Page_Contracts.thy ===== *)
theory Page_Contracts
  imports Api_Schema Admin_Listings
begin

text \<open>
  Where the pages meet the API's contract: the queries that the browse page and the administrator's
  pages make, in every state they can reach, are calls the contract accepts; and the one way in which
  the browse page can leave it.
\<close>

section \<open>Page numbers are numbers\<close>

lemma finite_of_int_num:
  assumes "0 \<le> i" and "i < 2 ^ 53"
  shows "finite_num (of_int_num i)"
proof (cases "i = 0")
  case False
  have "bits i \<le> int 53" using assms(2) by (rule bits_le)
  moreover have "bits 1 = 1" by (simp add: bits.simps [of 1] bits.simps [of 0])
  ultimately have "ulp_exponent i 1 \<le> 0" by (simp add: ulp_exponent_def Let_def)
  then show ?thesis
    using False assms(1) by (auto simp: of_int_num_def round_pos_def js_zero_def Let_def)
qed (simp add: of_int_num_def js_zero_def)

section \<open>The browse page\<close>

definition known_category :: "string \<Rightarrow> bool" where
  "known_category c \<longleftrightarrow> c = [] \<or> c \<in> set CATEGORIES"

definition known_condition :: "string \<Rightarrow> bool" where
  "known_condition c \<longleftrightarrow> c = [] \<or> (\<exists>d. c = condition_value d)"

definition good_price :: "string \<Rightarrow> bool" where
  "good_price v \<longleftrightarrow> v = [] \<or> finite_num (js_Number v)"

definition settings_known :: "browse_state \<Rightarrow> bool" where
  "settings_known s \<longleftrightarrow> known_category (b_category s) \<and> known_condition (b_condition s) \<and>
     good_price (b_minPrice s) \<and> good_price (b_maxPrice s)"

text \<open>Parameters of a location that name no property of \<open>Object.prototype\<close> and no infinite price; what a
  number field lets the user type is finite.\<close>

definition good_params_of_url :: "search_params \<Rightarrow> bool" where
  "good_params_of_url ps \<longleftrightarrow> param_or_empty ps ''category'' \<notin> set object_prototype_props \<and>
     param_or_empty ps ''condition'' \<notin> set object_prototype_props \<and>
     good_price (priceFromParams ps ''min_price'') \<and> good_price (priceFromParams ps ''max_price'')"

fun good_event :: "browse_event \<Rightarrow> bool" where
  "good_event (Browse now (Set_min v)) = good_price v"
| "good_event (Browse now (Set_max v)) = good_price v"
| "good_event (Params now ps) = good_params_of_url ps"
| "good_event _ = True"

lemma category_seed_known: "param_or_empty ps ''category'' \<notin> set object_prototype_props \<Longrightarrow> known_category (categoryFromParams ps)"
  by (auto simp: categoryFromParams_def Let_def js_in_def known_category_def CATEGORIES_def)

lemma condition_seed_known: "param_or_empty ps ''condition'' \<notin> set object_prototype_props \<Longrightarrow> known_condition (conditionFromParams ps)"
  using condition_keys by (auto simp: conditionFromParams_def Let_def js_in_def known_condition_def)

lemma reseed_known: "good_params_of_url ps \<Longrightarrow> settings_known (reseed ps s)"
  by (simp add: settings_known_def reseed_def good_params_of_url_def category_seed_known condition_seed_known)

lemma preset_prices_good: "p \<in> set PRICE_PRESETS \<Longrightarrow> good_price (preset_min p) \<and> good_price (preset_max p)"
proof -
  have "finite_num (js_Number ''4.99'')" "finite_num (js_Number ''5'')" "finite_num (js_Number ''15'')" by code_simp+
  then show "p \<in> set PRICE_PRESETS \<Longrightarrow> good_price (preset_min p) \<and> good_price (preset_max p)"
    by (auto simp: PRICE_PRESETS_def good_price_def)
qed

lemma settings_known_rendered [simp]: "settings_known (rendered now s) = settings_known s"
  by (simp add: settings_known_def)

lemma known_simps [simp]: "known_category []" "known_condition []" "good_price []" "known_condition (condition_value c)"
  by (auto simp: known_category_def known_condition_def good_price_def)

lemma settings_known_action:
  assumes "settings_known s" and "offers (browse_view tid r s) a" and "good_event (Browse now a)"
  shows "settings_known (browse_step a s)"
  using assms(1,3) browse_offers [OF assms(2)]
  by (cases a) (auto simp: settings_known_def browse_setters activeFilters_def preset_prices_good known_category_def
      split: if_splits)

lemma settings_known_run:
  assumes "browse_run es s = Some s'" and "settings_known s" and "\<forall>(r, e) \<in> set es. good_event e"
  shows "settings_known s'"
proof (rule browse_run_invariant [where P = settings_known, OF assms(1,2)])
  fix r e and t :: browse_state
  assume e: "(r, e) \<in> set es" and t: "settings_known t"
    and off: "\<And>now a. e = Browse now a \<Longrightarrow> offers (browse_view [] r t) a"
  from e assms(3) have good: "good_event e" by auto
  show "settings_known (browse_event_step e t)"
  proof (cases e)
    case (Browse now a)
    then show ?thesis using settings_known_action [OF t off [OF Browse]] good by simp
  next
    case (Params now ps)
    have "settings_known ((reseed ps t)\<lparr>b_paramsKey := k\<rparr>)" for k
      using reseed_known [of ps t] good Params by (simp add: settings_known_def)
    then show ?thesis using t Params by simp
  qed (use t in \<open>auto simp: settings_known_def split: option.split\<close>)
qed

lemma enum_category: "c \<in> set CATEGORIES \<Longrightarrow> c \<in> enum_values ListingCategoryEnum_schema"
  by (simp add: CATEGORIES_def CATEGORY_LABELS_def enum_values_def ListingCategoryEnum_schema_def)

lemma enum_condition: "condition_value d \<in> enum_values ListingConditionEnum_schema"
  by (cases d) (simp_all add: enum_values_def ListingConditionEnum_schema_def)

lemma pred_option_all: "pred_option P x \<longleftrightarrow> (\<forall>y. x = Some y \<longrightarrow> P y)"
  by (cases x) simp_all

lemma settings_known_filters:
  assumes "settings_known s" and "0 \<le> b_page s" and "b_page s < 2 ^ 53"
  shows "good_filters (browse_filters_of s)"
proof -
  have "finite_num (of_int_num PAGE_SIZE)" by (rule finite_of_int_num) (simp_all add: PAGE_SIZE_def)
  then show ?thesis
    using assms finite_of_int_num [OF assms(2,3)]
    by (auto simp: good_filters_def browse_filters_of_def pred_option_all settings_known_def known_category_def
        known_condition_def good_price_def or_undefined_def enum_category enum_condition split: if_splits)
qed



section \<open>The administrator's pages\<close>

lemma users_page_positive:
  assumes "page_run (users_view fd) users_act users_settle users_world_step es (s, n, sent) = Some (s', n', sent')"
    and "1 \<le> u_page s"
  shows "1 \<le> u_page s'"
proof (rule page_run_invariant [where P = "\<lambda>s _. 1 \<le> u_page s", OF assms])
  fix a and t :: users_state
  assume "1 \<le> u_page t" "offers (users_view fd t) a"
  then show "case users_act a t of (t', None) \<Rightarrow> 1 \<le> u_page t' | (t', Some q) \<Rightarrow> 1 \<le> u_page t'"
    by (cases a) (auto simp: users_offers handleSuspend_def handleReinstate_def handleResetPassword_def
        closeResetModal_def split: option.splits)
next
  show "1 \<le> u_page (users_settle out t)" if "1 \<le> u_page t" for out and t :: users_state
    using that by (cases "(out, t)" rule: users_settle.cases) auto
  show "1 \<le> u_page (users_world_step w t)" if "1 \<le> u_page t" for w and t :: users_state
    using that by (cases w) auto
qed

lemma admin_params_good:
  assumes "1 \<le> p" and "p < 2 ^ 53"
  shows "good_params \<lparr>pp_page = Some p, pp_pageSize = Some ADMIN_PAGE_SIZE\<rparr>"
  using assms finite_of_int_num [of p] finite_of_int_num [of ADMIN_PAGE_SIZE]
  by (simp add: good_params_def ADMIN_PAGE_SIZE_def)

lemma enum_status: "status_value st \<in> enum_values ListingStatusEnum_schema"
  by (cases st) (simp_all add: enum_values_def ListingStatusEnum_schema_def)

text \<open>C21: The administrator's pages ask only what the contract allows. In every run of the page of accounts
  and in every run of the moderation page, the query of the state reached, whatever the page number and
  the status chosen, is a call that the API's contract accepts, and what it expects back is what the
  contract returns.\<close>

theorem admin_queries_conform:
  "(page_run (users_view fd) users_act users_settle users_world_step es (users_initial session r wide, 0, []) =
      Some (s, n, sent) \<longrightarrow> u_page s < 2 ^ 53 \<longrightarrow>
      conforms (q_call (users_query s)) (Some (SRef ''AdminUserPage''))) \<and>
   (page_run (moderation_view fd) moderation_act moderation_settle moderation_world_step es' (moderation_initial r' wide', 0, []) =
      Some (s', n', sent') \<longrightarrow> md_page s' < 2 ^ 53 \<longrightarrow>
      conforms (q_call (moderation_query s')) (Some (SRef ''ListingPage'')))"
proof (intro conjI impI)
  assume run: "page_run (users_view fd) users_act users_settle users_world_step es (users_initial session r wide, 0, []) =
      Some (s, n, sent)" and page: "u_page s < 2 ^ 53"
  have "1 \<le> u_page s" by (rule users_page_positive [OF run]) (simp add: users_initial_def)
  then show "conforms (q_call (users_query s)) (Some (SRef ''AdminUserPage''))"
    using page page_calls_conform(1) [where st = None] admin_params_good
    by (simp add: users_query_def useAdminUsers_def)
next
  assume run: "page_run (moderation_view fd) moderation_act moderation_settle moderation_world_step es'
      (moderation_initial r' wide', 0, []) = Some (s', n', sent')" and page: "md_page s' < 2 ^ 53"
  have "1 \<le> md_page s'" by (rule moderation_page_positive [OF run]) (simp add: moderation_initial_def)
  then show "conforms (q_call (moderation_query s')) (Some (SRef ''ListingPage''))"
    using page page_calls_conform(2) [OF admin_params_good, of "md_page s'" "map_option status_value (md_status s')"] enum_status
    by (auto simp: moderation_query_def useAdminListings_def option.pred_map option.pred_True pred_option_all)
qed

theorem admin_queries_conform_witness:
  "conforms (q_call (moderation_query (moderated\<lparr>md_status := Some Sold, md_page := 1\<rparr>))) (Some (SRef ''ListingPage'')) \<and>
   conforms (q_call (users_query two_accounts)) (Some (SRef ''AdminUserPage''))"
proof
  have "status_of_option ''sold'' = Some Sold" by (simp add: status_of_option_def)
  moreover have "offers (moderation_view id moderated) (Filter_status ''sold'')"
    by (auto simp: moderation_view_def STATUS_FILTER_OPTIONS_def)
  ultimately have "page_run (moderation_view id) moderation_act moderation_settle moderation_world_step
      [Click (Filter_status ''sold'')] (moderated, 0, []) = Some (moderated\<lparr>md_status := Some Sold, md_page := 1\<rparr>, 0, [])"
    by simp
  from admin_queries_conform [THEN conjunct2, rule_format, OF this [unfolded moderated_def]]
  show "conforms (q_call (moderation_query (moderated\<lparr>md_status := Some Sold, md_page := 1\<rparr>))) (Some (SRef ''ListingPage''))"
    by (simp add: moderated_def)
  have "page_run (users_view id) users_act users_settle users_world_step [] (two_accounts, 0, []) = Some (two_accounts, 0, [])"
    by simp
  from admin_queries_conform [THEN conjunct1, rule_format, OF this [unfolded two_accounts_def]]
  show "conforms (q_call (users_query two_accounts)) (Some (SRef ''AdminUserPage''))"
    by (simp add: two_accounts_def users_initial_def)
qed

end
