(* ===== verification/Listing_Detail.thy ===== *)
theory Listing_Detail
  imports Page_Flow Browse_Page
begin

text \<open>
  \<open>src/pages/ListingDetailPage.tsx\<close>: the page of one listing, with its photos, lightbox and the
  owner's actions, each behind its dialog. What the page is given (the id in the location, the query's
  answer, the session's user, the width) is part of the state, and changes of it are events: React
  keeps the state of the page and of its photos when another listing is shown in the same place, and
  drops that of the photos only when a rendering does not show them. A rendering that indexes beyond
  the photos throws, which is \<^const>\<open>None\<close> here.
\<close>

section \<open>State\<close>

record photos_state =
  ph_active :: nat
  ph_lightbox :: "nat option"
  ph_strip :: int
  ph_frames :: "string \<Rightarrow> photo_state"

definition initial_photos :: photos_state where
  "initial_photos = \<lparr>ph_active = 0, ph_lightbox = None, ph_strip = 0, ph_frames = (\<lambda>_. initial_photo)\<rparr>"

record detail_state =
  d_id :: string
  d_user :: "user_public option"
  d_result :: "listing_detail query_result"
  d_wide :: bool
  d_confirmingSold :: bool
  d_confirmingDelete :: bool
  d_actionError :: "string option"
  d_soldPending :: bool
  d_deletePending :: bool
  d_photos :: photos_state
  d_cards :: "string \<Rightarrow> photo_state"
  d_left :: "string option"

definition detail_initial ::
    "string \<Rightarrow> user_public option \<Rightarrow> listing_detail query_result \<Rightarrow> bool \<Rightarrow> detail_state" where
  "detail_initial lid user r wide =
     \<lparr>d_id = lid, d_user = user, d_result = r, d_wide = wide, d_confirmingSold = False, d_confirmingDelete = False,
      d_actionError = None, d_soldPending = False, d_deletePending = False, d_photos = initial_photos, d_cards = (\<lambda>_. initial_photo),
      d_left = None\<rparr>"

text \<open>What \<open>QueryState\<close> lets through.\<close>

definition shown_listing :: "detail_state \<Rightarrow> listing_detail option" where
  "shown_listing s = (if isPending (d_result s) \<or> query_error (d_result s) \<noteq> None then None else query_data (d_result s))"

definition detail_owner :: "detail_state \<Rightarrow> bool" where
  "detail_owner s \<longleftrightarrow>
     (case (d_user s, query_data (d_result s)) of (Some u, Some l) \<Rightarrow> user_id u = owner_id l | _ \<Rightarrow> False)"

definition canEdit :: "detail_state \<Rightarrow> bool" where
  "canEdit s \<longleftrightarrow> detail_owner s \<and>
     (case query_data (d_result s) of Some l \<Rightarrow> listing_status l = Available | None \<Rightarrow> False)"

section \<open>Actions\<close>

datatype photos_action =
    Select_photo nat | Open_lightbox nat | Lightbox_to nat | Close_lightbox | Frame string photo_action

datatype detail_action =
    Ask_sold | Ask_delete | Close_sold | Close_delete | Confirm_sold | Confirm_delete | Go_edit string
  | Photos_action photos_action | Other_card string photo_action

datatype detail_request = Mark_sold string | Delete_listing string

text \<open>The large frame is keyed by its photo, so that selecting another one starts it afresh.\<close>

fun photos_step :: "photos_action \<Rightarrow> photos_state \<Rightarrow> photos_state" where
  "photos_step (Select_photo i) p =
     (if i = ph_active p then p else p\<lparr>ph_active := i, ph_frames := (\<lambda>_. initial_photo)\<rparr>)"
| "photos_step (Open_lightbox i) p = p\<lparr>ph_lightbox := Some i\<rparr>"
| "photos_step (Lightbox_to i) p = p\<lparr>ph_lightbox := Some i\<rparr>"
| "photos_step Close_lightbox p = p\<lparr>ph_lightbox := None\<rparr>"
| "photos_step (Frame key a) p = p\<lparr>ph_frames := (ph_frames p)(key := photo_step a (ph_frames p key))\<rparr>"

fun detail_act :: "detail_action \<Rightarrow> detail_state \<Rightarrow> detail_state \<times> detail_request option" where
  "detail_act Ask_sold s = (s\<lparr>d_actionError := None, d_confirmingSold := True\<rparr>, None)"
| "detail_act Ask_delete s = (s\<lparr>d_actionError := None, d_confirmingDelete := True\<rparr>, None)"
| "detail_act Close_sold s = (s\<lparr>d_confirmingSold := False\<rparr>, None)"
| "detail_act Close_delete s = (s\<lparr>d_confirmingDelete := False\<rparr>, None)"
| "detail_act Confirm_sold s = (s\<lparr>d_actionError := None, d_soldPending := True\<rparr>, Some (Mark_sold (d_id s)))"
| "detail_act Confirm_delete s = (s\<lparr>d_actionError := None, d_deletePending := True\<rparr>, Some (Delete_listing (d_id s)))"
| "detail_act (Go_edit target) s = (s\<lparr>d_left := Some target\<rparr>, None)"
| "detail_act (Photos_action a) s = (s\<lparr>d_photos := photos_step a (d_photos s)\<rparr>, None)"
| "detail_act (Other_card key a) s = (s\<lparr>d_cards := (d_cards s)(key := photo_step a (d_cards s key))\<rparr>, None)"

text \<open>The rest of \<open>handleMarkSold\<close> and \<open>handleDelete\<close> after the awaited mutation.\<close>

datatype detail_answer = Sold_answer "js_exn option" | Delete_answer "js_exn option"

fun detail_settle :: "detail_answer \<Rightarrow> detail_state \<Rightarrow> detail_state" where
  "detail_settle (Sold_answer None) s = s\<lparr>d_soldPending := False, d_confirmingSold := False\<rparr>"
| "detail_settle (Sold_answer (Some e)) s = s\<lparr>d_soldPending := False, d_actionError := Some (getErrorMessage e)\<rparr>"
| "detail_settle (Delete_answer None) s =
     s\<lparr>d_deletePending := False, d_confirmingDelete := False, d_left := Some ''/my-listings''\<rparr>"
| "detail_settle (Delete_answer (Some e)) s = s\<lparr>d_deletePending := False, d_actionError := Some (getErrorMessage e)\<rparr>"

text \<open>Changes from outside: another location, whose listing may be cached; a new answer for the same one;
  another user; another width; the strip scrolled; an arrow key.\<close>

datatype arrow = ArrowLeft | ArrowRight

datatype detail_world =
    Show_listing string "listing_detail query_result" | Session_user "user_public option" | Width bool
  | Strip_scrolled int int | Arrow arrow

definition lightbox_count :: "detail_state \<Rightarrow> nat" where
  "lightbox_count s = (case shown_listing s of Some l \<Rightarrow> length (listing_images l) | None \<Rightarrow> 0)"

definition previous_photo :: "nat \<Rightarrow> nat \<Rightarrow> nat" where
  "previous_photo index count = (index + count - 1) mod count"

definition next_photo :: "nat \<Rightarrow> nat \<Rightarrow> nat" where
  "next_photo index count = (index + 1) mod count"

definition handleKey :: "arrow \<Rightarrow> nat \<Rightarrow> nat \<Rightarrow> nat" where
  "handleKey key count index =
     (if count < 2 then index
      else case key of ArrowLeft \<Rightarrow> previous_photo index count | ArrowRight \<Rightarrow> next_photo index count)"

text \<open>\<open>Math.round\<close> of a quotient of integers, half up.\<close>

definition round_quotient :: "int \<Rightarrow> int \<Rightarrow> int" where
  "round_quotient n d = (2 * n + d) div (2 * d)"

text \<open>What of the photos' state a rendering of other data keeps: all is lost where no listing is shown; the
  strip's counter where there is no strip; a frame's where its photo is not the one shown large, or not
  in the strip.\<close>

definition mounted_frames :: "bool \<Rightarrow> listing_image list \<Rightarrow> nat \<Rightarrow> string list" where
  "mounted_frames isWide images active =
     (if images = [] then []
      else if isWide then [image_id (images ! min active (length images - 1))]
      else map image_id images)"

definition kept_photos :: "detail_state \<Rightarrow> photos_state" where
  "kept_photos s =
     (case shown_listing s of
        None \<Rightarrow> initial_photos
      | Some l \<Rightarrow>
          let p = d_photos s; images = listing_images l in
          p\<lparr>ph_strip := (if images = [] then 0 else ph_strip p),
            ph_frames := (\<lambda>k. if k \<in> set (mounted_frames (d_wide s) images (ph_active p)) then ph_frames p k
                           else initial_photo)\<rparr>)"

definition remount_photos :: "detail_state \<Rightarrow> detail_state" where
  "remount_photos s = s\<lparr>d_photos := kept_photos s\<rparr>"

lemma kept_photos_simps [simp]:
  "ph_active (kept_photos s) = (if shown_listing s = None then 0 else ph_active (d_photos s))"
  "ph_lightbox (kept_photos s) = (if shown_listing s = None then None else ph_lightbox (d_photos s))"
  by (auto simp: kept_photos_def initial_photos_def Let_def split: option.split)

fun detail_world_step :: "detail_world \<Rightarrow> detail_state \<Rightarrow> detail_state" where
  "detail_world_step (Show_listing lid r) s = remount_photos (s\<lparr>d_id := lid, d_result := r\<rparr>)"
| "detail_world_step (Session_user u) s = s\<lparr>d_user := u\<rparr>"
| "detail_world_step (Width w) s =
     s\<lparr>d_wide := w, d_photos := (if w = d_wide s then d_photos s 
       else (d_photos s)\<lparr>ph_strip := 0, ph_frames := (\<lambda>_. initial_photo)\<rparr>)\<rparr>"
| "detail_world_step (Strip_scrolled left clientWidth) s =
     s\<lparr>d_photos := (if 0 < clientWidth then (d_photos s)\<lparr>ph_strip := round_quotient left clientWidth\<rparr> else d_photos s)\<rparr>"
| "detail_world_step (Arrow key) s =
     (case ph_lightbox (d_photos s) of
        Some i \<Rightarrow> s\<lparr>d_photos := (d_photos s)\<lparr>ph_lightbox := Some (handleKey key (lightbox_count s) i)\<rparr>\<rparr>
      | None \<Rightarrow> s)"

section \<open>Photos\<close>

definition photoAlt :: "'l listing_public_scheme \<Rightarrow> nat \<Rightarrow> string" where
  "photoAlt l index =
     listing_title l @ '' by '' @ listing_author l @ '', seller's photo '' @ int_text (int (index + 1)) @ '' of '' @
     int_text (int (length (listing_images l)))"

definition of_count :: "nat \<Rightarrow> nat \<Rightarrow> string" where
  "of_count index count = int_text (int (index + 1)) @ '' of '' @ int_text (int count)"

text \<open>\<open>String(index + 1).padStart(2, "0")\<close>.\<close>

definition pad2 :: "string \<Rightarrow> string" where
  "pad2 t = replicate (2 - length t) (CHR ''0'') @ t"

definition ContactStrip :: "listing_image list \<Rightarrow> nat \<Rightarrow> photos_action node" where
  "ContactStrip images active =
     Elem ULIST [(At_label, ''All photos'')] []
       (map (\<lambda>(i, img). box LITEM
          [Elem BUTTON [(At_type, ''button''), (At_label, ''Show photo '' @ of_count i (length images)),
             (At_current, bool_str (i = active))] [OnClick (Select_photo i)]
             [box SPAN [Elem IMG [(At_src, image_url img), (At_alt, [])] [] []],
              words_of SPAN (pad2 (int_text (int (i + 1))))]]) (enumerate 0 images))"

definition SwipeStrip :: "'l listing_public_scheme \<Rightarrow> photos_state \<Rightarrow> photos_action node" where
  "SwipeStrip l p =
     (let count = length (listing_images l) in
      box DIV
       [Elem DIV
          ([(At_role, ''region''),
            (At_label, if 1 < count then ''Seller's photos, scroll sideways for more'' else ''Seller's photo'')] @
           opt_attr At_tabindex (if 1 < count then Some ''0'' else None)) []
          (map (\<lambda>(i, img).
             Elem BUTTON [(At_type, ''button''), (At_label, ''Enlarge photo '' @ of_count i count)] [OnClick (Open_lightbox i)]
               [PhotoFrame (Frame (image_id img)) (ph_frames p (image_id img)) (Some (image_url img, photoAlt l i))
                  (listing_title l) (listing_author l) Grid False True]) (enumerate 0 (listing_images l))),
        box PARA
          [Elem SPAN [(At_live, ''polite'')] []
             [Text (int_text (min (ph_strip p + 1) (int count)) @ '' / '' @ int_text (int count))],
           Elem SPAN [(At_hidden, true_str)] [] [Text (if 1 < count then ''swipe for more'' else ''tap to enlarge'')]]])"

definition Lightbox_view :: "string \<Rightarrow> 'l listing_public_scheme \<Rightarrow> nat \<Rightarrow> photos_action node list option" where
  "Lightbox_view titleId l index =
     (let count = length (listing_images l) in
      if count \<le> index then None
      else Some (Modal titleId True Close_lightbox (listing_title l @ '', photo '' @ of_count index count) Lightbox
        [box DIV [Elem IMG [(At_src, image_url (listing_images l ! index)), (At_alt, photoAlt l index)] [] []],
         box DIV
          (if 1 < count then
             [plain_button [] (Lightbox_to (previous_photo index count)) ''Previous'',
              words_of SPAN (int_text (int (index + 1)) @ '' / '' @ int_text (int count)),
              plain_button [] (Lightbox_to (next_photo index count)) ''Next'']
           else [words_of SPAN ''1 / 1''])]))"

definition Photos_view :: "string \<Rightarrow> bool \<Rightarrow> 'l listing_public_scheme \<Rightarrow> photos_state \<Rightarrow> photos_action node option" where
  "Photos_view titleId isWide l p =
     (let images = listing_images l; count = length images; active = ph_active p in
      if count = 0 then
        Some (box DIV [PhotoFrame (Frame []) initial_photo None (listing_title l) (listing_author l) Stage False True])
      else
        map_option (\<lambda>lightbox.
          box DIV
           ((if isWide then
               let current = images ! min active (count - 1) in
               [Elem BUTTON [(At_type, ''button''), (At_label, ''Enlarge photo '' @ of_count active count)]
                  [OnClick (Open_lightbox active)]
                  [PhotoFrame (Frame (image_id current)) (ph_frames p (image_id current))
                     (Some (image_url current, photoAlt l active)) (listing_title l) (listing_author l) Stage False True],
                box PARA [words_of SPAN (''Photo '' @ of_count active count),
                  plain_button [] (Open_lightbox active) ''Enlarge'']] @
               only_if (1 < count) [ContactStrip images active]
             else [SwipeStrip l p]) @
            lightbox))
         (case ph_lightbox p of None \<Rightarrow> Some [] | Some i \<Rightarrow> Lightbox_view titleId l i))"

section \<open>The page\<close>

text \<open>\<open>fd\<close> and \<open>fm\<close> are \<open>formatDay\<close> and \<open>formatMonth\<close>.\<close>

definition status_banner :: "(string \<Rightarrow> string) \<Rightarrow> bool \<Rightarrow> 'l listing_public_scheme \<Rightarrow> 'a node list" where
  "status_banner fd isOwner l =
     (let sold_on = (if truthy (sold_at l) then Some (fd (the (sold_at l))) else None) in
      if isOwner then
        [words_of PARA (''Status: '' @ status_label (listing_status l) @
           (case sold_on of Some d \<Rightarrow> if listing_status l = Sold then middle_dot @ d else [] | None \<Rightarrow> []))]
      else only_if (listing_status l = Sold)
        [words_of PARA (''This copy has been sold'' @ (case sold_on of Some d \<Rightarrow> '' on '' @ d | None \<Rightarrow> []) @ ''.'')])"

definition price_block :: "'l listing_public_scheme \<Rightarrow> 'a node" where
  "price_block l =
     box DIV
       [(if listing_status l = Available then words_of PARA (formatPrice (listing_price l))
         else box PARA [Text ''Listed at '', words_of SPAN (formatPrice (listing_price l))]),
        ConditionMeter (listing_condition l)]"

definition seller_block :: "(string \<Rightarrow> string) \<Rightarrow> 'l listing_public_scheme \<Rightarrow> 'a node" where
  "seller_block fm l =
     (let since = (if truthy (seller_member_since l) then [words_of SPAN (''Member since '' @ fm (the (seller_member_since l)))] else []);
          active = (case seller_active_listings_count l of
             Some n \<Rightarrow> [words_of SPAN (int_text n @ '' active '' @ (if n = 1 then ''listing'' else ''listings''))]
           | None \<Rightarrow> [])
      in Elem SECTION [(At_labelledby, ''seller-heading'')] []
        ([Elem H2 [(At_id, ''seller-heading'')] [] [Text ''Passed on by''], words_of PARA (seller_display_name l)] @
         only_if (since \<noteq> [] \<or> active \<noteq> [])
           [box PARA (since @ only_if (since \<noteq> [] \<and> active \<noteq> [])
              [Elem SPAN [(At_hidden, true_str)] [] [Text middle_dot]] @ active)]))"

definition owner_actions :: "bool \<Rightarrow> bool \<Rightarrow> 'l listing_public_scheme \<Rightarrow> detail_action node" where
  "owner_actions isOwner mayEdit l =
     (if isOwner then
        box DIV
          (only_if mayEdit
             [action_button False False (Go_edit (''/listings/'' @ listing_id l @ ''/edit'')) ''Edit'',
              action_button False False Ask_sold ''Mark as sold''] @
           [action_button False False Ask_delete ''Delete''])
      else words_of PARA (''Punah-Pustak doesn't connect buyers and sellers yet. There's no messaging or checkout on '' @ ''the site.''))"

definition record_line :: "(string \<Rightarrow> string) \<Rightarrow> 'l listing_public_scheme \<Rightarrow> 'a node" where
  "record_line fd l =
     (let photos = length (listing_images l) in
      words_of PARA (''Listed '' @ fd (created_at l) @ middle_dot @ category_label (listing_category l) @ middle_dot @
        (if photos = 0 then ''no photo''
         else int_text (int photos) @ '' '' @ (if photos = 1 then ''photo'' else ''photos''))))"

definition other_listings :: "(string \<Rightarrow> photo_state) \<Rightarrow> listing_detail \<Rightarrow> detail_action node list" where
  "other_listings frames l =
     (case seller_other_listings l of
        Some others \<Rightarrow> only_if (others \<noteq> [])
          [Elem SECTION [(At_labelledby, ''more-heading'')] []
            [box DIV
              [Elem H2 [(At_id, ''more-heading'')] [] [Text (''More from '' @ seller_display_name l)],
               words_of SPAN (int_text (int (length others)) @ '' '' @
                 (if length others = 1 then ''other copy'' else ''other copies''))],
             box DIV (map (\<lambda>x. box DIV
               [ListingCard (Other_card (listing_id x)) (frames (listing_id x)) False False False x]) others)]]
      | None \<Rightarrow> [])"

definition confirm_modal ::
    "string \<Rightarrow> bool \<Rightarrow> 'a \<Rightarrow> string \<Rightarrow> string \<Rightarrow> string option \<Rightarrow> bool \<Rightarrow> 'a \<Rightarrow> string \<Rightarrow> 'a node list" where
  "confirm_modal titleId isOpen onClose title explanation err pending onConfirm label =
     Modal titleId isOpen onClose title Dialog
       ([words_of PARA explanation] @ opt_node err alert @
        [box DIV [action_button False False onClose ''Cancel'', action_button pending False onConfirm label]])"

definition detail_content ::
    "(string \<Rightarrow> string) \<Rightarrow> (string \<Rightarrow> string) \<Rightarrow> detail_state \<Rightarrow> listing_detail \<Rightarrow> photos_action node \<Rightarrow> detail_action node list" where
  "detail_content fd fm s l photos =
     [box PARA [link_to ''/listings'' [Text ''Browse''], Text '' / '',
        link_to (''/listings?category='' @ category_value (listing_category l)) [Text (category_label (listing_category l))]],
      box ARTICLE
       [map_node Photos_action photos,
        box DIV
         (status_banner fd (detail_owner s) l @
          [words_of H1 (listing_title l), words_of PARA (listing_author l), price_block l,
           words_of PARA (label_of CONDITION_DESCRIPTIONS (condition_value (listing_condition l))),
           Elem SECTION [(At_labelledby, ''note-heading'')] []
             [Elem H2 [(At_id, ''note-heading'')] [] [Text ''Seller's note''], words_of PARA (listing_description l)],
           seller_block fm l,
           box DIV [owner_actions (detail_owner s) (canEdit s) l],
           record_line fd l])]] @
     other_listings (d_cards s) l"

definition detail_modals :: "detail_state \<Rightarrow> detail_action node list" where
  "detail_modals s =
     confirm_modal ''sold'' (d_confirmingSold s) Close_sold ''Mark this listing as sold?''
       ''It will be removed from public browse results but remain visible on My Listings.''
       (d_actionError s) (d_soldPending s) Confirm_sold ''Mark as sold'' @
     confirm_modal ''delete'' (d_confirmingDelete s) Close_delete ''Delete this listing?''
       ''It will no longer appear in public browse or search. This cannot be undone from here.''
       (d_actionError s) (d_deletePending s) Confirm_delete ''Delete''"

definition detail_view :: "(string \<Rightarrow> string) \<Rightarrow> (string \<Rightarrow> string) \<Rightarrow> detail_state \<Rightarrow> detail_action node option" where
  "detail_view fd fm s =
     (if d_left s \<noteq> None then Some (box DIV [])
      else
        map_option (\<lambda>content. box DIV
          (QueryState (isPending (d_result s)) (query_error (d_result s)) False ''Nothing to show yet.'' None
             (Some ListingDetailSkeleton) (content @ detail_modals s)))
          (case shown_listing s of
             None \<Rightarrow> Some []
           | Some l \<Rightarrow> map_option (detail_content fd fm s l) (Photos_view ''lightbox'' (d_wide s) l (d_photos s))))"

text \<open>After a rendering that threw, React has removed the tree.\<close>

definition on_screen :: "'a node option \<Rightarrow> 'a node" where
  "on_screen v = (case v of None \<Rightarrow> box DIV [] | Some n \<Rightarrow> n)"

abbreviation detail_screen :: "(string \<Rightarrow> string) \<Rightarrow> (string \<Rightarrow> string) \<Rightarrow> detail_state \<Rightarrow> detail_action node" where
  "detail_screen fd fm s \<equiv> on_screen (detail_view fd fm s)"

section \<open>What the page offers\<close>

lemma offers_any_if: "offers_any (if b then xs else ys) a \<longleftrightarrow> (if b then offers_any xs a else offers_any ys a)"
  by simp

lemma detail_static [simp]:
  "\<not> offers_any (status_banner fd b l) a" "\<not> offers (price_block l) a" "\<not> offers (seller_block fm l) a"
  "\<not> offers (record_line fd l) a"
  by (auto simp: status_banner_def price_block_def seller_block_def record_line_def Let_def only_if_def
      split: option.splits if_splits)

lemma owner_actions_offers [simp]:
  "offers (owner_actions b e l) a \<longleftrightarrow>
     b \<and> (e \<and> (a = Go_edit (''/listings/'' @ listing_id l @ ''/edit'') \<or> a = Ask_sold) \<or> a = Ask_delete)"
  by (auto simp: owner_actions_def)

lemma confirm_modal_offers [simp]:
  "offers_any (confirm_modal tid isOpen onClose t x err pending onConfirm label) a \<longleftrightarrow>
     isOpen \<and> (a = onClose \<or> \<not> pending \<and> a = onConfirm)"
  by (auto simp: confirm_modal_def)

lemma other_listings_offers: "offers_any (other_listings fr l) a \<Longrightarrow> \<exists>k x. a = Other_card k x"
  by (auto simp: other_listings_def offers_any_map dest!: ListingCard_offers split: option.splits)

lemma detail_content_offers:
  "offers_any (detail_content fd fm s l ph) a \<Longrightarrow>
     (\<exists>x. a = Photos_action x \<and> offers ph x) \<or> (\<exists>k x. a = Other_card k x) \<or>
     detail_owner s \<and> (canEdit s \<and> (a = Go_edit (''/listings/'' @ listing_id l @ ''/edit'') \<or> a = Ask_sold) \<or> a = Ask_delete)"
  by (auto simp: detail_content_def offers_map_node dest: other_listings_offers)

lemma detail_offers:
  assumes "offers (detail_screen fd fm s) a"
  shows "d_left s = None \<and>
    ((\<exists>x. a = Photos_action x) \<or> (\<exists>k x. a = Other_card k x) \<or>
     detail_owner s \<and> (canEdit s \<and> ((\<exists>u. a = Go_edit u) \<or> a = Ask_sold) \<or> a = Ask_delete) \<or>
     d_confirmingSold s \<and> (a = Close_sold \<or> \<not> d_soldPending s \<and> a = Confirm_sold) \<or>
     d_confirmingDelete s \<and> (a = Close_delete \<or> \<not> d_deletePending s \<and> a = Confirm_delete))"
  using assms
  by (auto simp: on_screen_def detail_view_def detail_modals_def split: option.splits if_splits dest!: detail_content_offers)

section \<open>The dialogs\<close>

text \<open>Only the owner's buttons open a dialog; answers and changes from outside open none.\<close>

lemma dialogs_kept:
  "d_confirmingSold (detail_settle out s) \<Longrightarrow> d_confirmingSold s"
  "d_confirmingDelete (detail_settle out s) \<Longrightarrow> d_confirmingDelete s"
  "d_confirmingSold (detail_world_step w s) \<Longrightarrow> d_confirmingSold s"
  "d_confirmingDelete (detail_world_step w s) \<Longrightarrow> d_confirmingDelete s"
  by (cases "(out, s)" rule: detail_settle.cases; cases w; auto simp: remount_photos_def split: if_splits option.splits)+

lemma dialogs_opened:
  assumes "offers (detail_screen fd fm s) a"
  shows "d_confirmingSold (fst (detail_act a s)) \<Longrightarrow> d_confirmingSold s \<or> canEdit s"
    and "d_confirmingDelete (fst (detail_act a s)) \<Longrightarrow> d_confirmingDelete s \<or> detail_owner s"
    and "snd (detail_act a s) = Some (Mark_sold i) \<Longrightarrow> d_confirmingSold s"
    and "snd (detail_act a s) = Some (Delete_listing i) \<Longrightarrow> d_confirmingDelete s"
  using detail_offers [OF assms] by (cases a; auto)+

interpretation sold: confirm_dialog "detail_screen fd fm" detail_act detail_settle detail_world_step
    "\<lambda>s. if d_confirmingSold s then Some () else None" "\<lambda>q. \<exists>i. q = Mark_sold i" "\<lambda>t q. True" "\<lambda>s t. canEdit s"
  for fd fm
  by unfold_locales (auto dest: dialogs_opened dialogs_kept split: if_splits)

interpretation removal: confirm_dialog "detail_screen fd fm" detail_act detail_settle detail_world_step
    "\<lambda>s. if d_confirmingDelete s then Some () else None" "\<lambda>q. \<exists>i. q = Delete_listing i" "\<lambda>t q. True"
    "\<lambda>s t. detail_owner s"
  for fd fm
  by unfold_locales (auto dest: dialogs_opened dialogs_kept split: if_splits)

lemma requests_for_id:
  assumes "page_run (detail_screen fd fm) detail_act detail_settle detail_world_step es (s, n, sent) = Some (s', n', sent')"
    and "d_id s = lid" and "set sent \<subseteq> {Mark_sold lid, Delete_listing lid}"
    and "\<forall>i r. World (Show_listing i r) \<in> set es \<longrightarrow> i = lid"
  shows "set sent' \<subseteq> {Mark_sold lid, Delete_listing lid}"
proof -
  have "d_id s' = lid \<and> set sent' \<subseteq> {Mark_sold lid, Delete_listing lid}"
  proof (rule page_run_invariant [where P = "\<lambda>s q. d_id s = lid \<and> set q \<subseteq> {Mark_sold lid, Delete_listing lid}", OF assms(1)])
    fix a and t :: detail_state and q :: "detail_request list"
    assume "d_id t = lid \<and> set q \<subseteq> {Mark_sold lid, Delete_listing lid}"
    then show "case detail_act a t of (t', None) \<Rightarrow> d_id t' = lid \<and> set q \<subseteq> {Mark_sold lid, Delete_listing lid}
      | (t', Some r) \<Rightarrow> d_id t' = lid \<and> set (q @ [r]) \<subseteq> {Mark_sold lid, Delete_listing lid}"
      by (cases a) auto
  next
    fix out and t :: detail_state and q :: "detail_request list"
    assume "d_id t = lid \<and> set q \<subseteq> {Mark_sold lid, Delete_listing lid}"
    then show "d_id (detail_settle out t) = lid \<and> set q \<subseteq> {Mark_sold lid, Delete_listing lid}"
      by (cases "(out, t)" rule: detail_settle.cases) auto
  next
    fix w and t :: detail_state and q :: "detail_request list"
    assume "World w \<in> set es" and "d_id t = lid \<and> set q \<subseteq> {Mark_sold lid, Delete_listing lid}"
    then show "d_id (detail_world_step w t) = lid \<and> set q \<subseteq> {Mark_sold lid, Delete_listing lid}"
      using assms(4) by (cases w) (auto simp: remount_photos_def split: option.split)
  qed (use assms(2,3) in auto)
  then show ?thesis by blast
qed

text \<open>A listing of the seller with some photos, as the client answers it.\<close>

definition seller :: user_public where
  "seller = \<lparr>user_id = ''u1'', user_email = ''a@b'', user_display_name = ''Alice'', user_role = User, user_created = []\<rparr>"

definition photo_named :: "string \<Rightarrow> listing_image" where
  "photo_named i = \<lparr>image_id = i, image_url = ''/img/'' @ i, image_position = 0\<rparr>"

definition detail_answer_of :: "string \<Rightarrow> listing_image list \<Rightarrow> listing_detail query_result" where
  "detail_answer_of lid images = \<lparr>isPending = False, query_error = None,
     query_data = Some (listing_public.extend (sample_listing\<lparr>listing_id := lid, listing_images := images\<rparr>)
       \<lparr>seller_other_listings = None\<rparr>)\<rparr>"

lemma detail_answer_simps [simp]:
  "isPending (detail_answer_of lid images) = False" "query_error (detail_answer_of lid images) = None"
  "\<exists>l. query_data (detail_answer_of lid images) = Some l \<and> owner_id l = ''u1'' \<and> listing_status l = Available \<and>
     listing_images l = images \<and> listing_id l = lid"
  by (simp_all add: detail_answer_of_def listing_public.defs sample_listing_def)

lemma detail_screen_offers:
  assumes "shown_listing s = Some l" and "d_left s = None" and "Photos_view ''lightbox'' (d_wide s) l (d_photos s) = Some ph"
  shows "offers (detail_screen fd fm s) a \<longleftrightarrow> offers_any (detail_content fd fm s l ph) a \<or> offers_any (detail_modals s) a"
  using assms by (auto simp: on_screen_def detail_view_def shown_listing_def split: if_splits)

lemma detail_content_owner [simp]:
  "offers_any (detail_content fd fm s l ph) Ask_delete \<longleftrightarrow> detail_owner s"
  "offers_any (detail_content fd fm s l ph) (Photos_action x) \<longleftrightarrow> offers ph x"
  "\<not> offers_any (detail_content fd fm s l ph) Confirm_delete"
  using other_listings_offers [of "d_cards s" l]
  by (auto simp: detail_content_def offers_map_node dest: other_listings_offers)

lemma Photos_view_no_lightbox: "ph_lightbox p = None \<Longrightarrow> \<exists>ph. Photos_view tid w l p = Some ph"
  by (simp add: Photos_view_def Let_def)

text \<open>The page of a listing, without photos shown large, offers the owner's actions and its dialogs.\<close>

lemma detail_page_offers:
  assumes "d_result s = detail_answer_of lid images" and "d_left s = None" and "ph_lightbox (d_photos s) = None"
    and "d_user s = Some seller"
  shows "offers (detail_screen fd fm s) Ask_delete"
    and "offers (detail_screen fd fm s) Confirm_delete \<longleftrightarrow> d_confirmingDelete s \<and> \<not> d_deletePending s"
proof -
  obtain l where l: "query_data (d_result s) = Some l" "owner_id l = ''u1''"
    using detail_answer_simps(3) [of lid images] assms(1) by metis
  then have shown: "shown_listing s = Some l" "detail_owner s"
    using assms by (simp_all add: shown_listing_def detail_owner_def seller_def)
  obtain ph where "Photos_view ''lightbox'' (d_wide s) l (d_photos s) = Some ph"
    using Photos_view_no_lightbox [OF assms(3)] by blast
  note rule = detail_screen_offers [OF shown(1) assms(2) this]
  show "offers (detail_screen fd fm s) Ask_delete" using shown(2) by (simp add: rule)
  show "offers (detail_screen fd fm s) Confirm_delete \<longleftrightarrow> d_confirmingDelete s \<and> \<not> d_deletePending s"
    by (auto simp: rule detail_modals_def)
qed



text \<open>An open dialog outlives the listing it was opened for. There is a run in which the seller opens the
  dialog to delete one listing, the location changes to another of the seller's listings whose page is
  cached (the browser's Back button), and the dialog, still open, deletes that one.\<close>

theorem dialog_outlives_listing:
  "\<exists>s. page_run (detail_screen id id) detail_act detail_settle detail_world_step
      [Click Ask_delete, World (Show_listing ''l2'' (detail_answer_of ''l2'' [])), Click Confirm_delete]
      (detail_initial ''l1'' (Some seller) (detail_answer_of ''l1'' []) True, 0, []) = Some (s, 1, [Delete_listing ''l2''])"
proof -
  have "shown_listing s \<noteq> None" if "d_result s = detail_answer_of ''l2'' []" for s :: detail_state
    using that by (simp add: shown_listing_def detail_answer_of_def)
  then show ?thesis
    by (simp add: detail_page_offers [where lid = "''l1''" and images = "[]"]
        detail_page_offers [where lid = "''l2''" and images = "[]"] detail_initial_def initial_photos_def remount_photos_def)
qed

section \<open>The photos\<close>

lemma cycle_bounds: "i < n \<Longrightarrow> next_photo i n < n" "i < n \<Longrightarrow> previous_photo i n < n"
  by (simp_all add: next_photo_def previous_photo_def)

lemma cycle_inverse:
  assumes "i < n"
  shows "previous_photo (next_photo i n) n = i" and "next_photo (previous_photo i n) n = i"
proof -
  show "previous_photo (next_photo i n) n = i"
  proof (cases "Suc i = n")
    case False
    then have "next_photo i n = Suc i" using assms by (simp add: next_photo_def)
    then show ?thesis using assms by (simp add: previous_photo_def)
  qed (use assms in \<open>auto simp: next_photo_def previous_photo_def\<close>)
  show "next_photo (previous_photo i n) n = i"
  proof (cases i)
    case (Suc j)
    then have "previous_photo i n = j" using assms by (simp add: previous_photo_def)
    then show ?thesis using assms Suc by (simp add: next_photo_def)
  qed (use assms in \<open>auto simp: next_photo_def previous_photo_def\<close>)
qed

definition photos_ok :: "nat \<Rightarrow> photos_state \<Rightarrow> bool" where
  "photos_ok count p \<longleftrightarrow> count = 0 \<or> ph_active p < count \<and> (\<forall>i. ph_lightbox p = Some i \<longrightarrow> i < count)"

lemma ContactStrip_offers [simp]:
  "offers (ContactStrip images active) x \<longleftrightarrow> (\<exists>i < length images. x = Select_photo i)"
  by (auto simp: ContactStrip_def offers_any_map in_set_enumerate_eq Bex_def)

lemma SwipeStrip_offers:
  "offers (SwipeStrip l p) x \<Longrightarrow> (\<exists>i < length (listing_images l). x = Open_lightbox i) \<or> (\<exists>k a. x = Frame k a)"
  by (auto simp: SwipeStrip_def Let_def offers_any_map in_set_enumerate_eq dest!: PhotoFrame_offers)

lemma Lightbox_offers:
  "Lightbox_view tid l i = Some ns \<Longrightarrow> offers_any ns x \<Longrightarrow>
   i < length (listing_images l) \<and>
   (x = Close_lightbox \<or> x = Lightbox_to (previous_photo i (length (listing_images l))) \<or>
    x = Lightbox_to (next_photo i (length (listing_images l))))"
  by (auto simp: Lightbox_view_def Let_def split: if_splits)

lemma Photos_offers_cases:
  assumes "Photos_view tid w l p = Some ph" and "offers ph x" and "listing_images l \<noteq> []"
  shows "x = Open_lightbox (ph_active p) \<or> (\<exists>k a. x = Frame k a) \<or>
    (\<exists>i < length (listing_images l). x = Select_photo i \<or> x = Open_lightbox i) \<or>
    (\<exists>i. ph_lightbox p = Some i \<and> i < length (listing_images l) \<and>
      (x = Close_lightbox \<or> x = Lightbox_to (previous_photo i (length (listing_images l))) \<or>
       x = Lightbox_to (next_photo i (length (listing_images l)))))"
proof -
  obtain lb where lb: "(case ph_lightbox p of None \<Rightarrow> Some [] | Some i \<Rightarrow> Lightbox_view tid l i) = Some lb"
    using assms(1,3) by (auto simp: Photos_view_def Let_def)
  have "offers_any lb x \<or> x = Open_lightbox (ph_active p) \<or> offers (SwipeStrip l p) x \<or>
      (\<exists>k a. x = Frame k a) \<or> offers (ContactStrip (listing_images l) (ph_active p)) x"
    using assms lb by (auto simp: Photos_view_def Let_def split: if_splits dest!: PhotoFrame_offers)
  moreover have "\<exists>i. ph_lightbox p = Some i \<and> Lightbox_view tid l i = Some lb" if "offers_any lb x"
    using lb that by (cases "ph_lightbox p") auto
  ultimately show ?thesis
    using SwipeStrip_offers [of l p x] Lightbox_offers [of tid l _ lb x] by (metis ContactStrip_offers)
qed

lemma Photos_offers:
  assumes "Photos_view tid w l p = Some ph" and "offers ph x" and "photos_ok (length (listing_images l)) p"
  shows "photos_ok (length (listing_images l)) (photos_step x p)"
proof (cases "listing_images l = []")
  case False
  then show ?thesis
    using Photos_offers_cases [OF assms(1,2)] assms(3) by (auto simp: photos_ok_def cycle_bounds split: if_splits)
qed (simp add: photos_ok_def)

lemma Photos_view_ok: "photos_ok (length (listing_images l)) p \<Longrightarrow> Photos_view tid w l p \<noteq> None"
  by (auto simp: Photos_view_def Let_def photos_ok_def Lightbox_view_def split: option.split)

definition photos_inv :: "nat \<Rightarrow> detail_state \<Rightarrow> bool" where
  "photos_inv count s \<longleftrightarrow>
     photos_ok count (d_photos s) \<and> (\<forall>l. query_data (d_result s) = Some l \<longrightarrow> length (listing_images l) = count)"

lemma detail_offers_photos:
  assumes "offers (detail_screen fd fm s) (Photos_action x)"
  shows "\<exists>l ph. query_data (d_result s) = Some l \<and> Photos_view ''lightbox'' (d_wide s) l (d_photos s) = Some ph \<and> offers ph x"
  using assms
  by (auto simp: on_screen_def detail_view_def detail_modals_def shown_listing_def split: option.splits if_splits
      dest!: detail_content_offers)

lemma photos_inv_act:
  assumes "photos_inv count s" and "offers (detail_screen fd fm s) a"
  shows "photos_inv count (fst (detail_act a s))"
proof (cases a)
  case (Photos_action x)
  then show ?thesis
    using assms detail_offers_photos [of fd fm s x] Photos_offers by (fastforce simp: photos_inv_def)
qed (use assms(1) in \<open>auto simp: photos_inv_def\<close>)

lemma photos_inv_settle: "photos_inv count s \<Longrightarrow> photos_inv count (detail_settle out s)"
  by (cases "(out, s)" rule: detail_settle.cases) (auto simp: photos_inv_def)

lemma photos_ok_initial: "photos_ok count initial_photos"
  by (auto simp: photos_ok_def initial_photos_def)

lemma handleKey_bound: "i < n \<Longrightarrow> handleKey key n i < n"
  by (auto simp: handleKey_def cycle_bounds split: arrow.split)

lemma handleKey_zero [simp]: "handleKey key 0 i = i"
  by (simp add: handleKey_def)

lemma photos_inv_world:
  assumes "photos_inv count s"
    and "\<And>i r l. w = Show_listing i r \<Longrightarrow> query_data r = Some l \<Longrightarrow> length (listing_images l) = count"
  shows "photos_inv count (detail_world_step w s)"
  using assms
  by (cases w) (auto simp: photos_inv_def photos_ok_def photos_ok_initial [unfolded photos_ok_def] remount_photos_def
      lightbox_count_def shown_listing_def handleKey_bound split: option.splits if_splits)


definition two_photos :: "listing_image list" where "two_photos = [photo_named ''p1'', photo_named ''p2'']"

lemma detail_photo_offers:
  assumes "d_result s = detail_answer_of lid images" and "d_left s = None" and "ph_lightbox (d_photos s) = None"
    and "d_wide s" and "images \<noteq> []"
  shows "1 < length images \<Longrightarrow> i < length images \<Longrightarrow> offers (detail_screen fd fm s) (Photos_action (Select_photo i))"
    and "offers (detail_screen fd fm s) (Photos_action (Open_lightbox (ph_active (d_photos s))))"
proof -
  obtain l where l: "query_data (d_result s) = Some l" "listing_images l = images"
    using detail_answer_simps(3) [of lid images] assms(1) by metis
  then have shown: "shown_listing s = Some l" using assms(1) by (simp add: shown_listing_def)
  obtain ph where ph: "Photos_view ''lightbox'' (d_wide s) l (d_photos s) = Some ph"
    using Photos_view_no_lightbox [OF assms(3)] by blast
  note rule = detail_screen_offers [OF shown assms(2) ph]
  show "offers (detail_screen fd fm s) (Photos_action (Open_lightbox (ph_active (d_photos s))))"
    using ph assms l(2) by (auto simp: rule Photos_view_def Let_def)
  show "1 < length images \<Longrightarrow> i < length images \<Longrightarrow> offers (detail_screen fd fm s) (Photos_action (Select_photo i))"
    using ph assms l(2) by (auto simp: rule Photos_view_def Let_def)
qed


text \<open>The choice of a photo outlives the listing, and then breaks the page. There is a run in which the
  second photo of a listing is selected, the location changes to a listing with one photo whose page is
  cached, and the button to enlarge the photo is clicked: the next rendering reads the second photo of
  the new listing, which does not exist, and throws.\<close>

theorem stale_photo_throws:
  "\<exists>s. page_run (detail_screen id id) detail_act detail_settle detail_world_step
      [Click (Photos_action (Select_photo 1)), World (Show_listing ''l2'' (detail_answer_of ''l2'' [photo_named ''q1''])),
       Click (Photos_action (Open_lightbox 1))]
      (detail_initial ''l1'' None (detail_answer_of ''l1'' two_photos) True, 0, []) = Some (s, 0, []) \<and>
     detail_view id id s = None"
proof -
  let ?s0 = "detail_initial ''l1'' None (detail_answer_of ''l1'' two_photos) True"
  let ?s1 = "fst (detail_act (Photos_action (Select_photo 1)) ?s0)"
  let ?s2 = "detail_world_step (Show_listing ''l2'' (detail_answer_of ''l2'' [photo_named ''q1''])) ?s1"
  let ?s3 = "fst (detail_act (Photos_action (Open_lightbox 1)) ?s2)"
  obtain l where l: "query_data (detail_answer_of ''l2'' [photo_named ''q1'']) = Some l" "listing_images l = [photo_named ''q1'']"
    using detail_answer_simps(3) [of "''l2''" "[photo_named ''q1'']"] by metis
  have s2: "d_result ?s2 = detail_answer_of ''l2'' [photo_named ''q1'']" "d_left ?s2 = None"
    "ph_lightbox (d_photos ?s2) = None" "d_wide ?s2" "ph_active (d_photos ?s2) = 1"
    using l by (simp_all add: detail_initial_def initial_photos_def remount_photos_def shown_listing_def)
  have o1: "offers (detail_screen id id ?s0) (Photos_action (Select_photo 1))"
    by (rule detail_photo_offers(1) [where lid = "''l1''" and images = two_photos])
      (simp_all add: detail_initial_def initial_photos_def two_photos_def)
  have o2: "offers (detail_screen id id ?s2) (Photos_action (Open_lightbox 1))"
    using detail_photo_offers(2) [OF s2(1-4), of id id] s2(5) by simp
  have "detail_view id id ?s3 = None"
    using l s2 by (simp add: detail_view_def shown_listing_def Photos_view_def Lightbox_view_def del: detail_world_step.simps)
  then show ?thesis using o1 o2 by (simp del: detail_world_step.simps)
qed

end
