(* ===== verification/Page_Requests.thy ===== *)
theory Page_Requests
  imports Page_Contracts Listing_Detail
begin

text \<open>
  The requests of the pages that change something, followed to their hooks. A page disables a button
  while the mutation behind it is pending; the contract \<open>exclusive_requests\<close> states what this is worth, and
  the listing's page, the page of accounts and the moderation page interpret it on their own definitions.
  Then each request is mapped to its mutation hook: what it calls, and which queries it makes the client
  ask again.
\<close>

section \<open>One request of a kind at a time\<close>

text \<open>A run in which answers come only to requests that are outstanding, with the kinds of these.\<close>

fun request_run ::
    "('s \<Rightarrow> 'a node) \<Rightarrow> ('a \<Rightarrow> 's \<Rightarrow> 's \<times> 'r option) \<Rightarrow> ('out \<Rightarrow> 's \<Rightarrow> 's) \<Rightarrow> ('w \<Rightarrow> 's \<Rightarrow> 's) \<Rightarrow> ('r \<Rightarrow> 'k) \<Rightarrow> ('out \<Rightarrow> 'k) \<Rightarrow>
     ('a, 'out, 'w) page_event list \<Rightarrow> 's \<times> 'k list \<Rightarrow> ('s \<times> 'k list) option" where
  "request_run view act settle world kind answers [] r = Some r"
| "request_run view act settle world kind answers (Click a # es) (s, ks) =
     (if offers (view s) a
      then request_run view act settle world kind answers es
        (case act a s of (s', None) \<Rightarrow> (s', ks) | (s', Some q) \<Rightarrow> (s', kind q # ks))
      else None)"
| "request_run view act settle world kind answers (Answer out # es) (s, ks) =
     (if answers out \<in> set ks
      then request_run view act settle world kind answers es (settle out s, remove1 (answers out) ks)
      else None)"
| "request_run view act settle world kind answers (World w # es) (s, ks) =
     request_run view act settle world kind answers es (world w s, ks)"

text \<open>No two of the outstanding requests are of one kind, and nothing that the page offers sends another.\<close>

definition no_double :: "('s \<Rightarrow> 'a node) \<Rightarrow> ('a \<Rightarrow> 's \<Rightarrow> 's \<times> 'r option) \<Rightarrow> ('r \<Rightarrow> 'k) \<Rightarrow> 's \<times> 'k list \<Rightarrow> bool" where
  "no_double view act kind r \<longleftrightarrow>
     (case r of (s, ks) \<Rightarrow> distinct ks \<and> (\<forall>a q. offers (view s) a \<and> snd (act a s) = Some q \<longrightarrow> kind q \<notin> set ks))"

locale exclusive_requests =
  fixes view :: "'s \<Rightarrow> 'a node"
    and act :: "'a \<Rightarrow> 's \<Rightarrow> 's \<times> 'r option"
    and settle :: "'out \<Rightarrow> 's \<Rightarrow> 's"
    and world :: "'w \<Rightarrow> 's \<Rightarrow> 's"
    and kind :: "'r \<Rightarrow> 'k"
    and answers :: "'out \<Rightarrow> 'k"
    and pending :: "'k \<Rightarrow> 's \<Rightarrow> bool"
  assumes sends: "offers (view s) a \<Longrightarrow> snd (act a s) = Some q \<Longrightarrow>
      \<not> pending (kind q) s \<and> (pending k (fst (act a s)) \<longleftrightarrow> k = kind q \<or> pending k s)"
    and quiet: "offers (view s) a \<Longrightarrow> snd (act a s) = None \<Longrightarrow> pending k (fst (act a s)) = pending k s"
    and answered: "pending k (settle out s) \<longleftrightarrow> k \<noteq> answers out \<and> pending k s"
    and unaffected: "pending k (world w s) = pending k s"
begin

definition outstanding :: "'s \<times> 'k list \<Rightarrow> bool" where
  "outstanding r \<longleftrightarrow> (case r of (s, ks) \<Rightarrow> distinct ks \<and> (\<forall>k. pending k s \<longleftrightarrow> k \<in> set ks))"

lemma outstanding_run:
  assumes "request_run view act settle world kind answers es r = Some r'" and "outstanding r"
  shows "outstanding r'"
  using assms
proof (induction es arbitrary: r)
  case (Cons e es)
  obtain s ks where r: "r = (s, ks)" by fastforce
  show ?case
  proof (cases e)
    case (Click a)
    have off: "offers (view s) a" using Cons.prems(1) Click r by (auto split: if_splits)
    obtain s1 q where act: "act a s = (s1, q)" by fastforce
    show ?thesis
    proof (cases q)
      case None
      have "outstanding (s1, ks)" using quiet [OF off] act None Cons.prems(2) r by (simp add: outstanding_def)
      then show ?thesis using Cons.IH Cons.prems(1) Click r off act None by simp
    next
      case (Some q)
      have "outstanding (s1, kind q # ks)" using sends [OF off, of q] act Some Cons.prems(2) r by (auto simp: outstanding_def)
      then show ?thesis using Cons.IH Cons.prems(1) Click r off act Some by simp
    qed
  next
    case (Answer out)
    have "outstanding (settle out s, remove1 (answers out) ks)"
      using Cons.prems(2) r answered by (auto simp: outstanding_def)
    then show ?thesis using Cons.IH Cons.prems(1) Answer r by (auto split: if_splits)
  next
    case (World w)
    have "outstanding (world w s, ks)" using Cons.prems(2) r unaffected by (simp add: outstanding_def)
    then show ?thesis using Cons.IH Cons.prems(1) World r by simp
  qed
qed simp

lemma never_doubled:
  assumes "request_run view act settle world kind answers es (s, []) = Some r" and "\<And>k. \<not> pending k s"
  shows "no_double view act kind r"
proof -
  have "outstanding (s, [])" using assms(2) by (simp add: outstanding_def)
  from outstanding_run [OF assms(1) this] show ?thesis
    using sends unfolding outstanding_def no_double_def by (fastforce split: prod.splits)
qed

end

subsection \<open>The pages\<close>

datatype detail_kind = Selling | Deleting

fun detail_kind_of :: "detail_request \<Rightarrow> detail_kind" where
  "detail_kind_of (Mark_sold i) = Selling"
| "detail_kind_of (Delete_listing i) = Deleting"

fun detail_answers :: "detail_answer \<Rightarrow> detail_kind" where
  "detail_answers (Sold_answer e) = Selling"
| "detail_answers (Delete_answer e) = Deleting"

fun detail_pending :: "detail_kind \<Rightarrow> detail_state \<Rightarrow> bool" where
  "detail_pending Selling s = d_soldPending s"
| "detail_pending Deleting s = d_deletePending s"

interpretation listing_requests: exclusive_requests "detail_screen fd fm" detail_act detail_settle detail_world_step
    detail_kind_of detail_answers detail_pending
  for fd fm
proof unfold_locales
  fix s a q k
  assume "offers (detail_screen fd fm s) a" "snd (detail_act a s) = Some q"
  then show "\<not> detail_pending (detail_kind_of q) s \<and>
      (detail_pending k (fst (detail_act a s)) \<longleftrightarrow> k = detail_kind_of q \<or> detail_pending k s)"
    by (cases a; cases k) (auto dest: detail_offers)
next
  show "snd (detail_act a s) = None \<Longrightarrow> detail_pending k (fst (detail_act a s)) = detail_pending k s" for s a k
    by (cases a; cases k) auto
  show "detail_pending k (detail_settle out s) \<longleftrightarrow> k \<noteq> detail_answers out \<and> detail_pending k s" for k out s
    by (cases "(out, s)" rule: detail_settle.cases; cases k) auto
  show "detail_pending k (detail_world_step w s) = detail_pending k s" for k w s
    by (cases w; cases k) (auto simp: remount_photos_def split: option.split)
qed

datatype users_kind = Suspending | Reinstating | Resetting

fun users_kind_of :: "users_request \<Rightarrow> users_kind" where
  "users_kind_of (Suspend i reason) = Suspending"
| "users_kind_of (Reinstate_user i) = Reinstating"
| "users_kind_of (Reset_password i) = Resetting"

fun users_answers :: "users_answer \<Rightarrow> users_kind" where
  "users_answers (Suspend_answer e) = Suspending"
| "users_answers (Reinstate_answer e) = Reinstating"
| "users_answers (Reset_answer r) = Resetting"

fun users_pending :: "users_kind \<Rightarrow> users_state \<Rightarrow> bool" where
  "users_pending Suspending s = u_suspendPending s"
| "users_pending Reinstating s = u_reinstatePending s"
| "users_pending Resetting s = u_resetPending s"

interpretation account_requests: exclusive_requests "users_view fd" users_act users_settle users_world_step
    users_kind_of users_answers users_pending
  for fd
proof unfold_locales
  fix s a q k
  assume "offers (users_view fd s) a" "snd (users_act a s) = Some q"
  then show "\<not> users_pending (users_kind_of q) s \<and>
      (users_pending k (fst (users_act a s)) \<longleftrightarrow> k = users_kind_of q \<or> users_pending k s)"
    by (cases a; cases k)
      (auto simp: users_offers handleSuspend_def handleReinstate_def handleResetPassword_def split: option.splits)
next
  show "snd (users_act a s) = None \<Longrightarrow> users_pending k (fst (users_act a s)) = users_pending k s" for s a k
    by (cases a; cases k)
      (auto simp: handleSuspend_def handleReinstate_def handleResetPassword_def closeResetModal_def split: option.splits)
  show "users_pending k (users_settle out s) \<longleftrightarrow> k \<noteq> users_answers out \<and> users_pending k s" for k out s
    by (cases "(out, s)" rule: users_settle.cases; cases k) auto
  show "users_pending k (users_world_step w s) = users_pending k s" for k w s
    by (cases w; cases k) auto
qed

interpretation removal_requests: exclusive_requests "moderation_view fd" moderation_act moderation_settle
    moderation_world_step "\<lambda>q. ()" "\<lambda>out. ()" "\<lambda>k. md_pending"
  for fd
proof unfold_locales
  fix s a q k
  assume "offers (moderation_view fd s) a" "snd (moderation_act a s) = Some q"
  then show "\<not> md_pending s \<and> (md_pending (fst (moderation_act a s)) \<longleftrightarrow> k = () \<or> md_pending s)"
    by (cases a) (auto simp: handleRemove_def dest!: moderation_offers split: option.splits)
next
  show "snd (moderation_act a s) = None \<Longrightarrow> md_pending (fst (moderation_act a s)) = md_pending s" for s a
    by (cases a) (auto simp: handleRemove_def split: option.splits)
  show "md_pending (moderation_settle out s) \<longleftrightarrow> k \<noteq> () \<and> md_pending s" for k out s
    by (cases out) auto
  show "md_pending (moderation_world_step w s) = md_pending s" for w s
    by (cases w) auto
qed

lemma nothing_pending [simp]:
  "\<not> detail_pending k (detail_initial lid user r wide)" "\<not> users_pending k' (users_initial session r' wide)"
  "\<not> md_pending (moderation_initial r'' wide)"
  by (cases k; cases k'; simp add: detail_initial_def users_initial_def moderation_initial_def)+

text \<open>C17: No button of a page sends a request twice. In every run of the listing's page, of the page of
  accounts and of the moderation page, with answers in any order and whatever changes meanwhile, the
  outstanding requests are of different kinds (a sale and a deletion; a suspension, a reinstatement and
  a reset; a removal), and no enabled element of the page sends another one of an outstanding kind.\<close>

theorem no_double_submission:
  "(\<forall>x. request_run (detail_screen fd fm) detail_act detail_settle detail_world_step detail_kind_of detail_answers ds
      (detail_initial lid user r wide, []) = Some x \<longrightarrow> no_double (detail_screen fd fm) detail_act detail_kind_of x) \<and>
   (\<forall>y. request_run (users_view fd) users_act users_settle users_world_step users_kind_of users_answers us
      (users_initial session r' wide, []) = Some y \<longrightarrow> no_double (users_view fd) users_act users_kind_of y) \<and>
   (\<forall>z. request_run (moderation_view fd) moderation_act moderation_settle moderation_world_step (\<lambda>_. ()) (\<lambda>_. ()) ms
      (moderation_initial r'' wide, []) = Some z \<longrightarrow> no_double (moderation_view fd) moderation_act (\<lambda>_. ()) z)"
  by (intro conjI allI impI)
    (erule listing_requests.never_doubled account_requests.never_doubled removal_requests.never_doubled, simp)+

theorem no_double_submission_witness:
  "\<exists>s. request_run (detail_screen id id) detail_act detail_settle detail_world_step detail_kind_of detail_answers
      [Click Ask_delete, Click Confirm_delete]
      (detail_initial ''l1'' (Some seller) (detail_answer_of ''l1'' []) True, []) = Some (s, [Deleting]) \<and>
     \<not> offers (detail_screen id id s) Confirm_delete"
proof -
  obtain s where run: "request_run (detail_screen id id) detail_act detail_settle detail_world_step detail_kind_of detail_answers
      [Click Ask_delete, Click Confirm_delete]
      (detail_initial ''l1'' (Some seller) (detail_answer_of ''l1'' []) True, []) = Some (s, [Deleting])"
    by (simp add: detail_page_offers [where lid = "''l1''" and images = "[]"] detail_initial_def initial_photos_def)
  have "no_double (detail_screen id id) detail_act detail_kind_of (s, [Deleting])"
    by (rule no_double_submission [THEN conjunct1, rule_format, OF run])
  then show ?thesis using run by (fastforce simp: no_double_def)
qed

section \<open>Requests and their hooks\<close>

fun detail_mutation :: "detail_request \<Rightarrow> server_mutation" where
  "detail_mutation (Mark_sold lid) = useMarkListingSold lid"
| "detail_mutation (Delete_listing lid) = useDeleteListing lid"

fun users_mutation :: "users_request \<Rightarrow> server_mutation" where
  "users_mutation (Suspend uid reason) = useSuspendUser uid reason"
| "users_mutation (Reinstate_user uid) = useReinstateUser uid"
| "users_mutation (Reset_password uid) = useResetUserPassword uid"

fun moderation_mutation :: "moderation_request \<Rightarrow> server_mutation" where
  "moderation_mutation (Remove lid reason) = useRemoveListing lid reason"

text \<open>What each hook tells its page to expect.\<close>

fun detail_result :: "detail_request \<Rightarrow> schema option" where
  "detail_result (Mark_sold lid) = Some (SRef ''ListingPublic'')"
| "detail_result (Delete_listing lid) = None"

fun users_result :: "users_request \<Rightarrow> schema option" where
  "users_result (Reset_password uid) = Some (SRef ''AdminPasswordResetResponse'')"
| "users_result _ = Some (SRef ''AdminUserPublic'')"

fun account_of :: "users_request \<Rightarrow> string" where
  "account_of (Suspend uid reason) = uid" | "account_of (Reinstate_user uid) = uid" | "account_of (Reset_password uid) = uid"

lemma users_sent_listed:
  assumes "page_run (users_view fd) users_act users_settle users_world_step es (users_initial session r wide, 0, []) =
      Some (s, n, sent)" and "q \<in> set sent"
  shows "\<exists>s0 \<in> set (page_trace users_act users_settle users_world_step es (users_initial session r wide)).
    \<exists>u. listed s0 u \<and> account_of q = admin_user_id u"
proof (cases q)
  case (Suspend i reason)
  from suspension.requests_confirmed [OF assms(1) _ assms(2)] Suspend show ?thesis by (auto simp: users_initial_def)
next
  case (Reinstate_user i)
  from requests_offered [OF assms] Reinstate_user targets_opened(5) show ?thesis by (metis account_of.simps(2))
next
  case (Reset_password i)
  from reset.requests_confirmed [OF assms(1) _ assms(2)] Reset_password show ?thesis by (auto simp: users_initial_def)
qed

lemma users_mutation_conforms:
  "is_segment (account_of q) \<Longrightarrow> conforms (m_call (users_mutation q)) (users_result q)"
  by (cases q) (simp_all add: mutation_hook_defs admin_calls_conform)

lemma detail_sent_segments:
  assumes "page_run (detail_screen fd fm) detail_act detail_settle detail_world_step es (detail_initial lid user r wide, 0, []) =
      Some (s, n, sent)"
    and "is_segment lid" and "\<forall>i r. World (Show_listing i r) \<in> set es \<longrightarrow> is_segment i" and "q \<in> set sent"
  shows "conforms (m_call (detail_mutation q)) (detail_result q)"
proof -
  let ?ok = "\<lambda>s sent. is_segment (d_id s) \<and> (\<forall>q \<in> set sent. conforms (m_call (detail_mutation q)) (detail_result q))"
  have "?ok s sent"
  proof (rule page_run_invariant [where P = ?ok, OF assms(1)])
    fix a and t :: detail_state and qs :: "detail_request list"
    assume "?ok t qs"
    then show "case detail_act a t of (t', None) \<Rightarrow> ?ok t' qs | (t', Some q) \<Rightarrow> ?ok t' (qs @ [q])"
      by (cases a) (auto simp: mutation_hook_defs listing_calls_conform)
  next
    show "?ok (detail_settle out t) qs" if "?ok t qs" for out and t :: detail_state and qs :: "detail_request list"
      using that by (cases "(out, t)" rule: detail_settle.cases) auto
    show "?ok (detail_world_step w t) qs" if "World w \<in> set es" "?ok t qs" for w and t :: detail_state and qs :: "detail_request list"
      using that assms(3) by (cases w) (auto simp: remount_photos_def split: option.split)
  qed (use assms(2) in \<open>simp_all add: detail_initial_def\<close>)
  then show ?thesis using assms(4) by blast
qed

lemma detail_sent_for_shown:
  assumes "page_run (detail_screen fd fm) detail_act detail_settle detail_world_step es (detail_initial lid user r wide, 0, []) =
      Some (s, n, sent)" and "q \<in> set sent"
  shows "\<exists>s0 \<in> set (page_trace detail_act detail_settle detail_world_step es (detail_initial lid user r wide)).
    q = Mark_sold (d_id s0) \<or> q = Delete_listing (d_id s0)"
proof -
  obtain s0 a where "s0 \<in> set (page_trace detail_act detail_settle detail_world_step es (detail_initial lid user r wide))"
    "snd (detail_act a s0) = Some q"
    using requests_offered [OF assms] by blast
  moreover from this(2) have "q = Mark_sold (d_id s0) \<or> q = Delete_listing (d_id s0)" by (cases a) auto
  ultimately show ?thesis by blast
qed

text \<open>C19: What the pages send, the API accepts. In every run of the three pages, if the ids in the locations
  and those the server listed are single path segments, every request sent is through its mutation hook
  a call that the API's contract has, with a body it accepts, and the hook expects the answer that the
  contract gives.\<close>

theorem requests_conform:
  assumes "is_segment lid" and "\<forall>i r. World (Show_listing i r) \<in> set ds \<longrightarrow> is_segment i"
    and "page_run (detail_screen fd fm) detail_act detail_settle detail_world_step ds (detail_initial lid user r wide, 0, []) =
      Some (s, n, sent)"
    and "\<forall>s0 \<in> set (page_trace users_act users_settle users_world_step us (users_initial session r' wide)).
      \<forall>u. listed s0 u \<longrightarrow> is_segment (admin_user_id u)"
    and "page_run (users_view fd) users_act users_settle users_world_step us (users_initial session r' wide, 0, []) =
      Some (s', n', sent')"
    and "\<forall>s0 \<in> set (page_trace moderation_act moderation_settle moderation_world_step ms (moderation_initial r'' wide)).
      \<forall>l. removable s0 l \<longrightarrow> is_segment (listing_id l)"
    and "page_run (moderation_view fd) moderation_act moderation_settle moderation_world_step ms
      (moderation_initial r'' wide, 0, []) = Some (s'', n'', sent'')"
  shows "(\<forall>q \<in> set sent. conforms (m_call (detail_mutation q)) (detail_result q)) \<and>
    (\<forall>q \<in> set sent'. conforms (m_call (users_mutation q)) (users_result q)) \<and>
    (\<forall>q \<in> set sent''. conforms (m_call (moderation_mutation q)) None)"
proof (intro conjI ballI)
  show "conforms (m_call (detail_mutation q)) (detail_result q)" if "q \<in> set sent" for q
    by (rule detail_sent_segments [OF assms(3,1,2) that])
  show "conforms (m_call (users_mutation q)) (users_result q)" if "q \<in> set sent'" for q
    using users_sent_listed [OF assms(5) that] assms(4) by (fastforce intro: users_mutation_conforms)
  show "conforms (m_call (moderation_mutation q)) None" if sent: "q \<in> set sent''" for q
  proof -
    obtain l reason s0 where "q = Remove (listing_id l) reason" "removable s0 l"
      "s0 \<in> set (page_trace moderation_act moderation_settle moderation_world_step ms (moderation_initial r'' wide))"
      using listing_removal.requests_confirmed [OF assms(7) _ sent] by (auto simp: moderation_initial_def)
    then show ?thesis using assms(6) by (simp add: mutation_hook_defs admin_calls_conform)
  qed
qed

text \<open>Runs of the pages that send something.\<close>

lemma deletion_run:
  "\<exists>s. page_run (detail_screen id id) detail_act detail_settle detail_world_step [Click Ask_delete, Click Confirm_delete]
      (detail_initial ''l1'' (Some seller) (detail_answer_of ''l1'' []) True, 0, []) = Some (s, 1, [Delete_listing ''l1''])"
  by (simp add: detail_page_offers [where lid = "''l1''" and images = "[]"] detail_initial_def initial_photos_def)

lemma reset_run:
  "\<exists>s. page_run (users_view id) users_act users_settle users_world_step [Click (Ask_reset (account ''x'')), Click Confirm_reset]
      (two_accounts, 0, []) = Some (s, 1, [Reset_password ''x''])"
  by (simp add: users_offers two_accounts_listed handleResetPassword_def) (simp add: account_def)

lemma reset_listed:
  "\<forall>s \<in> set (page_trace users_act users_settle users_world_step [Click (Ask_reset (account ''x'')), Click Confirm_reset] two_accounts).
     \<forall>u. listed s u \<longrightarrow> is_segment (admin_user_id u)"
  by (auto simp: listed_def users_shown_def two_accounts_def users_initial_def handleResetPassword_def account_def is_segment_def)

theorem requests_conform_witness:
  "\<exists>s. page_run (users_view id) users_act users_settle users_world_step [Click (Ask_reset (account ''x'')), Click Confirm_reset]
      (two_accounts, 0, []) = Some (s, 1, [Reset_password ''x'']) \<and>
     conforms (m_call (users_mutation (Reset_password ''x''))) (Some (SRef ''AdminPasswordResetResponse'')) \<and>
     conforms (m_call (detail_mutation (Delete_listing ''l1''))) None"
proof -
  have segment: "is_segment ''l1''" by (simp add: is_segment_def)
  have location: "\<forall>i r. World (Show_listing i r) \<in> set [Click Ask_delete, Click Confirm_delete] \<longrightarrow> is_segment i" by simp
  have unlisted: "\<forall>s0 \<in> set (page_trace moderation_act moderation_settle moderation_world_step [] (moderation_initial
      \<lparr>isPending = True, query_error = None, query_data = None\<rparr> True)). \<forall>l. removable s0 l \<longrightarrow> is_segment (listing_id l)"
    by (simp add: removable_def moderation_shown_def moderation_initial_def)
  obtain s where detail: "page_run (detail_screen id id) detail_act detail_settle detail_world_step
      [Click Ask_delete, Click Confirm_delete]
      (detail_initial ''l1'' (Some seller) (detail_answer_of ''l1'' []) True, 0, []) = Some (s, 1, [Delete_listing ''l1''])"
    using deletion_run by blast
  obtain t where users: "page_run (users_view id) users_act users_settle users_world_step
      [Click (Ask_reset (account ''x'')), Click Confirm_reset] (two_accounts, 0, []) = Some (t, 1, [Reset_password ''x''])"
    using reset_run by blast
  from requests_conform [OF segment location detail reset_listed [unfolded two_accounts_def] users [unfolded two_accounts_def]
      unlisted page_run.simps(1)] users
  show ?thesis by simp
qed

lemma prefix_matches:
  assumes "\<forall>k p. matches k p \<longleftrightarrow> take (length p) k = p"
  shows "invalidated matches m q \<longleftrightarrow> (\<exists>p \<in> set (m_invalidates m). take (length p) (q_key q) = p)"
  using assms by (auto simp: invalidated_def)

text \<open>C32: Whoever changes something sees the change. The query client is documented to match a key against
  every key that extends it; then in every run of the three pages, every request sent makes the client
  ask again for what its page shows: a sale and a deletion for the listing that was on the page when it
  was sent, and for the seller's ledger, to which a deletion leads; a suspension and a reinstatement for
  the list of accounts, whatever its page; a removal for the moderation list, whatever its page and
  status. A password's reset alone changes nothing that is shown.\<close>

theorem own_changes_refetched:
  assumes "\<forall>k p. matches k p \<longleftrightarrow> take (length p) k = p"
    and "page_run (detail_screen fd fm) detail_act detail_settle detail_world_step ds (detail_initial lid user r wide, 0, []) =
      Some (s, n, sent)"
    and "page_run (users_view fd) users_act users_settle users_world_step us (users_initial session r' wide, 0, []) =
      Some (s', n', sent')"
    and "page_run (moderation_view fd) moderation_act moderation_settle moderation_world_step ms
      (moderation_initial r'' wide, 0, []) = Some (s'', n'', sent'')"
  shows "(\<forall>q \<in> set sent.
      (\<exists>s0 \<in> set (page_trace detail_act detail_settle detail_world_step ds (detail_initial lid user r wide)).
        invalidated matches (detail_mutation q) (useListing (d_id s0))) \<and>
      invalidated matches (detail_mutation q) useMyListings) \<and>
    (\<forall>q \<in> set sent'. invalidated matches (users_mutation q) (users_query s') \<longleftrightarrow> users_kind_of q \<noteq> Resetting) \<and>
    (\<forall>q \<in> set sent''. invalidated matches (moderation_mutation q) (moderation_query s''))"
proof (intro conjI ballI)
  fix q assume q: "q \<in> set sent"
  then obtain s0 where s0: "s0 \<in> set (page_trace detail_act detail_settle detail_world_step ds (detail_initial lid user r wide))"
    "q = Mark_sold (d_id s0) \<or> q = Delete_listing (d_id s0)"
    using detail_sent_for_shown [OF assms(2)] by blast
  then have "invalidated matches (detail_mutation q) (useListing (d_id s0))"
    by (auto simp: prefix_matches [OF assms(1)] mutation_hook_defs query_hook_defs query_key_defs)
  with s0(1) show "\<exists>s0 \<in> set (page_trace detail_act detail_settle detail_world_step ds (detail_initial lid user r wide)).
      invalidated matches (detail_mutation q) (useListing (d_id s0))" by blast
  show "invalidated matches (detail_mutation q) useMyListings"
    by (cases q) (auto simp: prefix_matches [OF assms(1)] mutation_hook_defs query_hook_defs query_key_defs)
next
  show "invalidated matches (users_mutation q) (users_query s') \<longleftrightarrow> users_kind_of q \<noteq> Resetting" for q
    by (cases q) (simp_all add: prefix_matches [OF assms(1)] mutation_hook_defs users_query_def query_hook_defs query_key_defs)
  show "invalidated matches (moderation_mutation q) (moderation_query s'')" for q
    by (cases q) (simp add: prefix_matches [OF assms(1)] mutation_hook_defs moderation_query_def query_hook_defs query_key_defs)
qed

theorem own_changes_refetched_witness:
  "\<exists>s. page_run (detail_screen id id) detail_act detail_settle detail_world_step [Click Ask_delete, Click Confirm_delete]
      (detail_initial ''l1'' (Some seller) (detail_answer_of ''l1'' []) True, 0, []) = Some (s, 1, [Delete_listing ''l1'']) \<and>
     invalidated (\<lambda>k p. take (length p) k = p) (detail_mutation (Delete_listing ''l1'')) useMyListings"
proof -
  obtain s where run: "page_run (detail_screen id id) detail_act detail_settle detail_world_step [Click Ask_delete, Click Confirm_delete]
      (detail_initial ''l1'' (Some seller) (detail_answer_of ''l1'' []) True, 0, []) = Some (s, 1, [Delete_listing ''l1''])"
    using deletion_run by blast
  from own_changes_refetched [OF _ run page_run.simps(1) page_run.simps(1), of "\<lambda>k p. take (length p) k = p"]
  have "invalidated (\<lambda>k p. take (length p) k = p) (detail_mutation (Delete_listing ''l1'')) useMyListings" by simp
  with run show ?thesis by blast
qed

end
