(* ===== verification/Modal_Focus.thy ===== *)
theory Modal_Focus
  imports Ui_Components
begin

text \<open>
  \<open>src/components/Modal.tsx\<close>, the effect with its clean-up: what has the focus when a dialog opens, is
  rendered again, and closes. The effect depends on \<open>isOpen\<close> and on the function \<open>onClose\<close>, which React
  compares by identity; 'c is the type of these identities. The controls of a dialog are those
  elements of its tree that \<open>FOCUSABLE_SELECTOR\<close> finds, in document order.
\<close>

section \<open>Controls\<close>

definition focusable :: "tag \<Rightarrow> attributes \<Rightarrow> bool" where
  "focusable t ats \<longleftrightarrow>
     t = ANCHOR \<and> map_of ats At_href \<noteq> None \<or>
     t \<in> {BUTTON, TEXTAREA, INPUT, SELECT} \<and> enabled ats \<or>
     (case map_of ats At_tabindex of None \<Rightarrow> False | Some i \<Rightarrow> i \<noteq> ''-1'')"

fun focusables :: "'a node \<Rightarrow> 'a node list" where
  "focusables (Text s) = []"
| "focusables (Elem t ats hs ks) = only_if (focusable t ats) [Elem t ats hs ks] @ concat (map focusables ks)"

definition controls :: "'a node list \<Rightarrow> 'a node list" where
  "controls ns = concat (map focusables ns)"

section \<open>The effect\<close>

text \<open>Where the focus can be: on nothing in particular, on the element of the page that opened the
  dialog, or at a place as seen from the dialog.\<close>

datatype place = Body | Opener nat | At focus

record 'c modal_focus =
  mf_deps :: "(bool \<times> 'c) option"
  mf_controls :: nat
  mf_active :: place
  mf_previous :: "place option"

definition in_dialog :: "place \<Rightarrow> bool" where
  "in_dialog p \<longleftrightarrow> (case p of At Container \<Rightarrow> True | At (Control i) \<Rightarrow> True | _ \<Rightarrow> False)"

text \<open>\<open>previouslyFocusedRef.current?.focus()\<close>, which has no effect on an element that has gone or cannot have
  the focus.\<close>

definition restore_focus :: "(nat \<Rightarrow> bool) \<Rightarrow> bool \<Rightarrow> 'c modal_focus \<Rightarrow> 'c modal_focus" where
  "restore_focus alive isOpen m =
     (case mf_previous m of
        None \<Rightarrow> m
      | Some Body \<Rightarrow> m
      | Some (Opener i) \<Rightarrow> if alive i then m\<lparr>mf_active := Opener i\<rparr> else m
      | Some (At f) \<Rightarrow> if in_dialog (At f) \<and> \<not> isOpen then m else m\<lparr>mf_active := At f\<rparr>)"

definition focus_effect :: "'c modal_focus \<Rightarrow> 'c modal_focus" where
  "focus_effect m = m\<lparr>mf_previous := Some (mf_active m), mf_active := At (open_focus (mf_controls m))\<rparr>"

text \<open>One rendering of the component: the elements of a closed dialog leave the document, and the focus
  with them; then, if the dependencies have changed, the clean-up of the last run of the effect, and
  the effect.\<close>

definition modal_render :: "(nat \<Rightarrow> bool) \<Rightarrow> bool \<Rightarrow> nat \<Rightarrow> 'c \<Rightarrow> 'c modal_focus \<Rightarrow> 'c modal_focus" where
  "modal_render alive isOpen n onClose m =
     (let m1 = m\<lparr>mf_controls := n, mf_active := (if \<not> isOpen \<and> in_dialog (mf_active m) then Body else mf_active m)\<rparr> in
      if mf_deps m = Some (isOpen, onClose) then m1
      else
        let m2 = (case mf_deps m of Some (True, _) \<Rightarrow> restore_focus alive isOpen m1 | _ \<Rightarrow> m1)\<lparr>mf_deps := Some (isOpen, onClose)\<rparr>
        in if isOpen then focus_effect m2 else m2)"

text \<open>A key while the dialog is open. From a place outside the dialog the browser's Tab goes where the
  page has its elements, which is an event of its own.\<close>

definition modal_key :: "key \<Rightarrow> 'c modal_focus \<Rightarrow> 'c modal_focus" where
  "modal_key k m =
     (case mf_active m of
        At f \<Rightarrow> (case handleKeyDown (mf_controls m) f k of CloseDialog \<Rightarrow> m | MoveFocus g \<Rightarrow> m\<lparr>mf_active := At g\<rparr>)
      | _ \<Rightarrow> m)"

datatype 'c modal_event = Render bool nat 'c | Press key | Focus_moved place

fun modal_step :: "(nat \<Rightarrow> bool) \<Rightarrow> 'c modal_event \<Rightarrow> 'c modal_focus \<Rightarrow> 'c modal_focus" where
  "modal_step alive (Render isOpen n onClose) m = modal_render alive isOpen n onClose m"
| "modal_step alive (Press k) m = modal_key k m"
| "modal_step alive (Focus_moved p) m = m\<lparr>mf_active := p\<rparr>"

definition modal_run :: "(nat \<Rightarrow> bool) \<Rightarrow> 'c modal_event list \<Rightarrow> 'c modal_focus \<Rightarrow> 'c modal_focus" where
  "modal_run alive es m = fold (modal_step alive) es m"

text \<open>The component before its first opening.\<close>

definition modal_mounted :: "'c \<Rightarrow> place \<Rightarrow> 'c modal_focus" where
  "modal_mounted onClose p = \<lparr>mf_deps = Some (False, onClose), mf_controls = 0, mf_active = p, mf_previous = None\<rparr>"

section \<open>Properties\<close>

lemma modal_run_simps [simp]:
  "modal_run alive [] m = m" "modal_run alive (e # es) m = modal_run alive es (modal_step alive e m)"
  "modal_run alive (ds @ es) m = modal_run alive es (modal_run alive ds m)"
  by (simp_all add: modal_run_def)

definition open_for :: "nat \<Rightarrow> 'c modal_focus \<Rightarrow> bool" where
  "open_for i m \<longleftrightarrow> (\<exists>c. mf_deps m = Some (True, c)) \<and> mf_previous m = Some (Opener i)"

fun keeps_open :: "'c modal_event \<Rightarrow> bool" where
  "keeps_open (Render isOpen n c) = isOpen"
| "keeps_open _ = True"

lemma modal_key_simps [simp]:
  "mf_deps (modal_key k m) = mf_deps m" "mf_previous (modal_key k m) = mf_previous m"
  by (auto simp: modal_key_def split: place.split key_effect.split)

lemma restore_focus_deps [simp]:
  "mf_deps (restore_focus alive isOpen m) = mf_deps m" "mf_controls (restore_focus alive isOpen m) = mf_controls m"
  by (auto simp: restore_focus_def split: option.split place.split)

lemma open_for_step: "open_for i m \<Longrightarrow> alive i \<Longrightarrow> keeps_open e \<Longrightarrow> open_for i (modal_step alive e m)"
  by (cases e) (auto simp: open_for_def modal_render_def Let_def restore_focus_def focus_effect_def)

lemma open_for_run: "open_for i m \<Longrightarrow> alive i \<Longrightarrow> list_all keeps_open es \<Longrightarrow> open_for i (modal_run alive es m)"
proof (induction es arbitrary: m)
  case (Cons e es)
  then show ?case using open_for_step [of i m alive e] by simp
qed simp

text \<open>A rendering while the dialog is open: with the same function the focus stays, with another one it goes
  to the first control.\<close>

lemma rerender_focus:
  assumes "mf_deps m = Some (True, c)"
  shows "mf_active (modal_render alive True n c m) = mf_active m"
    and "c' \<noteq> c \<Longrightarrow> mf_active (modal_render alive True n c' m) = At (open_focus n)"
  using assms by (simp_all add: modal_render_def Let_def focus_effect_def)

text \<open>The controls of the components that dialogs hold.\<close>

lemma controls_simps [simp]:
  "controls [] = []" "controls (n # ns) = focusables n @ controls ns" "controls (ms @ ns) = controls ms @ controls ns"
  "controls (only_if b ns) = only_if b (controls ns)"
  by (simp_all add: controls_def only_if_def)

lemma focusables_elem [simp]:
  "focusables (Elem t ats hs ks) = only_if (focusable t ats) [Elem t ats hs ks] @ controls ks"
  by (simp add: controls_def)

declare focusables.simps(2) [simp del]

lemma focusables_button [simp]:
  "focusables (plain_button [] a s) = [plain_button [] a s]"
  "focusables (Button ty busy off [] hs ks) = only_if (\<not> off \<and> \<not> busy) [Button ty busy off [] hs ks] @ controls ks"
  by (auto simp: plain_button_def Button_def focusable_def only_if_def loader_icon_def)

lemma controls_Modal:
  "controls (Modal tid True onClose title v ks) =
     (if v = Dialog then [] else [plain_button [] onClose ''Close'']) @ controls ks"
  by (cases v) (simp_all add: Modal_def focusable_def only_if_def)

text \<open>C33: Closing a dialog gives the focus back to what opened it. Whatever happens while it is open (keys,
  clicks, renderings with other functions and other controls), the rendering that closes the dialog
  leaves the focus on the element that had it at the opening, if that is still there.\<close>

theorem focus_returns:
  assumes "list_all keeps_open es" and "alive i"
  shows "mf_active (modal_run alive (Render True n c # es @ [Render False n' c']) (modal_mounted c0 (Opener i))) = Opener i"
proof -
  have "open_for i (modal_step alive (Render True n c) (modal_mounted c0 (Opener i)))"
    by (simp add: open_for_def modal_mounted_def modal_render_def focus_effect_def)
  from open_for_run [where alive = alive, OF this assms(2,1)] assms(2) show ?thesis
    by (auto simp: open_for_def modal_render_def Let_def restore_focus_def)
qed

theorem focus_returns_witness:
  "mf_active (modal_run (\<lambda>_. True) (Render True 3 (1::nat) # [Press (Tab False), Render True 3 2, Focus_moved (At (Control 2))] @
     [Render False 0 3]) (modal_mounted 0 (Opener 7))) = Opener 7"
  by (rule focus_returns) simp_all

end
