(* ===== verification/Dialog_Focus.thy ===== *)
theory Dialog_Focus
  imports Modal_Focus Admin_Listings Listing_Detail
begin

text \<open>
  The dialogs of the pages composed with the effect of \<open>Modal.tsx\<close>. Every page gives its dialog an
  \<open>onClose\<close> written in the rendering itself, another function each time, so that every rendering of an
  open dialog runs the effect again. Where that leaves the user depends on the dialog's first control.
\<close>

section \<open>The controls of the dialogs\<close>

text \<open>A tree whose handlers are all on controls offers nothing that a control of it does not offer.\<close>

fun on_controls :: "'a node \<Rightarrow> bool" where
  "on_controls (Text s) = True"
| "on_controls (Elem t ats hs ks) = ((hs = [] \<or> (focusable t ats \<and> list_all (\<lambda>h. \<not> is_submit h) hs)) \<and> list_all on_controls ks)"

lemma offered_by_control:
  "on_controls n \<Longrightarrow> offers n a \<Longrightarrow> \<exists>e \<in> set (focusables n). offers e a"
proof (induction n)
  case (Elem t ats hs ks)
  show ?case
  proof (cases "enabled ats \<and> (\<exists>h \<in> set hs. triggers h a)")
    case True
    then have "offers (Elem t ats hs ks) a" "focusable t ats" using Elem.prems by auto
    then show ?thesis by auto
  next
    case False
    then obtain k where "k \<in> set ks" "offers k a" using Elem.prems(2) by (auto simp: offers_any_def)
    moreover then have "on_controls k" using Elem.prems(1) by (auto simp: list_all_iff)
    ultimately show ?thesis using Elem.IH by (force simp: controls_def)
  qed
qed simp

lemma offered_by_controls:
  "list_all on_controls ns \<Longrightarrow> offers_any ns a \<Longrightarrow> \<exists>e \<in> set (controls ns). offers e a"
  unfolding offers_any_def list_all_iff controls_def using offered_by_control by fastforce

lemma on_controls_parts [simp]:
  "enabled ats \<Longrightarrow> on_controls (plain_button ats a s)"
  "on_controls (ConditionMeter c)" "on_controls (radio n b a k) \<longleftrightarrow> on_controls k"
  "on_controls (price_input uid l ph v f)"
  by (auto simp: plain_button_def ConditionMeter_def radio_def price_input_def Input_def input_defaults_def
      focusable_def field_notes_def only_if_def required_mark_def list_all_iff split: option.split)

lemma FilterFields_on_controls: "list_all on_controls (FilterFields p s)"
  by (simp add: FilterFields_def category_fields_def condition_fields_def price_fields_def preset_button_def Let_def
      list_all_iff)

lemma reason_control:
  "\<exists>e. focusables (reason_input v f) = [e] \<and> (\<forall>x. offers e (f x))"
  by (auto simp: reason_input_def Input_def input_defaults_def focusable_def field_notes_def only_if_def required_mark_def
      described_by_def)

lemma suspend_controls:
  "u_suspendTarget s \<noteq> None \<Longrightarrow>
     \<exists>e. hd (controls (suspend_modal s)) = e \<and> controls (suspend_modal s) \<noteq> [] \<and> (\<forall>v. offers e (Set_reason v))"
  using reason_control [of "u_reason s" Set_reason] by (auto simp: suspend_modal_def controls_Modal opt_node_def only_if_def focusable_def split: option.split)

lemma remove_controls:
  "md_removeTarget s \<noteq> None \<Longrightarrow>
     \<exists>e. hd (controls (remove_modal s)) = e \<and> controls (remove_modal s) \<noteq> [] \<and> (\<forall>v. offers e (Set_remove_reason v))"
  using reason_control [of "md_reason s" Set_remove_reason] by (auto simp: remove_modal_def controls_Modal opt_node_def only_if_def focusable_def split: option.split)

lemma sheet_controls:
  "b_sheetOpen s \<Longrightarrow>
     \<exists>es. controls (filter_sheet tid count s) = plain_button [] Close_sheet ''Close'' # controls (FilterFields ''sheet'' s) @ es"
  by (simp add: filter_sheet_def controls_Modal)

lemma lightbox_controls:
  assumes "1 < length (listing_images l)" and "i < length (listing_images l)"
  shows "map_option controls (Lightbox_view tid l i) =
    Some [plain_button [] Close_lightbox ''Close'',
          plain_button [] (Lightbox_to (previous_photo i (length (listing_images l)))) ''Previous'',
          plain_button [] (Lightbox_to (next_photo i (length (listing_images l)))) ''Next'']"
  using assms by (simp add: Lightbox_view_def Let_def controls_Modal focusable_def)

section \<open>Typing a reason\<close>

text \<open>Typing a reason is not interrupted. In the dialogs that ask an administrator for one, to suspend an
  account or to remove a listing, the field of the reason is the first control; so the focus, which each
  rendering after a keystroke moves to the first control, stays on the field.\<close>

theorem typing_a_reason_keeps_focus:
  assumes "u_suspendTarget s \<noteq> None" and "md_removeTarget r \<noteq> None" and "mf_deps m = Some (True, c)" and "c' \<noteq> c"
  shows "let us = controls (suspend_modal (fst (users_act (Set_reason v) s)));
             rs = controls (remove_modal (fst (moderation_act (Set_remove_reason v) r)))
    in mf_active (modal_render alive True (length us) c' m) = At (Control 0) \<and> offers (us ! 0) (Set_reason w) \<and>
       mf_active (modal_render alive True (length rs) c' m) = At (Control 0) \<and> offers (rs ! 0) (Set_remove_reason w)"
proof -
  let ?us = "controls (suspend_modal (fst (users_act (Set_reason v) s)))"
  let ?rs = "controls (remove_modal (fst (moderation_act (Set_remove_reason v) r)))"
  have "?us \<noteq> []" "offers (hd ?us) (Set_reason w)" "?rs \<noteq> []" "offers (hd ?rs) (Set_remove_reason w)"
    using assms(1,2) suspend_controls [of "fst (users_act (Set_reason v) s)"]
      remove_controls [of "fst (moderation_act (Set_remove_reason v) r)"] by auto
  then show ?thesis
    using rerender_focus(2) [OF assms(3,4)] by (simp add: open_focus_def hd_conv_nth Let_def)
qed

definition open_dialog :: "nat modal_focus" where
  "open_dialog = modal_render (\<lambda>_. True) True 3 1 (modal_mounted 0 (Opener 0))"

lemma open_dialog_simps [simp]:
  "mf_deps open_dialog = Some (True, 1)" "mf_active open_dialog = At (Control 0)"
  by (simp_all add: open_dialog_def modal_render_def modal_mounted_def Let_def focus_effect_def open_focus_def)

theorem typing_a_reason_keeps_focus_witness:
  "let us = controls (suspend_modal (fst (users_act (Set_reason ''s'') (two_accounts\<lparr>u_suspendTarget := Some (account ''x'')\<rparr>))))
   in mf_active (modal_render (\<lambda>_. True) True (length us) 2 open_dialog) = At (Control 0) \<and> offers (us ! 0) (Set_reason ''sp'')"
  using typing_a_reason_keeps_focus [of "two_accounts\<lparr>u_suspendTarget := Some (account ''x'')\<rparr>"
      "moderated\<lparr>md_removeTarget := Some sample_listing\<rparr>" open_dialog 1 2 "''s''" "\<lambda>_. True" "''sp''"]
  by (simp add: Let_def)

section \<open>The dialogs with a button to close them\<close>



end
