(* ===== verification/Spec2Isabelle.thy ===== *)
theory Spec2Isabelle
  imports App_Start App_Settles App_Routes Profile_Page Listing_Editors Home_Page Page_Requests Dialog_Focus
begin

text \<open>
  Punah-Pustak is a marketplace for second-hand books. Its front end (\<open>src/frontend/src\<close>, TypeScript) is
  a single-page application on an HTTP API; this development models that front end. All source names
  below are relative to \<open>src/frontend/src\<close>.

  \<^bold>\<open>The parts and how they interact.\<close> A page reads its data through query hooks and changes it
  through mutation hooks (\<open>hooks/\<close>); these call the endpoint functions (\<open>api/auth.ts\<close>, \<open>api/users.ts\<close>,
  \<open>api/listings.ts\<close>, \<open>api/admin.ts\<close>); every endpoint calls \<open>apiFetch\<close> (\<open>api/client.ts\<close>), which adds the
  access token, waits for a session restore in flight, and repairs a 401 by one shared token refresh
  and one retry. The client calls back into the session provider (\<open>auth/AuthContext.tsx\<close>) when the
  session has expired or a password change is demanded; the provider's state decides what the guards
  of the routes (\<open>auth/ProtectedRoute.tsx\<close>, \<open>App.tsx\<close>) and the header (\<open>components/Layout.tsx\<close>) show.
  Pages are built of shared components (\<open>components/\<close>), and errors come back as \<open>ApiError\<close>
  (\<open>api/errors.ts\<close>), which \<open>lib/formErrors.ts\<close> distributes over the fields of a form.

  \<^bold>\<open>The theories.\<close>

  \<^item> \<^theory_text>\<open>Prelude\<close>: JavaScript's \<open>trim\<close>, \<open>|| undefined\<close>, dictionaries, settled promises.
  \<^item> \<^theory_text>\<open>Js_Number\<close>, \<^theory_text>\<open>Js_Url\<close>: what the code uses of the language's library: reading a number from text,
    rounding to a double and printing with two decimals; percent encoding, query strings and
    \<open>URLSearchParams\<close>. \<open>buildUrl\<close> of \<open>api/client.ts\<close> is shown to be read back as it was written.
  \<^item> \<^theory_text>\<open>Api_Errors\<close>: \<open>api/errors.ts\<close>, \<open>lib/formErrors.ts\<close>, \<open>getErrorMessage\<close>.
  \<^item> \<^theory_text>\<open>Api_Client\<close>: \<open>api/client.ts\<close> and \<open>api/tokenStore.ts\<close>. Each asynchronous function is cut at its
    awaits; the record \<open>client\<close> is the module's state with the calls and refreshes in progress, the
    function \<open>step\<close> one turn of the event loop. \<^theory_text>\<open>Api_Client_Safety\<close>: invariants of every run (one
    refresh in flight, token handling, at most two requests a call, no call stuck, at most seven steps)
    and the refinement of the abstract protocol of a single call.
  \<^item> \<^theory_text>\<open>Listing_Labels\<close>, \<^theory_text>\<open>Endpoints\<close>: the data of \<open>api/types.ts\<close>, the labels and formats of
    \<open>lib/listingLabels.ts\<close>, and the call every endpoint function makes.
  \<^item> \<^theory_text>\<open>Api_Schema\<close>: the generated contract \<open>api/schema.ts\<close> as data: schemas, operations, paths. A
    call conforms when the contract has the operation, with its parameters, its body and its answer;
    every call of the endpoint functions does.
  \<^item> \<^theory_text>\<open>Auth_Context\<close>, \<^theory_text>\<open>Auth_Safety\<close>: the provider on top of the client: session restore, login,
    logout, password change, the clean-ups of its effects, in any interleaving with the client's own
    steps. \<^theory_text>\<open>App_Start\<close>: \<open>main.tsx\<close>, the order in which the module, the pages and the provider start. \<^theory_text>\<open>App_Settles\<close>:
    a measure of the work under way, which every step of the system makes smaller, and the step that is
    always there while something is under way.
  \<^item> \<^theory_text>\<open>Vdom\<close>, \<^theory_text>\<open>Ui_Components\<close>: a rendered tree is a \<open>node\<close> with attributes, handlers and text; each
    component is a function to such a tree. \<open>offers\<close> says that a tree has an enabled element whose
    handler is the given action; the lemmas on \<open>offers\<close> compute it for every component.
  \<^item> \<^theory_text>\<open>App_Routes\<close>: the route table, the guard, redirections, header and footer.
  \<^item> \<^theory_text>\<open>Form_Flow\<close>: what all forms share, as a locale: a view, actions, one outstanding submission, its
    answer. \<^theory_text>\<open>Account_Forms\<close> (login, registration, profile and password pages; \<^theory_text>\<open>Profile_Page\<close> has the
    runs of the profile's two forms), \<^theory_text>\<open>Listing_Form\<close>
    (\<open>ListingForm\<close>, \<open>ImageUploadField\<close>) and \<^theory_text>\<open>Listing_Editors\<close> (the pages to create and edit a
    listing) interpret it on their own definitions.
  \<^item> \<^theory_text>\<open>Query_Hooks\<close>: query keys, queries, mutations with the keys they invalidate, the debouncer, the
    media query.
  \<^item> \<^theory_text>\<open>Page_Flow\<close>: runs of a page with actions, answers and changes from outside, and the locale of a
    confirmation dialog, with the fact that a request implies an opened dialog. \<^theory_text>\<open>Listing_Detail\<close>,
    \<^theory_text>\<open>Admin_Users\<close> and \<^theory_text>\<open>Admin_Listings\<close> interpret it, once for each dialog.
  \<^item> \<^theory_text>\<open>Browse_Page\<close>, \<^theory_text>\<open>Home_Page\<close>, \<^theory_text>\<open>My_Listings\<close>: the pages of the catalogue and the seller's ledger.
  \<^item> \<^theory_text>\<open>Page_Contracts\<close>: the pages composed with their hooks and endpoints against the contract: in every
    run, what a page asks for is what the API accepts. \<^theory_text>\<open>Page_Requests\<close>: the same for what a page sends,
    with the locale \<open>exclusive_requests\<close> (a button is disabled while its mutation is pending), interpreted
    on the listing's page, the page of accounts and the moderation page, and what each change makes the
    client ask again.
  \<^item> \<^theory_text>\<open>Modal_Focus\<close>, \<^theory_text>\<open>Dialog_Focus\<close>: what has the focus while a dialog opens, is rendered again and closes
    (the effect of \<open>components/Modal.tsx\<close>), and what that does to the dialogs of the pages.
  \<^item> This theory: the property that spans session, guards and pages.

  \<^bold>\<open>How runs are read.\<close> A run is a list of events. A user's action is an event only where the rendered
  tree offers it, a press of an enabled button say; an answer only where a request is outstanding.
  Changes from outside (a refetched query, another session state, another location, another width of
  the window) can come at any time. Every statement about runs is therefore one about all interleavings.

  \<^bold>\<open>Bounds and fuel.\<close> The check of a value against a schema follows references to
  depth 5, more than the nesting of any schema of the contract. Redirections are followed with a fuel of
  elements shown; the statement on guards shows that it is enough for every session and every route. All
  other functions are structurally recursive. Nothing else is bounded: runs are lists of any length, and
  that the system comes to rest is proved with a measure. Numbers that JavaScript computes from text are
  decimals rounded to 53 bits; counts and page numbers are integers below that precision.

  \<^bold>\<open>Hypotheses.\<close> The query library's matching of keys (a key matches every key that
  extends it) is a hypothesis where invalidation is concerned; the browser's formatting of a date, which
  depends on its time zone, and the base URL are arguments. The server's answers are arbitrary.

  \<^bold>\<open>Not modelled.\<close> The reading of the build's environment (\<open>api/config.ts\<close>) is glue, the options of the
  query client (\<open>main.tsx\<close>) are settings of a library, and class names (\<open>lib/layout.ts\<close>, every
  \<open>className\<close>) carry no behaviour. Characters are 8-bit, so that text outside Latin-1 is not
  covered. In the lists of the catalogue, the ledger and the moderation page, whether a photo has loaded
  is kept for a listing that leaves the list, where React would start its frame afresh. The query
  library's cache is not modelled beyond keys and invalidation: a query's answer is an argument of its
  page. The back end (\<open>src/backend\<close>, Python), tests, and configuration are outside.
\<close>

section \<open>The session, the guards and the pages together\<close>

text \<open>C13: The administrator's pages appear only to an administrator the server vouched for. In every run of
  the application, whatever logs in, out, expires, reloads or is unmounted meanwhile, if any entry of
  the route table, its redirections followed, puts the page of accounts or the moderation page on the
  screen, then a \<open>GET /users/me\<close> of this session was answered with the logged-in user, and that answer
  has the administrator's role.\<close>

theorem admin_page_backed_by_server:
  assumes "auth_run base es (initial_session p) = Some c" and "(path, e) \<in> set routes"
    and "follow 3 (auth (app c)) here e = Some (ShowPage q)" and "needs_admin q"
  shows "\<exists>j u. calls c j = Some (getOwnProfile, CallSettled (Inr (Some (DataPayload (UserData u))))) \<and>
    user_role u = Admin \<and> auth (app c) = Authenticated u"
proof -
  have "is_admin (auth (app c))"
    using follow_safe [OF assms(2), of "auth (app c)" here] assms(3,4) by (auto simp: safe_screen_def)
  then obtain u where u: "auth (app c) = Authenticated u" "user_role u = Admin"
    by (cases "auth (app c)") auto
  then show ?thesis using auth_inv_user [OF auth_run_inv [OF assms(1)] u(1)] by blast
qed

definition administrator_visits :: "auth_event list" where
  "administrator_visits =
     [AppStart, Mount 0, Client (RefreshResponse (token_answer ''t0'')), Client RefreshJson, Client RefreshFinally,
      Continue 0 0, Client (Response 0 \<lparr>status = 200, payload = DataPayload (UserData admin)\<rparr>), Client (ReadBody 0),
      Continue 0 1]"

lemma administrator_visits_run:
  "\<exists>c. auth_run [] administrator_visits (initial_session ''/'') = Some c \<and> auth (app c) = Authenticated admin"
  by (simp add: administrator_visits_def auth_defs client_defs getOwnProfile_def endpoint_def token_answer_def ok_def
      NO_RETRY_PATHS_def)

theorem admin_page_backed_by_server_witness:
  "\<exists>c j u. auth_run [] administrator_visits (initial_session ''/'') = Some c \<and>
     follow 3 (auth (app c)) ''/admin/users'' (ProtectedRoute True AdminUsersPage) = Some (ShowPage AdminUsersPage) \<and>
     calls c j = Some (getOwnProfile, CallSettled (Inr (Some (DataPayload (UserData u))))) \<and> user_role u = Admin"
proof -
  obtain c where run: "auth_run [] administrator_visits (initial_session ''/'') = Some c" "auth (app c) = Authenticated admin"
    using administrator_visits_run by blast
  have route: "(''/admin/users'', ProtectedRoute True AdminUsersPage) \<in> set routes" by (simp add: routes_def)
  have shown: "follow 3 (auth (app c)) ''/admin/users'' (ProtectedRoute True AdminUsersPage) = Some (ShowPage AdminUsersPage)"
    using run(2) by (simp add: eval_nat_numeral protected_def admin_def)
  have "needs_admin AdminUsersPage" by (simp add: needs_admin_def)
  from admin_page_backed_by_server [OF run(1) route shown this] run(1) shown show ?thesis by blast
qed

end
